(* ===== verification/Prelude.thy ===== *)
theory Prelude
  imports Main "HOL-Library.AList" "HOL-Library.Sublist" "HOL-Library.Word"
    "HOL-Library.Monad_Syntax"
begin

text \<open>
  The shared vocabulary of the development.

  A Go function that touches the outside world or can fail is an operation
  \<open>('w, 'a) op\<close>: a function from the world to a result and the world it leaves behind.
  The result is \<open>Ok a\<close> (the function returned \<open>a, nil\<close>), \<open>Err e\<close> (it returned an
  error) or \<open>Panic m\<close> (it panicked: a nil dereference or an index out of range).
  \<open>tryE m h k\<close> is the idiom \<open>x, err := m; if err != nil { return nil, h(err) }; k(x)\<close>,
  \<open>attempt m k\<close> passes the error value on to code that inspects it, \<open>forE\<close> is a loop that
  returns at the first error and \<open>collectE\<close> is a group of goroutines that report their
  errors over a channel and are waited for.

  \<open>wp m Q E w\<close> is the weakest precondition of an operation: it does not panic, and
  \<open>Q\<close> holds of what it returns or \<open>E\<close> of the error it returns.  The rules of the
  calculus are equations, collected in \<open>wp_simps\<close>; \<open>keeps I m\<close> says that \<open>m\<close>
  keeps a predicate of the world on every path, panics included.
\<close>

named_theorems wp_simps "equations of the weakest-precondition calculus"
named_theorems run_simps "running an operation whose first step is known"
named_theorems keeps_intros "rules for preserved predicates"

section \<open>Errors, results and operations\<close>

datatype gerr =
    Errorf string
  | Wrap gerr string
  | MemoryKeyNotFoundError
  | Ext string
  | Errs "gerr list"
  | ctrlErr gerr

datatype 'a res = Ok 'a | Err gerr | Panic string

type_synonym ('w, 'a) op = "'w \<Rightarrow> 'a res \<times> 'w"

definition ret :: "'a \<Rightarrow> ('w, 'a) op" where
  "ret a w = (Ok a, w)"

definition fail :: "gerr \<Rightarrow> ('w, 'a) op" where
  "fail e w = (Err e, w)"

definition panic :: "string \<Rightarrow> ('w, 'a) op" where
  "panic m w = (Panic m, w)"

definition attempt :: "('w, 'a) op \<Rightarrow> (gerr + 'a \<Rightarrow> ('w, 'b) op) \<Rightarrow> ('w, 'b) op" where
  "attempt m k w = (case m w of
      (Ok a, w') \<Rightarrow> k (Inr a) w'
    | (Err e, w') \<Rightarrow> k (Inl e) w'
    | (Panic s, w') \<Rightarrow> (Panic s, w'))"

definition tryE :: "('w, 'a) op \<Rightarrow> (gerr \<Rightarrow> gerr) \<Rightarrow> ('a \<Rightarrow> ('w, 'b) op) \<Rightarrow> ('w, 'b) op" where
  "tryE m h k w = (case m w of
      (Ok a, w') \<Rightarrow> k a w'
    | (Err e, w') \<Rightarrow> (Err (h e), w')
    | (Panic s, w') \<Rightarrow> (Panic s, w'))"

definition wrap :: "string \<Rightarrow> gerr \<Rightarrow> gerr" where
  "wrap m e = Wrap e m"

text \<open>\<open>errors.Wrapf\<close> of pkg/errors returns nil when the error it wraps is nil; where the
  code calls it on an error that may be nil, the error is an option.\<close>

definition errors_Wrapf :: "gerr option \<Rightarrow> string \<Rightarrow> gerr option" where
  "errors_Wrapf e m = map_option (wrap m) e"

fun forE :: "('a \<Rightarrow> ('w, unit) op) \<Rightarrow> 'a list \<Rightarrow> ('w, unit) op" where
  "forE f [] = ret ()"
| "forE f (x # xs) = tryE (f x) id (\<lambda>_. forE f xs)"

fun collectE :: "('a \<Rightarrow> ('w, 'b) op) \<Rightarrow> 'a list \<Rightarrow> ('w, gerr list) op" where
  "collectE f [] = ret []"
| "collectE f (x # xs) = attempt (f x) (\<lambda>r. tryE (collectE f xs) id (\<lambda>es.
     ret (case r of Inl e \<Rightarrow> e # es | Inr _ \<Rightarrow> es)))"

definition wp :: "('w, 'a) op \<Rightarrow> ('a \<Rightarrow> 'w \<Rightarrow> bool) \<Rightarrow> (gerr \<Rightarrow> 'w \<Rightarrow> bool) \<Rightarrow> 'w \<Rightarrow> bool" where
  "wp m Q E w = (case m w of
      (Ok a, w') \<Rightarrow> Q a w'
    | (Err e, w') \<Rightarrow> E e w'
    | (Panic s, w') \<Rightarrow> False)"

definition keeps :: "('w \<Rightarrow> bool) \<Rightarrow> ('w, 'a) op \<Rightarrow> bool" where
  "keeps I m \<longleftrightarrow> (\<forall>w. I w \<longrightarrow> I (snd (m w)))"

section \<open>Go maps\<close>

text \<open>
  A Go map is an association list with distinct keys: its order is the order in which
  \<open>range\<close> happens to visit the keys, so a statement for every list is a statement for
  every iteration order.  Assignment is \<open>AList.update\<close>, \<open>delete\<close> is \<open>AList.delete\<close>.
\<close>

type_synonym 'a gomap = "(string \<times> 'a) list"

section \<open>The calculus\<close>

lemma wp_ret [wp_simps]: "wp (ret a) Q E w = Q a w"
  by (simp add: wp_def ret_def)

lemma wp_fail [wp_simps]: "wp (fail e) Q E w = E e w"
  by (simp add: wp_def fail_def)

lemma wp_panic [wp_simps]: "wp (panic m) Q E w = False"
  by (simp add: wp_def panic_def)

lemma wp_attempt [wp_simps]:
  "wp (attempt m k) Q E w = wp m (\<lambda>a. wp (k (Inr a)) Q E) (\<lambda>e. wp (k (Inl e)) Q E) w"
  by (auto simp: wp_def attempt_def split: res.splits prod.splits)

lemma wp_tryE [wp_simps]:
  "wp (tryE m h k) Q E w = wp m (\<lambda>a. wp (k a) Q E) (\<lambda>e. E (h e)) w"
  by (auto simp: wp_def tryE_def split: res.splits prod.splits)

lemma wp_tryE_ret: "wp (tryE m h ret) Q E w = wp m Q (\<lambda>e. E (h e)) w"
  by (simp add: wp_tryE wp_ret [abs_def])

lemma wp_if [wp_simps]:
  "wp (if c then m else n) Q E w = (if c then wp m Q E w else wp n Q E w)"
  by simp

lemma wp_case_option [wp_simps]:
  "wp (case x of None \<Rightarrow> m | Some a \<Rightarrow> k a) Q E w =
     (case x of None \<Rightarrow> wp m Q E w | Some a \<Rightarrow> wp (k a) Q E w)"
  by (cases x) simp_all

lemma wp_case_sum [wp_simps]:
  "wp (case x of Inl e \<Rightarrow> m e | Inr a \<Rightarrow> k a) Q E w =
     (case x of Inl e \<Rightarrow> wp (m e) Q E w | Inr a \<Rightarrow> wp (k a) Q E w)"
  by (cases x) simp_all

lemma wp_Let [wp_simps]: "wp (Let a k) Q E w = (let x = a in wp (k x) Q E w)"
  by simp

lemma wp_mono:
  assumes "wp m Q E w"
    and "\<And>a w'. Q a w' \<Longrightarrow> Q' a w'" and "\<And>e w'. E e w' \<Longrightarrow> E' e w'"
  shows "wp m Q' E' w"
  using assms by (auto simp: wp_def split: res.splits prod.splits)

text \<open>One step of a sequence, with a specification of the step.\<close>

lemma wp_step:
  assumes "wp m Q1 E1 w" and "\<And>a w'. Q1 a w' \<Longrightarrow> wp (k a) Q E w'" and "\<And>e w'. E1 e w' \<Longrightarrow> E (h e) w'"
  shows "wp (tryE m h k) Q E w"
  unfolding wp_tryE by (rule wp_mono [OF assms(1)]) (use assms(2,3) in auto)

lemma wp_attempt_step:
  assumes "wp m Q1 E1 w" and "\<And>a w'. Q1 a w' \<Longrightarrow> wp (k (Inr a)) Q E w'" and "\<And>e w'. E1 e w' \<Longrightarrow> wp (k (Inl e)) Q E w'"
  shows "wp (attempt m k) Q E w"
  unfolding wp_attempt by (rule wp_mono [OF assms(1)]) (use assms(2,3) in auto)

lemma wp_conj: "wp m Q E w \<Longrightarrow> wp m Q' E' w \<Longrightarrow> wp m (\<lambda>a w. Q a w \<and> Q' a w) (\<lambda>e w. E e w \<and> E' e w) w"
  by (auto simp: wp_def split: res.splits prod.splits)

lemma wp_Ok: "m w = (Ok a, w') \<Longrightarrow> wp m Q E w = Q a w'"
  by (simp add: wp_def)

lemma wp_Err: "m w = (Err e, w') \<Longrightarrow> wp m Q E w = E e w'"
  by (simp add: wp_def)

lemma wp_OkE:
  assumes "wp m Q (\<lambda>_ _. False) w"
  obtains a w' where "m w = (Ok a, w')" and "Q a w'"
  using assms by (cases "m w"; cases "fst (m w)") (auto simp: wp_def)

lemma tryE_Ok_iff:
  "tryE m h k w = (Ok b, w'') \<longleftrightarrow> (\<exists>a w'. m w = (Ok a, w') \<and> k a w' = (Ok b, w''))"
  by (auto simp: tryE_def split: res.splits prod.splits)

lemma tryE_run [run_simps]:
  "m w = (Ok a, w') \<Longrightarrow> tryE m h k w = k a w'"
  "m w = (Err e, w') \<Longrightarrow> tryE m h k w = (Err (h e), w')"
  "m w = (Panic s, w') \<Longrightarrow> tryE m h k w = (Panic s, w')"
  by (simp_all add: tryE_def)

lemma attempt_run [run_simps]:
  "m w = (Ok a, w') \<Longrightarrow> attempt m k w = k (Inr a) w'"
  "m w = (Err e, w') \<Longrightarrow> attempt m k w = k (Inl e) w'"
  "m w = (Panic s, w') \<Longrightarrow> attempt m k w = (Panic s, w')"
  by (simp_all add: attempt_def)

lemma ret_run [run_simps]: "ret a w = (Ok a, w)"
  by (simp add: ret_def)

lemma fail_run [run_simps]: "fail e w = (Err e, w)"
  by (simp add: fail_def)

lemma panic_run [run_simps]: "panic m w = (Panic m, w)"
  by (simp add: panic_def)

text \<open>A loop keeps an invariant of its list position, stated for the elements still to come.\<close>

lemma wp_forE:
  assumes "I xs w"
    and "\<And>y ys w. \<lbrakk>suffix (y # ys) xs; I (y # ys) w\<rbrakk> \<Longrightarrow> wp (f y) (\<lambda>_. I ys) E w"
    and "\<And>w. I [] w \<Longrightarrow> Q () w"
  shows "wp (forE f xs) Q E w"
  using assms
proof (induction xs arbitrary: w)
  case Nil
  then show ?case by (simp add: wp_simps)
next
  case (Cons x xs)
  have step: "wp (f x) (\<lambda>_. I xs) E w"
    using Cons.prems(1,2) by blast
  show ?case
    using step
    by (simp only: forE.simps wp_tryE id_apply)
      (erule wp_mono, rule Cons.IH, auto intro: Cons.prems suffix_ConsI)
qed

section \<open>Preserved predicates\<close>

lemma keepsI: "(\<And>w. I w \<Longrightarrow> I (snd (m w))) \<Longrightarrow> keeps I m"
  by (simp add: keeps_def)

lemma keepsD: "keeps I m \<Longrightarrow> I w \<Longrightarrow> m w = (r, w') \<Longrightarrow> I w'"
  by (metis keeps_def snd_conv)

lemma keeps_ret [keeps_intros]: "keeps I (ret a)"
  by (simp add: keeps_def ret_def)

lemma keeps_fail [keeps_intros]: "keeps I (fail e)"
  by (simp add: keeps_def fail_def)

lemma keeps_panic [keeps_intros]: "keeps I (panic e)"
  by (simp add: keeps_def panic_def)

lemma keeps_tryE [keeps_intros]: "keeps I m \<Longrightarrow> (\<And>a. keeps I (k a)) \<Longrightarrow> keeps I (tryE m h k)"
  by (fastforce simp: keeps_def tryE_def split: res.splits prod.splits)

lemma keeps_attempt [keeps_intros]: "keeps I m \<Longrightarrow> (\<And>r. keeps I (k r)) \<Longrightarrow> keeps I (attempt m k)"
  by (fastforce simp: keeps_def attempt_def split: res.splits prod.splits)

lemma keeps_if [keeps_intros]: "(c \<Longrightarrow> keeps I m) \<Longrightarrow> (\<not> c \<Longrightarrow> keeps I n) \<Longrightarrow> keeps I (if c then m else n)"
  by simp

lemma keeps_case_option [keeps_intros]:
  "keeps I m \<Longrightarrow> (\<And>a. keeps I (k a)) \<Longrightarrow> keeps I (case x of None \<Rightarrow> m | Some a \<Rightarrow> k a)"
  by (cases x) simp_all

lemma keeps_case_sum [keeps_intros]:
  "(\<And>e. keeps I (m e)) \<Longrightarrow> (\<And>a. keeps I (k a)) \<Longrightarrow> keeps I (case x of Inl e \<Rightarrow> m e | Inr a \<Rightarrow> k a)"
  by (cases x) simp_all

lemma keeps_forE [keeps_intros]: "(\<And>x. x \<in> set xs \<Longrightarrow> keeps I (f x)) \<Longrightarrow> keeps I (forE f xs)"
  by (induction xs) (simp_all add: keeps_intros)

lemma keeps_collectE [keeps_intros]:
  "(\<And>x. x \<in> set xs \<Longrightarrow> keeps I (f x)) \<Longrightarrow> keeps I (collectE f xs)"
  by (induction xs) (simp_all add: keeps_intros)

section \<open>Association lists\<close>

lemma map_of_update [simp]: "map_of (AList.update k v m) = (map_of m)(k \<mapsto> v)"
  by (rule AList.update_conv')

lemma distinct_keys_update [simp]:
  "distinct (map fst m) \<Longrightarrow> distinct (map fst (AList.update k v m))"
  by (rule distinct_update)

lemma map_of_distinct_delete [simp]: "map_of (AList.delete k m) = (map_of m)(k := None)"
  by (rule AList.delete_conv')

end
