(* ===== verification/GoStd.thy ===== *)
theory GoStd
  imports Prelude
begin

text \<open>
  What the manager uses of Go's standard library: package \<open>strings\<close> (a Go string is the
  list of its bytes; white space and letters are the ASCII ones), \<open>path/filepath\<close>
  (\<open>Join\<close> and \<open>Clean\<close> on slash-separated paths) and \<open>strconv\<close> (decimal 64-bit
  integers).  The lemmas say that a path built by \<open>Join\<close> from well-formed components is
  the slash-separated path of the components, that such paths determine their components,
  and that \<open>ParseInt\<close> reads back what \<open>FormatInt\<close> writes.
\<close>

section \<open>Package strings\<close>

definition HasPrefix :: "string \<Rightarrow> string \<Rightarrow> bool" where
  "HasPrefix s p = prefix p s"

definition TrimPrefix :: "string \<Rightarrow> string \<Rightarrow> string" where
  "TrimPrefix s p = (if HasPrefix s p then drop (length p) s else s)"

definition TrimSuffix :: "string \<Rightarrow> string \<Rightarrow> string" where
  "TrimSuffix s t = (if suffix t s then take (length s - length t) s else s)"

fun split_by :: "(char \<Rightarrow> bool) \<Rightarrow> string \<Rightarrow> string list" where
  "split_by P [] = [[]]"
| "split_by P (x # xs) =
     (if P x then [] # split_by P xs
      else (case split_by P xs of [] \<Rightarrow> [[x]] | y # ys \<Rightarrow> (x # y) # ys))"

definition Split :: "string \<Rightarrow> char \<Rightarrow> string list" where
  "Split s c = split_by (\<lambda>x. x = c) s"

fun join :: "string \<Rightarrow> string list \<Rightarrow> string" where
  "join sep [] = []"
| "join sep [x] = x"
| "join sep (x # y # ys) = x @ sep @ join sep (y # ys)"

definition isSpace :: "char \<Rightarrow> bool" where
  "isSpace c \<longleftrightarrow> c = CHR '' '' \<or> c = CHR 0x09 \<or> c = CHR 0x0A \<or> c = CHR 0x0B \<or> c = CHR 0x0C \<or> c = CHR 0x0D"

definition Fields :: "string \<Rightarrow> string list" where
  "Fields s = filter (\<lambda>f. f \<noteq> []) (split_by isSpace s)"

definition TrimSpace :: "string \<Rightarrow> string" where
  "TrimSpace s = rev (dropWhile isSpace (rev (dropWhile isSpace s)))"

definition TrimLeft :: "string \<Rightarrow> char \<Rightarrow> string" where
  "TrimLeft s c = dropWhile (\<lambda>x. x = c) s"

definition Count :: "string \<Rightarrow> char \<Rightarrow> nat" where
  "Count s c = count_list s c"

section \<open>Package path/filepath\<close>

definition clean_step :: "bool \<Rightarrow> string list \<Rightarrow> string \<Rightarrow> string list" where
  "clean_step rooted st c =
     (if c = [] \<or> c = ''.'' then st
      else if c = ''..'' then
        (case st of
           [] \<Rightarrow> if rooted then [] else [c]
         | t # ts \<Rightarrow> if t = ''..'' then c # st else ts)
      else c # st)"

definition filepath_Clean :: "string \<Rightarrow> string" where
  "filepath_Clean p =
     (let rooted = HasPrefix p ''/'';
          st = foldl (clean_step rooted) [] (Split p (CHR ''/''));
          out = (if rooted then ''/'' else []) @ join ''/'' (rev st)
      in if out = [] then ''.'' else out)"

definition filepath_Join :: "string \<Rightarrow> string \<Rightarrow> string" where
  "filepath_Join a b =
     (if a \<noteq> [] then filepath_Clean (a @ ''/'' @ b)
      else if b \<noteq> [] then filepath_Clean b
      else [])"

text \<open>The slash-separated absolute path of a list of components, and the components that
  \<open>Clean\<close> leaves alone.\<close>

definition path :: "string list \<Rightarrow> string" where
  "path cs = concat (map (\<lambda>c. CHR ''/'' # c) cs)"

definition good_comp :: "string \<Rightarrow> bool" where
  "good_comp c \<longleftrightarrow> c \<noteq> [] \<and> CHR ''/'' \<notin> set c \<and> c \<noteq> ''.'' \<and> c \<noteq> ''..''"

section \<open>Package strconv\<close>

definition digit :: "nat \<Rightarrow> char" where
  "digit n = char_of (48 + n)"

fun nat_str :: "nat \<Rightarrow> string" where
  "nat_str n = (if n < 10 then [digit n] else nat_str (n div 10) @ [digit (n mod 10)])"

declare nat_str.simps [simp del]

definition FormatInt :: "int \<Rightarrow> string" where
  "FormatInt i = (if i < 0 then CHR ''-'' # nat_str (nat (- i)) else nat_str (nat i))"

definition is_digit :: "char \<Rightarrow> bool" where
  "is_digit c \<longleftrightarrow> 48 \<le> (of_char c :: nat) \<and> (of_char c :: nat) \<le> 57"

fun digits_val :: "nat \<Rightarrow> string \<Rightarrow> nat option" where
  "digits_val acc [] = Some acc"
| "digits_val acc (c # cs) =
     (if is_digit c then digits_val (10 * acc + (of_char c - 48)) cs else None)"

definition ParseInt :: "string \<Rightarrow> gerr + int" where
  "ParseInt s =
     (let neg = HasPrefix s ''-'';
          ds = (if neg \<or> HasPrefix s ''+'' then tl s else s)
      in if ds = [] then Inl (Ext ''invalid syntax'')
         else (case digits_val 0 ds of
             None \<Rightarrow> Inl (Ext ''invalid syntax'')
           | Some n \<Rightarrow>
               (let i = (if neg then - int n else int n)
                in if - (2 ^ 63) \<le> i \<and> i < 2 ^ 63 then Inr i
                   else Inl (Ext ''value out of range''))))"

section \<open>Lemmas on strings\<close>

lemma HasPrefix_append [simp]: "HasPrefix (p @ s) p"
  by (simp add: HasPrefix_def)

lemma TrimPrefix_append [simp]: "TrimPrefix (p @ s) p = s"
  by (simp add: TrimPrefix_def)

lemma TrimSuffix_append [simp]: "TrimSuffix (s @ t) t = s"
  by (simp add: TrimSuffix_def suffix_def)

lemma split_by_not_Nil [simp]: "split_by P s \<noteq> []"
  by (induction s) (auto split: list.splits)

lemma split_by_id: "(\<forall>x \<in> set s. \<not> P x) \<Longrightarrow> split_by P s = [s]"
  by (induction s) auto

lemma split_by_sep:
  "(\<forall>x \<in> set s. \<not> P x) \<Longrightarrow> P c \<Longrightarrow> split_by P (s @ c # t) = s # split_by P t"
  by (induction s) auto

lemma Split_sep: "c \<notin> set s \<Longrightarrow> Split (s @ c # t) c = s # Split t c"
  unfolding Split_def by (rule split_by_sep) auto

lemma Split_id: "c \<notin> set s \<Longrightarrow> Split s c = [s]"
  unfolding Split_def by (rule split_by_id) auto

lemma Split_Cons_sep [simp]: "Split (c # s) c = [] # Split s c"
  by (simp add: Split_def)

section \<open>Lemmas on paths\<close>

lemma path_simps:
  "path [] = []"
  "path (c # cs) = CHR ''/'' # c @ path cs"
  "path (cs @ ds) = path cs @ path ds"
  by (simp_all add: path_def)

lemma good_comp_literals [simp]:
  "good_comp ''hosts''" "good_comp ''settings''" "good_comp ''volumes''" "good_comp ''base''"
  "good_comp ''instances''" "good_comp ''controller''" "good_comp ''replicas''"
  by (simp_all add: good_comp_def)

lemma good_comp_noslash: "good_comp c \<Longrightarrow> CHR ''/'' \<notin> set c"
  by (simp add: good_comp_def)

lemma Split_path:
  assumes "\<forall>c \<in> set cs. CHR ''/'' \<notin> set c"
  shows "Split (path cs) (CHR ''/'') = [] # cs"
  using assms
proof (induction cs)
  case Nil
  then show ?case by (simp add: Split_def path_simps)
next
  case (Cons c cs)
  have c: "CHR ''/'' \<notin> set c" and IH: "Split (path cs) (CHR ''/'') = [] # cs"
    using Cons by auto
  show ?case
  proof (cases cs)
    case Nil
    with c show ?thesis by (simp add: Split_id path_simps)
  next
    case (Cons d ds)
    with c IH show ?thesis by (simp add: Split_sep path_simps)
  qed
qed

lemma clean_step_good [simp]: "good_comp c \<Longrightarrow> clean_step r st c = c # st"
  by (simp add: clean_step_def good_comp_def)

lemma foldl_clean_good:
  "(\<forall>c \<in> set cs. good_comp c) \<Longrightarrow> foldl (clean_step r) st cs = rev cs @ st"
  by (induction cs arbitrary: st) auto

lemma join_path: "cs \<noteq> [] \<Longrightarrow> CHR ''/'' # join ''/'' cs = path cs"
  by (induction cs rule: induct_list012) (auto simp: path_simps)

lemma Clean_path:
  assumes "cs \<noteq> []" and "\<forall>c \<in> set cs. good_comp c"
  shows "filepath_Clean (path cs) = path cs"
proof -
  have "Split (path cs) (CHR ''/'') = [] # cs"
    using assms by (intro Split_path) (auto simp: good_comp_def)
  moreover have "HasPrefix (path cs) ''/''"
    using assms by (cases cs) (simp_all add: HasPrefix_def path_simps)
  moreover have "clean_step r st [] = st" for r st
    by (simp add: clean_step_def)
  ultimately show ?thesis
    using assms join_path [of cs]
    by (simp add: filepath_Clean_def foldl_clean_good Let_def)
qed

lemma Join_path [simp]:
  assumes "cs \<noteq> []" and "\<forall>c \<in> set cs. good_comp c" and "good_comp d"
  shows "filepath_Join (path cs) d = path (cs @ [d])"
proof -
  have "path cs \<noteq> []" using assms(1) by (cases cs) (simp_all add: path_simps)
  moreover have "filepath_Clean (path (cs @ [d])) = path (cs @ [d])"
    using assms by (intro Clean_path) auto
  ultimately show ?thesis by (simp add: filepath_Join_def path_simps)
qed

text \<open>Joining the empty name to a path: the slash that \<open>Join\<close> appends is cleaned away.\<close>

lemma Join_path_Nil [simp]:
  assumes "cs \<noteq> []" and "\<forall>c \<in> set cs. good_comp c"
  shows "filepath_Join (path cs) [] = path cs"
proof -
  have ne: "path cs \<noteq> []" using assms(1) by (cases cs) (simp_all add: path_simps)
  have "Split (path (cs @ [[]])) (CHR ''/'') = [] # cs @ [[]]"
    using assms by (intro Split_path) (auto simp: good_comp_def)
  moreover have "HasPrefix (path (cs @ [[]])) ''/''"
    using assms by (cases cs) (simp_all add: HasPrefix_def path_simps)
  moreover have "clean_step r st [] = st" for r st
    by (simp add: clean_step_def)
  ultimately have "filepath_Clean (path (cs @ [[]])) = path cs"
    using assms join_path [of cs] by (simp add: filepath_Clean_def foldl_clean_good Let_def)
  then show ?thesis using ne by (simp add: filepath_Join_def path_simps)
qed

lemma path_inject:
  assumes "\<forall>c \<in> set cs. CHR ''/'' \<notin> set c" and "\<forall>d \<in> set ds. CHR ''/'' \<notin> set d"
  shows "path cs = path ds \<longleftrightarrow> cs = ds"
proof
  assume "path cs = path ds"
  then have "[] # cs = [] # ds"
    using assms Split_path by metis
  then show "cs = ds" by simp
qed simp

lemma prefix_path_noslash:
  assumes "CHR ''/'' \<notin> set c" and "CHR ''/'' \<notin> set d"
    and "prefix (c @ path cs) (d @ path ds)" and "cs \<noteq> []"
  shows "c = d \<and> prefix (path cs) (path ds)"
  using assms
proof (induction c arbitrary: d)
  case Nil
  from Nil.prems(4) obtain e es where "cs = e # es" by (cases cs) auto
  with Nil.prems show ?case by (cases d) (auto simp: path_simps)
next
  case (Cons a c)
  then show ?case
  proof (cases d)
    case Nil
    with Cons.prems show ?thesis by (cases ds) (auto simp: path_simps)
  next
    case (Cons b d')
    with \<open>prefix ((a # c) @ path cs) (d @ path ds)\<close> Cons.prems(1,2,4) Cons.IH [of d']
    show ?thesis by auto
  qed
qed

section \<open>Lemmas on integers\<close>

lemma of_char_digit: "n < 10 \<Longrightarrow> (of_char (digit n) :: nat) = 48 + n"
  by (simp add: digit_def)

lemma is_digit_digit: "n < 10 \<Longrightarrow> is_digit (digit n)"
  by (simp add: is_digit_def of_char_digit)

lemma digits_val_append:
  "digits_val a (s @ t) = Option.bind (digits_val a s) (\<lambda>b. digits_val b t)"
  by (induction s arbitrary: a) auto

lemma digits_val_nat_str: "digits_val 0 (nat_str n) = Some n"
proof (induction n rule: nat_str.induct)
  case (1 n)
  show ?case
  proof (cases "n < 10")
    case True
    then show ?thesis
      by (simp add: nat_str.simps [of n] is_digit_digit of_char_digit)
  next
    case False
    with "1.IH" show ?thesis
      by (simp add: nat_str.simps [of n] digits_val_append is_digit_digit of_char_digit)
  qed
qed

lemma nat_str_not_Nil [simp]: "nat_str n \<noteq> []"
  by (subst nat_str.simps) simp

lemma is_digit_hd_nat_str: "is_digit (hd (nat_str n))"
proof (induction n rule: nat_str.induct)
  case (1 n)
  then show ?case
    by (subst nat_str.simps) (simp add: is_digit_digit)
qed

lemma nat_str_no_sign: "\<not> HasPrefix (nat_str n) ''-''" "\<not> HasPrefix (nat_str n) ''+''"
  using is_digit_hd_nat_str [of n]
  by (cases "nat_str n"; auto simp: HasPrefix_def is_digit_def)+

lemma ParseInt_FormatInt:
  assumes "- (2 ^ 63) \<le> i" and "i < 2 ^ 63"
  shows "ParseInt (FormatInt i) = Inr i"
  using assms
  by (auto simp: ParseInt_def FormatInt_def digits_val_nat_str nat_str_no_sign
      nat_str_no_sign [unfolded HasPrefix_def] HasPrefix_def Let_def)

lemma TrimLeft_path:
  assumes "good_comp d" shows "TrimLeft (path (d # ds)) (CHR ''/'') = d @ path ds"
  using assms by (cases d) (auto simp: TrimLeft_def path_simps good_comp_def)

lemma Split_TrimLeft_path:
  assumes "\<forall>c \<in> set ds. good_comp c" and "ds \<noteq> []"
  shows "Split (TrimLeft (path ds) (CHR ''/'')) (CHR ''/'') = ds"
proof -
  obtain d ds' where ds: "ds = d # ds'" using assms(2) by (cases ds) auto
  have "Split (path ds) (CHR ''/'') = [] # ds"
    using assms by (intro Split_path) (auto simp: good_comp_def)
  then have "Split (d @ path ds') (CHR ''/'') = ds" using ds by (simp add: path_simps)
  with assms(1) ds show ?thesis by (simp add: TrimLeft_path)
qed

end
