(* ===== verification/Json.thy ===== *)
theory Json
  imports GoStd
begin

text \<open>
  Package \<open>encoding/json\<close>, at the level of documents: a JSON text is represented by its
  syntax tree, and strings are valid UTF-8.  The decoders follow \<open>json.Unmarshal\<close> into a
  zeroed struct: a member that is missing or null leaves the zero value, a member of the
  wrong kind is an error, an unknown member is ignored.  The documents the manager decodes
  are those it or another manager encoded, whose member names are exact and distinct.
\<close>

datatype json =
    JNull
  | JBool bool
  | JNum int
  | JStr string
  | JArr "json list"
  | JObj "(string \<times> json) list"

type_synonym int64 = "64 word"

definition get_string :: "(string \<times> json) list \<Rightarrow> string \<Rightarrow> string option" where
  "get_string ms k = (case map_of ms k of
      None \<Rightarrow> Some []
    | Some JNull \<Rightarrow> Some []
    | Some (JStr s) \<Rightarrow> Some s
    | Some _ \<Rightarrow> None)"

definition get_bool :: "(string \<times> json) list \<Rightarrow> string \<Rightarrow> bool option" where
  "get_bool ms k = (case map_of ms k of
      None \<Rightarrow> Some False
    | Some JNull \<Rightarrow> Some False
    | Some (JBool b) \<Rightarrow> Some b
    | Some _ \<Rightarrow> None)"

text \<open>An integer member must fit the 64 bits of \<open>int64\<close> or \<open>int\<close>.\<close>

definition get_int :: "(string \<times> json) list \<Rightarrow> string \<Rightarrow> int option" where
  "get_int ms k = (case map_of ms k of
      None \<Rightarrow> Some 0
    | Some JNull \<Rightarrow> Some 0
    | Some (JNum i) \<Rightarrow> if - (2 ^ 63) \<le> i \<and> i < 2 ^ 63 then Some i else None
    | Some _ \<Rightarrow> None)"

definition get_int64 :: "(string \<times> json) list \<Rightarrow> string \<Rightarrow> int64 option" where
  "get_int64 ms k = map_option word_of_int (get_int ms k)"

text \<open>A pointer, a slice of pointers and a map of pointers: null and missing are nil.\<close>

definition get_ptr :: "(json \<Rightarrow> 'a option) \<Rightarrow> (string \<times> json) list \<Rightarrow> string \<Rightarrow> 'a option option" where
  "get_ptr dec ms k = (case map_of ms k of
      None \<Rightarrow> Some None
    | Some JNull \<Rightarrow> Some None
    | Some j \<Rightarrow> map_option Some (dec j))"

definition dec_slice :: "(json \<Rightarrow> 'a option) \<Rightarrow> json \<Rightarrow> 'a list option" where
  "dec_slice dec j = (case j of JArr js \<Rightarrow> those (map dec js) | _ \<Rightarrow> None)"

definition dec_map :: "(json \<Rightarrow> 'a option) \<Rightarrow> json \<Rightarrow> 'a gomap option" where
  "dec_map dec j = (case j of
      JObj ms \<Rightarrow> those (map (\<lambda>(k, m). map_option (Pair k) (dec m)) ms)
    | _ \<Rightarrow> None)"

definition enc_ptr :: "('a \<Rightarrow> json) \<Rightarrow> 'a option \<Rightarrow> json" where
  "enc_ptr enc x = (case x of None \<Rightarrow> JNull | Some a \<Rightarrow> enc a)"

definition enc_slice :: "('a \<Rightarrow> json) \<Rightarrow> 'a list \<Rightarrow> json" where
  "enc_slice enc xs = JArr (map enc xs)"

definition enc_map :: "('a \<Rightarrow> json) \<Rightarrow> 'a gomap \<Rightarrow> json" where
  "enc_map enc m = JObj (map (\<lambda>(k, v). (k, enc v)) m)"

text \<open>The \<open>omitempty\<close> option drops a member that has its zero value.\<close>

definition omit_string :: "string \<Rightarrow> string \<Rightarrow> (string \<times> json) list" where
  "omit_string k s = (if s = [] then [] else [(k, JStr s)])"

definition omit_int :: "string \<Rightarrow> int \<Rightarrow> (string \<times> json) list" where
  "omit_int k i = (if i = 0 then [] else [(k, JNum i)])"

definition unmarshal :: "(json \<Rightarrow> 'a option) \<Rightarrow> json \<Rightarrow> ('w, 'a) op" where
  "unmarshal dec j = (case dec j of
      None \<Rightarrow> fail (Wrap (Ext ''json'') ''fail to unmarshal json'')
    | Some a \<Rightarrow> ret a)"

section \<open>Reading back\<close>

named_theorems json_simps "decoding what was encoded"

lemma get_string_Cons [json_simps]:
  "get_string ((k, JStr s) # ms) k = Some s"
  "k \<noteq> k' \<Longrightarrow> get_string ((k, j) # ms) k' = get_string ms k'"
  "get_string [] k = Some []"
  by (simp_all add: get_string_def)

lemma get_bool_Cons [json_simps]:
  "get_bool ((k, JBool b) # ms) k = Some b"
  "k \<noteq> k' \<Longrightarrow> get_bool ((k, j) # ms) k' = get_bool ms k'"
  by (simp_all add: get_bool_def)

lemma get_int_Cons [json_simps]:
  "- (2 ^ 63) \<le> i \<Longrightarrow> i < 2 ^ 63 \<Longrightarrow> get_int ((k, JNum i) # ms) k = Some i"
  "k \<noteq> k' \<Longrightarrow> get_int ((k, j) # ms) k' = get_int ms k'"
  "get_int [] k = Some 0"
  by (simp_all add: get_int_def)

lemma sint64_bounds: "- (2 ^ 63) \<le> sint (x :: int64)" "sint (x :: int64) < 2 ^ 63"
  using sint_greater_eq [of x] sint_less [of x] by simp_all

lemma get_int64_Cons [json_simps]:
  "get_int64 ((k, JNum (sint x)) # ms) k = Some x"
  "k \<noteq> k' \<Longrightarrow> get_int64 ((k, j) # ms) k' = get_int64 ms k'"
  using sint64_bounds [of x] by (simp_all add: get_int64_def get_int_def)

lemma get_ptr_Cons [json_simps]:
  "get_ptr dec ((k, JNull) # ms) k = Some None"
  "k \<noteq> k' \<Longrightarrow> get_ptr dec ((k, j) # ms) k' = get_ptr dec ms k'"
  by (simp_all add: get_ptr_def)

lemma get_ptr_enc:
  assumes "\<And>a. x = Some a \<Longrightarrow> dec (enc a) = Some a" and "\<And>a. enc a \<noteq> JNull"
  shows "get_ptr dec ((k, enc_ptr enc x) # ms) k = Some x"
  using assms by (cases x) (auto simp: get_ptr_def enc_ptr_def split: json.splits)

lemma those_map_Some: "(\<forall>x \<in> set xs. f x = Some (g x)) \<Longrightarrow> those (map f xs) = Some (map g xs)"
  by (induction xs) auto

lemma dec_slice_enc:
  "(\<forall>a \<in> set xs. dec (enc a) = Some a) \<Longrightarrow> dec_slice dec (enc_slice enc xs) = Some xs"
  using those_map_Some [of xs "\<lambda>a. dec (enc a)" id]
  by (simp add: dec_slice_def enc_slice_def o_def)

lemma dec_map_enc:
  "(\<forall>a \<in> snd ` set m. dec (enc a) = Some a) \<Longrightarrow> dec_map dec (enc_map enc m) = Some m"
  using those_map_Some [of m "\<lambda>(k, v). map_option (Pair k) (dec (enc v))" id]
  by (simp add: dec_map_def enc_map_def o_def case_prod_unfold)

lemma wp_unmarshal [wp_simps]:
  "wp (unmarshal dec j) Q E w = (case dec j of
      None \<Rightarrow> E (Wrap (Ext ''json'') ''fail to unmarshal json'') w
    | Some a \<Rightarrow> Q a w)"
  by (simp add: unmarshal_def wp_simps split: option.split)

lemma keeps_unmarshal [keeps_intros]: "keeps I (unmarshal dec j)"
  by (simp add: unmarshal_def keeps_intros split: option.split)

end
