(* ===== verification/Types.thy ===== *)
theory Types
  imports Json
begin

text \<open>
  The data model: the structs of \<open>types/types.go\<close> and \<open>types/schedule.go\<close> as records, one
  field per Go field in the source's order.  A pointer, a slice and a map that may be nil
  are options; an embedded struct is a field.  For the structs that are stored or sent, the
  JSON document \<open>json.Marshal\<close> writes (\<open>enc_\<close>) and how \<open>json.Unmarshal\<close> reads it
  (\<open>dec_\<close>); the lemmas show that reading inverts writing.
\<close>

section \<open>Constants\<close>

abbreviation (input) VolumeStateNone :: string where "VolumeStateNone \<equiv> []"
abbreviation VolumeStateCreated :: string where "VolumeStateCreated \<equiv> ''created''"
abbreviation VolumeStateDetached :: string where "VolumeStateDetached \<equiv> ''detached''"
abbreviation VolumeStateFaulted :: string where "VolumeStateFaulted \<equiv> ''faulted''"
abbreviation VolumeStateHealthy :: string where "VolumeStateHealthy \<equiv> ''healthy''"
abbreviation VolumeStateDegraded :: string where "VolumeStateDegraded \<equiv> ''degraded''"

abbreviation ReplicaModeRW :: string where "ReplicaModeRW \<equiv> ''RW''"
abbreviation ReplicaModeWO :: string where "ReplicaModeWO \<equiv> ''WO''"
abbreviation ReplicaModeERR :: string where "ReplicaModeERR \<equiv> ''ERR''"

abbreviation (input) InstanceTypeNone :: string where "InstanceTypeNone \<equiv> []"
abbreviation InstanceTypeController :: string where "InstanceTypeController \<equiv> ''controller''"
abbreviation InstanceTypeReplica :: string where "InstanceTypeReplica \<equiv> ''replica''"

abbreviation ScheduleActionCreateController :: string where
  "ScheduleActionCreateController \<equiv> ''create-controller''"
abbreviation ScheduleActionCreateReplica :: string where
  "ScheduleActionCreateReplica \<equiv> ''create-replica''"
abbreviation ScheduleActionDeleteInstance :: string where
  "ScheduleActionDeleteInstance \<equiv> ''delete''"
abbreviation ScheduleActionStartInstance :: string where
  "ScheduleActionStartInstance \<equiv> ''start''"
abbreviation ScheduleActionStopInstance :: string where
  "ScheduleActionStopInstance \<equiv> ''stop''"
abbreviation SchedulePolicyBindingSoftAntiAffinity :: string where
  "SchedulePolicyBindingSoftAntiAffinity \<equiv> ''soft.anti-affinity''"

section \<open>types.go\<close>

record SettingsInfo =
  s_BackupTarget :: string
  s_EngineImage :: string

record InstanceInfo =
  i_ID :: string
  i_Type :: string
  i_Name :: string
  i_HostID :: string
  i_Address :: string
  i_Running :: bool
  i_VolumeName :: string

record ControllerInfo =
  c_InstanceInfo :: InstanceInfo

record ReplicaInfo =
  r_InstanceInfo :: InstanceInfo
  r_Mode :: string
  r_BadTimestamp :: string

record RecurringJob =
  j_Name :: string
  j_Cron :: string
  j_Task :: string
  j_Retain :: int

record VolumeInfo =
  v_Name :: string
  v_Size :: int64
  v_BaseImage :: string
  v_FromBackup :: string
  v_NumberOfReplicas :: int
  v_StaleReplicaTimeout :: int64
  v_Controller :: "ControllerInfo option"
  v_Replicas :: "ReplicaInfo gomap option"
  v_State :: string
  v_EngineImage :: string
  v_Endpoint :: string
  v_Created :: string
  v_RecurringJobs :: "RecurringJob list option"

record SnapshotInfo =
  sn_Name :: string
  sn_Parent :: string
  sn_Children :: "string list"
  sn_Removed :: bool
  sn_UserCreated :: bool
  sn_Created :: string
  sn_Size :: string
  sn_Labels :: "string gomap"

record HostInfo =
  h_UUID :: string
  h_Name :: string
  h_Address :: string

record BackupInfo =
  bk_Name :: string
  bk_URL :: string
  bk_SnapshotName :: string
  bk_SnapshotCreated :: string
  bk_Created :: string
  bk_Size :: string
  bk_VolumeName :: string
  bk_VolumeSize :: string
  bk_VolumeCreated :: string

section \<open>schedule.go\<close>

record ScheduleInstance =
  si_ID :: string
  si_Type :: string
  si_HostID :: string
  si_VolumeName :: string
  si_Name :: string

record ScheduleSpec =
  ss_HostID :: string

text \<open>\<open>Data\<close> is a byte slice that is empty or holds a JSON document.\<close>

record ScheduleData =
  sd_Orchestrator :: string
  sd_Data :: "json option"

record ScheduleItem =
  it_Action :: string
  it_Instance :: ScheduleInstance
  it_Data :: ScheduleData

record SchedulePolicy =
  sp_Binding :: string
  sp_HostIDMap :: "unit gomap"

section \<open>Marshalling\<close>

definition enc_HostInfo :: "HostInfo \<Rightarrow> json" where
  "enc_HostInfo h = JObj [(''uuid'', JStr (h_UUID h)), (''name'', JStr (h_Name h)),
     (''address'', JStr (h_Address h))]"

definition dec_HostInfo :: "json \<Rightarrow> HostInfo option" where
  "dec_HostInfo j = (case j of
     JNull \<Rightarrow> Some \<lparr>h_UUID = [], h_Name = [], h_Address = []\<rparr>
   | JObj ms \<Rightarrow> do {
       u \<leftarrow> get_string ms ''uuid'';
       n \<leftarrow> get_string ms ''name'';
       a \<leftarrow> get_string ms ''address'';
       Some \<lparr>h_UUID = u, h_Name = n, h_Address = a\<rparr> }
   | _ \<Rightarrow> None)"

definition enc_SettingsInfo :: "SettingsInfo \<Rightarrow> json" where
  "enc_SettingsInfo s = JObj [(''backupTarget'', JStr (s_BackupTarget s)),
     (''engineImage'', JStr (s_EngineImage s))]"

text \<open>\<open>GetSettings\<close> decodes into a pointer to a pointer, which null sets to nil.\<close>

definition dec_SettingsInfo :: "json \<Rightarrow> SettingsInfo option option" where
  "dec_SettingsInfo j = (case j of
     JNull \<Rightarrow> Some None
   | JObj ms \<Rightarrow> do {
       b \<leftarrow> get_string ms ''backupTarget'';
       e \<leftarrow> get_string ms ''engineImage'';
       Some (Some \<lparr>s_BackupTarget = b, s_EngineImage = e\<rparr>) }
   | _ \<Rightarrow> None)"

definition instance_members :: "InstanceInfo \<Rightarrow> (string \<times> json) list" where
  "instance_members i = [(''ID'', JStr (i_ID i)), (''Type'', JStr (i_Type i)),
     (''Name'', JStr (i_Name i)), (''HostID'', JStr (i_HostID i)),
     (''Address'', JStr (i_Address i)), (''Running'', JBool (i_Running i)),
     (''VolumeName'', JStr (i_VolumeName i))]"

definition dec_instance_members :: "(string \<times> json) list \<Rightarrow> InstanceInfo option" where
  "dec_instance_members ms = do {
     d \<leftarrow> get_string ms ''ID'';
     t \<leftarrow> get_string ms ''Type'';
     n \<leftarrow> get_string ms ''Name'';
     h \<leftarrow> get_string ms ''HostID'';
     a \<leftarrow> get_string ms ''Address'';
     r \<leftarrow> get_bool ms ''Running'';
     v \<leftarrow> get_string ms ''VolumeName'';
     Some \<lparr>i_ID = d, i_Type = t, i_Name = n, i_HostID = h, i_Address = a, i_Running = r,
       i_VolumeName = v\<rparr> }"

definition zero_InstanceInfo :: InstanceInfo where
  "zero_InstanceInfo = \<lparr>i_ID = [], i_Type = [], i_Name = [], i_HostID = [], i_Address = [],
     i_Running = False, i_VolumeName = []\<rparr>"

definition enc_ControllerInfo :: "ControllerInfo \<Rightarrow> json" where
  "enc_ControllerInfo c = JObj (instance_members (c_InstanceInfo c))"

definition dec_ControllerInfo :: "json \<Rightarrow> ControllerInfo option" where
  "dec_ControllerInfo j = (case j of
     JNull \<Rightarrow> Some \<lparr>c_InstanceInfo = zero_InstanceInfo\<rparr>
   | JObj ms \<Rightarrow> do { i \<leftarrow> dec_instance_members ms; Some \<lparr>c_InstanceInfo = i\<rparr> }
   | _ \<Rightarrow> None)"

definition enc_ReplicaInfo :: "ReplicaInfo \<Rightarrow> json" where
  "enc_ReplicaInfo r = JObj (instance_members (r_InstanceInfo r) @
     [(''Mode'', JStr (r_Mode r)), (''BadTimestamp'', JStr (r_BadTimestamp r))])"

definition dec_ReplicaInfo :: "json \<Rightarrow> ReplicaInfo option" where
  "dec_ReplicaInfo j = (case j of
     JNull \<Rightarrow> Some \<lparr>r_InstanceInfo = zero_InstanceInfo, r_Mode = [], r_BadTimestamp = []\<rparr>
   | JObj ms \<Rightarrow> do {
       i \<leftarrow> dec_instance_members ms;
       m \<leftarrow> get_string ms ''Mode'';
       b \<leftarrow> get_string ms ''BadTimestamp'';
       Some \<lparr>r_InstanceInfo = i, r_Mode = m, r_BadTimestamp = b\<rparr> }
   | _ \<Rightarrow> None)"

definition enc_RecurringJob :: "RecurringJob \<Rightarrow> json" where
  "enc_RecurringJob r = JObj (omit_string ''name'' (j_Name r) @ omit_string ''cron'' (j_Cron r) @
     omit_string ''task'' (j_Task r) @ omit_int ''retain'' (j_Retain r))"

text \<open>The job lists hold jobs, not pointers to them: a null element of such a list, for which Go keeps a nil
  pointer, is read as the zero job.  The encoder never writes one.\<close>

definition dec_RecurringJob :: "json \<Rightarrow> RecurringJob option" where
  "dec_RecurringJob j = (case j of
     JNull \<Rightarrow> Some \<lparr>j_Name = [], j_Cron = [], j_Task = [], j_Retain = 0\<rparr>
   | JObj ms \<Rightarrow> do {
       n \<leftarrow> get_string ms ''name'';
       c \<leftarrow> get_string ms ''cron'';
       t \<leftarrow> get_string ms ''task'';
       r \<leftarrow> get_int ms ''retain'';
       Some \<lparr>j_Name = n, j_Cron = c, j_Task = t, j_Retain = r\<rparr> }
   | _ \<Rightarrow> None)"

definition enc_VolumeInfo :: "VolumeInfo \<Rightarrow> json" where
  "enc_VolumeInfo v = JObj
     [(''Name'', JStr (v_Name v)), (''Size'', JNum (sint (v_Size v))),
      (''BaseImage'', JStr (v_BaseImage v)), (''FromBackup'', JStr (v_FromBackup v)),
      (''NumberOfReplicas'', JNum (v_NumberOfReplicas v)),
      (''StaleReplicaTimeout'', JNum (sint (v_StaleReplicaTimeout v))),
      (''Controller'', enc_ptr enc_ControllerInfo (v_Controller v)),
      (''Replicas'', enc_ptr (enc_map enc_ReplicaInfo) (v_Replicas v)),
      (''State'', JStr (v_State v)), (''EngineImage'', JStr (v_EngineImage v)),
      (''Endpoint'', JStr (v_Endpoint v)), (''Created'', JStr (v_Created v)),
      (''RecurringJobs'', enc_ptr (enc_slice enc_RecurringJob) (v_RecurringJobs v))]"

definition dec_VolumeInfo :: "json \<Rightarrow> VolumeInfo option" where
  "dec_VolumeInfo j = (case (case j of JNull \<Rightarrow> Some [] | JObj ms \<Rightarrow> Some ms | _ \<Rightarrow> None) of
     None \<Rightarrow> None
   | Some ms \<Rightarrow> do {
       n \<leftarrow> get_string ms ''Name'';
       sz \<leftarrow> get_int64 ms ''Size'';
       bi \<leftarrow> get_string ms ''BaseImage'';
       fb \<leftarrow> get_string ms ''FromBackup'';
       nr \<leftarrow> get_int ms ''NumberOfReplicas'';
       st \<leftarrow> get_int64 ms ''StaleReplicaTimeout'';
       c \<leftarrow> get_ptr dec_ControllerInfo ms ''Controller'';
       rs \<leftarrow> get_ptr (dec_map dec_ReplicaInfo) ms ''Replicas'';
       s \<leftarrow> get_string ms ''State'';
       ei \<leftarrow> get_string ms ''EngineImage'';
       ep \<leftarrow> get_string ms ''Endpoint'';
       cr \<leftarrow> get_string ms ''Created'';
       js \<leftarrow> get_ptr (dec_slice dec_RecurringJob) ms ''RecurringJobs'';
       Some \<lparr>v_Name = n, v_Size = sz, v_BaseImage = bi, v_FromBackup = fb,
         v_NumberOfReplicas = nr, v_StaleReplicaTimeout = st, v_Controller = c,
         v_Replicas = rs, v_State = s, v_EngineImage = ei, v_Endpoint = ep, v_Created = cr,
         v_RecurringJobs = js\<rparr> })"

text \<open>The Go \<open>int\<close> fields hold 64-bit values.\<close>

definition int_ok :: "int \<Rightarrow> bool" where
  "int_ok i \<longleftrightarrow> - (2 ^ 63) \<le> i \<and> i < 2 ^ 63"

definition volume_ints_ok :: "VolumeInfo \<Rightarrow> bool" where
  "volume_ints_ok v \<longleftrightarrow> int_ok (v_NumberOfReplicas v) \<and>
     (\<forall>js. v_RecurringJobs v = Some js \<longrightarrow> (\<forall>j \<in> set js. int_ok (j_Retain j)))"

text \<open>Ranging over a nil map visits nothing.\<close>

definition replicas_of :: "VolumeInfo \<Rightarrow> ReplicaInfo gomap" where
  "replicas_of v = (case v_Replicas v of None \<Rightarrow> [] | Some m \<Rightarrow> m)"

section \<open>Reading inverts writing\<close>

lemma dec_enc_HostInfo [simp]: "dec_HostInfo (enc_HostInfo h) = Some h"
  by (simp add: dec_HostInfo_def enc_HostInfo_def json_simps)

lemma dec_enc_SettingsInfo [simp]: "dec_SettingsInfo (enc_SettingsInfo s) = Some (Some s)"
  by (simp add: dec_SettingsInfo_def enc_SettingsInfo_def json_simps)

lemma dec_instance_members_append [json_simps]:
  "dec_instance_members (instance_members i @ ms) = Some i"
  by (simp add: dec_instance_members_def instance_members_def json_simps)

lemma dec_enc_ControllerInfo [simp]: "dec_ControllerInfo (enc_ControllerInfo c) = Some c"
  using dec_instance_members_append [of _ "[]"]
  by (simp add: dec_ControllerInfo_def enc_ControllerInfo_def)

lemma dec_enc_ReplicaInfo [simp]: "dec_ReplicaInfo (enc_ReplicaInfo r) = Some r"
  by (simp add: dec_ReplicaInfo_def enc_ReplicaInfo_def json_simps)
    (simp add: instance_members_def json_simps)

lemma dec_enc_RecurringJob: "int_ok (j_Retain r) \<Longrightarrow> dec_RecurringJob (enc_RecurringJob r) = Some r"
  by (cases r) (simp add: dec_RecurringJob_def enc_RecurringJob_def omit_string_def omit_int_def
      json_simps int_ok_def)

lemma enc_not_JNull [simp]:
  "enc_ControllerInfo c \<noteq> JNull" "enc_map enc m \<noteq> JNull" "enc_slice enc xs \<noteq> JNull"
  by (simp_all add: enc_ControllerInfo_def enc_map_def enc_slice_def)

lemma dec_enc_VolumeInfo:
  assumes "volume_ints_ok v"
  shows "dec_VolumeInfo (enc_VolumeInfo v) = Some v"
proof -
  have nr: "- (2 ^ 63) \<le> v_NumberOfReplicas v" "v_NumberOfReplicas v < 2 ^ 63"
    using assms by (simp_all add: volume_ints_ok_def int_ok_def)
  have c: "get_ptr dec_ControllerInfo ((k, enc_ptr enc_ControllerInfo (v_Controller v)) # ms) k
      = Some (v_Controller v)" for k ms
    by (rule get_ptr_enc) simp_all
  have rs: "get_ptr (dec_map dec_ReplicaInfo)
      ((k, enc_ptr (enc_map enc_ReplicaInfo) (v_Replicas v)) # ms) k = Some (v_Replicas v)" for k ms
    by (rule get_ptr_enc) (simp_all add: dec_map_enc)
  have js: "get_ptr (dec_slice dec_RecurringJob)
      ((k, enc_ptr (enc_slice enc_RecurringJob) (v_RecurringJobs v)) # ms) k
      = Some (v_RecurringJobs v)" for k ms
    using assms
    by (intro get_ptr_enc) (auto simp: volume_ints_ok_def intro!: dec_slice_enc dec_enc_RecurringJob)
  show ?thesis
    by (simp add: dec_VolumeInfo_def enc_VolumeInfo_def json_simps nr [simplified] c rs js)
qed

lemma get_int_ok: "get_int ms k = Some i \<Longrightarrow> int_ok i"
  by (auto simp: get_int_def int_ok_def split: option.splits json.splits if_splits)

lemma those_member: "those xs = Some ys \<Longrightarrow> y \<in> set ys \<Longrightarrow> Some y \<in> set xs"
  by (induction xs arbitrary: ys) (auto split: option.splits)

lemma dec_RecurringJob_ints: "dec_RecurringJob j = Some r \<Longrightarrow> int_ok (j_Retain r)"
  by (auto simp: dec_RecurringJob_def bind_eq_Some_conv int_ok_def split: json.splits dest: get_int_ok)

lemma dec_VolumeInfo_ints:
  assumes "dec_VolumeInfo j = Some v"
  shows "volume_ints_ok v"
proof -
  obtain ms where nr: "get_int ms ''NumberOfReplicas'' = Some (v_NumberOfReplicas v)"
      and js: "get_ptr (dec_slice dec_RecurringJob) ms ''RecurringJobs'' = Some (v_RecurringJobs v)"
    using assms by (auto simp: dec_VolumeInfo_def bind_eq_Some_conv split: option.splits)
  have "int_ok (j_Retain x)" if "v_RecurringJobs v = Some xs" "x \<in> set xs" for xs x
    using js that by (auto simp: get_ptr_def dec_slice_def split: option.splits json.splits
        dest!: those_member intro: dec_RecurringJob_ints [OF sym])
  then show ?thesis using get_int_ok [OF nr] by (auto simp: volume_ints_ok_def)
qed

end
