(* ===== verification/KVStore.thy ===== *)
theory KVStore
  imports Types
begin

text \<open>
  Package \<open>kvstore\<close>: the \<open>Backend\<close> interface as a record of operations, and the
  \<open>KVStore\<close> on top of it (\<open>kvstore.go\<close> and \<open>volume.go\<close>), which lays out hosts, settings,
  volumes, controllers and replicas under slash-separated keys.  \<open>Backend.Get\<close> decodes
  into the caller's object; the record's \<open>b_Get\<close> returns the document and \<open>kv_Get\<close>
  decodes it, as both backends do last.
\<close>

section \<open>kvstore.go\<close>

record 'w Backend =
  b_Set :: "string \<Rightarrow> json \<Rightarrow> ('w, unit) op"
  b_Get :: "string \<Rightarrow> ('w, json) op"
  b_Delete :: "string \<Rightarrow> ('w, unit) op"
  b_Keys :: "string \<Rightarrow> ('w, string list) op"
  b_IsNotFoundError :: "gerr \<Rightarrow> bool"

record 'w KVStore =
  kv_Prefix :: string
  kv_b :: "'w Backend"

definition NewKVStore :: "string \<Rightarrow> 'w Backend option \<Rightarrow> gerr + 'w KVStore" where
  "NewKVStore pfx backend = (case backend of
      None \<Rightarrow> Inl (Errorf ''invalid empty backend'')
    | Some b \<Rightarrow> Inr \<lparr>kv_Prefix = pfx, kv_b = b\<rparr>)"

definition kv_Get :: "'w KVStore \<Rightarrow> string \<Rightarrow> (json \<Rightarrow> 'a option) \<Rightarrow> ('w, 'a) op" where
  "kv_Get s k dec = tryE (b_Get (kv_b s) k) id (unmarshal dec)"

text \<open>The reading idiom of the store: a missing key is nil, not an error.\<close>

definition getByKey :: "'w KVStore \<Rightarrow> string \<Rightarrow> (json \<Rightarrow> 'a option) \<Rightarrow> ('w, 'a option) op" where
  "getByKey s k dec = attempt (kv_Get s k dec) (\<lambda>r. case r of
      Inl e \<Rightarrow> if b_IsNotFoundError (kv_b s) e then ret None else fail e
    | Inr a \<Rightarrow> ret (Some a))"

definition kv_key :: "'w KVStore \<Rightarrow> string \<Rightarrow> string" where
  "kv_key s k = filepath_Join (kv_Prefix s) k"

definition hostKey :: "'w KVStore \<Rightarrow> string \<Rightarrow> string" where
  "hostKey s i = filepath_Join (kv_key s ''hosts'') i"

definition SetHost :: "'w KVStore \<Rightarrow> HostInfo \<Rightarrow> ('w, unit) op" where
  "SetHost s host = tryE (b_Set (kv_b s) (hostKey s (h_UUID host)) (enc_HostInfo host)) id ret"

definition getHostByKey :: "'w KVStore \<Rightarrow> string \<Rightarrow> ('w, HostInfo option) op" where
  "getHostByKey s k = getByKey s k dec_HostInfo"

definition GetHost :: "'w KVStore \<Rightarrow> string \<Rightarrow> ('w, HostInfo option) op" where
  "GetHost s i = tryE (getHostByKey s (hostKey s i)) (wrap ''unable to get host'') ret"

fun ListHosts_loop :: "'w KVStore \<Rightarrow> string list \<Rightarrow> HostInfo gomap \<Rightarrow> ('w, HostInfo gomap) op" where
  "ListHosts_loop s [] hosts = ret hosts"
| "ListHosts_loop s (k # ks) hosts =
     tryE (getHostByKey s k) (wrap ''invalid key'') (\<lambda>h.
       ListHosts_loop s ks (case h of
           None \<Rightarrow> hosts
         | Some host \<Rightarrow> AList.update (h_UUID host) host hosts))"

definition ListHosts :: "'w KVStore \<Rightarrow> ('w, HostInfo gomap) op" where
  "ListHosts s = tryE (b_Keys (kv_b s) (kv_key s ''hosts'')) id (\<lambda>hostKeys.
     ListHosts_loop s hostKeys [])"

definition settingsKey :: "'w KVStore \<Rightarrow> string" where
  "settingsKey s = kv_key s ''settings''"

definition SetSettings :: "'w KVStore \<Rightarrow> SettingsInfo \<Rightarrow> ('w, unit) op" where
  "SetSettings s settings = tryE (b_Set (kv_b s) (settingsKey s) (enc_SettingsInfo settings)) id ret"

definition GetSettings :: "'w KVStore \<Rightarrow> ('w, SettingsInfo option) op" where
  "GetSettings s = attempt (kv_Get s (settingsKey s) dec_SettingsInfo) (\<lambda>r. case r of
      Inl e \<Rightarrow> if b_IsNotFoundError (kv_b s) e then ret None
               else fail (wrap ''unable to get settings'' e)
    | Inr settings \<Rightarrow> ret settings)"

definition kvNuclear :: "'w KVStore \<Rightarrow> string \<Rightarrow> ('w, unit) op" where
  "kvNuclear s nuclearCode =
     (if nuclearCode \<noteq> ''nuke key value store'' then fail (Errorf ''invalid nuclear code!'')
      else tryE (b_Delete (kv_b s) (kv_key s [])) id ret)"

section \<open>volume.go\<close>

record VolumeKey =
  vk_rootKey :: string

definition volumeRootKey :: "'w KVStore \<Rightarrow> string \<Rightarrow> string" where
  "volumeRootKey s i = filepath_Join (kv_key s ''volumes'') i"

definition NewVolumeKeyFromName :: "'w KVStore \<Rightarrow> string \<Rightarrow> VolumeKey" where
  "NewVolumeKeyFromName s name = \<lparr>vk_rootKey = volumeRootKey s name\<rparr>"

definition NewVolumeKeyFromRootKey :: "string \<Rightarrow> VolumeKey" where
  "NewVolumeKeyFromRootKey rootKey = \<lparr>vk_rootKey = rootKey\<rparr>"

definition vk_Base :: "VolumeKey \<Rightarrow> string" where
  "vk_Base k = filepath_Join (vk_rootKey k) ''base''"

definition vk_Instances :: "VolumeKey \<Rightarrow> string" where
  "vk_Instances k = filepath_Join (vk_rootKey k) ''instances''"

definition vk_Controller :: "VolumeKey \<Rightarrow> string" where
  "vk_Controller k = filepath_Join (vk_Instances k) ''controller''"

definition vk_Replicas :: "VolumeKey \<Rightarrow> string" where
  "vk_Replicas k = filepath_Join (vk_Instances k) ''replicas''"

definition vk_Replica :: "VolumeKey \<Rightarrow> string \<Rightarrow> string" where
  "vk_Replica k replicaName = filepath_Join (vk_Replicas k) replicaName"

definition SetVolumeBase :: "'w KVStore \<Rightarrow> VolumeInfo \<Rightarrow> ('w, unit) op" where
  "SetVolumeBase s volume =
     (let volumeBase = volume\<lparr>v_Controller := None, v_Replicas := None\<rparr>
      in b_Set (kv_b s) (vk_Base (NewVolumeKeyFromName s (v_Name volume))) (enc_VolumeInfo volumeBase))"

definition SetVolumeController :: "'w KVStore \<Rightarrow> ControllerInfo \<Rightarrow> ('w, unit) op" where
  "SetVolumeController s c =
     (let vol = i_VolumeName (c_InstanceInfo c)
      in if vol = [] then fail (Errorf ''controller doesn't have valid volume name'')
         else b_Set (kv_b s) (vk_Controller (NewVolumeKeyFromName s vol)) (enc_ControllerInfo c))"

definition SetVolumeReplica :: "'w KVStore \<Rightarrow> ReplicaInfo \<Rightarrow> ('w, unit) op" where
  "SetVolumeReplica s r =
     (let vol = i_VolumeName (r_InstanceInfo r)
      in if vol = [] then fail (Errorf ''replica doesn't have valid volume name'')
         else b_Set (kv_b s) (vk_Replica (NewVolumeKeyFromName s vol) (i_Name (r_InstanceInfo r)))
                (enc_ReplicaInfo r))"

definition SetVolumeReplicas :: "'w KVStore \<Rightarrow> ReplicaInfo gomap \<Rightarrow> ('w, unit) op" where
  "SetVolumeReplicas s replicas =
     forE (\<lambda>(k, r). tryE (SetVolumeReplica s r) (wrap ''unable to set volume's replicas'') ret) replicas"

definition getVolumeBaseByKey :: "'w KVStore \<Rightarrow> string \<Rightarrow> ('w, VolumeInfo option) op" where
  "getVolumeBaseByKey s k = tryE (getByKey s k dec_VolumeInfo) id (\<lambda>r. case r of
      None \<Rightarrow> ret None
    | Some volume \<Rightarrow>
        if v_Controller volume \<noteq> None \<or> v_Replicas volume \<noteq> None
        then fail (Errorf ''BUG: volume base shouldn't have instances info'')
        else ret (Some volume))"

definition GetVolumeBase :: "'w KVStore \<Rightarrow> string \<Rightarrow> ('w, VolumeInfo option) op" where
  "GetVolumeBase s i = tryE (getVolumeBaseByKey s (vk_Base (NewVolumeKeyFromName s i)))
     (wrap ''unable to get volume'') ret"

definition getVolumeControllerByKey :: "'w KVStore \<Rightarrow> string \<Rightarrow> ('w, ControllerInfo option) op" where
  "getVolumeControllerByKey s k = getByKey s k dec_ControllerInfo"

definition GetVolumeController :: "'w KVStore \<Rightarrow> string \<Rightarrow> ('w, ControllerInfo option) op" where
  "GetVolumeController s volumeName =
     tryE (getVolumeControllerByKey s (vk_Controller (NewVolumeKeyFromName s volumeName)))
       (wrap ''unable to get controller of volume'') ret"

definition getVolumeReplicaByKey :: "'w KVStore \<Rightarrow> string \<Rightarrow> ('w, ReplicaInfo option) op" where
  "getVolumeReplicaByKey s k = getByKey s k dec_ReplicaInfo"

definition GetVolumeReplica :: "'w KVStore \<Rightarrow> string \<Rightarrow> string \<Rightarrow> ('w, ReplicaInfo option) op" where
  "GetVolumeReplica s volumeName replicaName =
     tryE (getVolumeReplicaByKey s (vk_Replica (NewVolumeKeyFromName s volumeName) replicaName))
       (wrap ''unable to get replica of volume'') ret"

fun getVolumeReplicas_loop ::
  "'w KVStore \<Rightarrow> string list \<Rightarrow> ReplicaInfo gomap \<Rightarrow> ('w, ReplicaInfo gomap) op" where
  "getVolumeReplicas_loop s [] replicas = ret replicas"
| "getVolumeReplicas_loop s (k # ks) replicas =
     tryE (getVolumeReplicaByKey s k) id (\<lambda>r.
       getVolumeReplicas_loop s ks (case r of
           None \<Rightarrow> replicas
         | Some replica \<Rightarrow> AList.update (i_Name (r_InstanceInfo replica)) replica replicas))"

definition getVolumeReplicasByKey :: "'w KVStore \<Rightarrow> string \<Rightarrow> ('w, ReplicaInfo gomap) op" where
  "getVolumeReplicasByKey s k = tryE (b_Keys (kv_b s) k) id (\<lambda>replicaKeys.
     getVolumeReplicas_loop s replicaKeys [])"

definition GetVolumeReplicas :: "'w KVStore \<Rightarrow> string \<Rightarrow> ('w, ReplicaInfo gomap) op" where
  "GetVolumeReplicas s volumeName =
     tryE (getVolumeReplicasByKey s (vk_Replicas (NewVolumeKeyFromName s volumeName)))
       (wrap ''unable to get replicas of volume'') ret"

definition DeleteVolumeController :: "'w KVStore \<Rightarrow> string \<Rightarrow> ('w, unit) op" where
  "DeleteVolumeController s volumeName =
     tryE (b_Delete (kv_b s) (vk_Controller (NewVolumeKeyFromName s volumeName)))
       (wrap ''unable to remove controller of volume'') ret"

definition DeleteVolumeReplicas :: "'w KVStore \<Rightarrow> string \<Rightarrow> ('w, unit) op" where
  "DeleteVolumeReplicas s volumeName =
     tryE (b_Delete (kv_b s) (vk_Replicas (NewVolumeKeyFromName s volumeName)))
       (wrap ''unable to remove replicas of volume'') ret"

definition DeleteVolumeReplica :: "'w KVStore \<Rightarrow> string \<Rightarrow> string \<Rightarrow> ('w, unit) op" where
  "DeleteVolumeReplica s volumeName replicaName =
     tryE (b_Delete (kv_b s) (vk_Replica (NewVolumeKeyFromName s volumeName) replicaName))
       (wrap ''unable to remove replica of volume'') ret"

text \<open>The deferred function wraps whatever error \<open>SetVolume\<close> is about to return.\<close>

definition SetVolume :: "'w KVStore \<Rightarrow> VolumeInfo \<Rightarrow> ('w, unit) op" where
  "SetVolume s volume =
     tryE
       (tryE (SetVolumeBase s volume) id (\<lambda>_.
        tryE (DeleteVolumeController s (v_Name volume)) id (\<lambda>_.
        tryE (case v_Controller volume of
                None \<Rightarrow> ret ()
              | Some c \<Rightarrow> SetVolumeController s c) id (\<lambda>_.
        tryE (DeleteVolumeReplicas s (v_Name volume)) id (\<lambda>_.
        (case v_Replicas volume of
           None \<Rightarrow> ret ()
         | Some rs \<Rightarrow> SetVolumeReplicas s rs))))))
       (wrap ''unable to set volume'') ret"

definition getVolumeByKey :: "'w KVStore \<Rightarrow> string \<Rightarrow> ('w, VolumeInfo option) op" where
  "getVolumeByKey s k =
     (let volumeKey = NewVolumeKeyFromRootKey k in
      tryE (getVolumeBaseByKey s (vk_Base volumeKey)) id (\<lambda>v. case v of
        None \<Rightarrow> ret None
      | Some volume \<Rightarrow>
          tryE (getVolumeControllerByKey s (vk_Controller volumeKey)) id (\<lambda>controller.
          tryE (getVolumeReplicasByKey s (vk_Replicas volumeKey)) id (\<lambda>replicas.
          ret (Some (volume\<lparr>v_Controller := controller,
            v_Replicas := (if replicas \<noteq> [] then Some replicas else None)\<rparr>))))))"

definition GetVolume :: "'w KVStore \<Rightarrow> string \<Rightarrow> ('w, VolumeInfo option) op" where
  "GetVolume s i = tryE (getVolumeByKey s (volumeRootKey s i)) (wrap ''unable to get volume'') ret"

definition DeleteVolume :: "'w KVStore \<Rightarrow> string \<Rightarrow> ('w, unit) op" where
  "DeleteVolume s i =
     tryE (b_Delete (kv_b s) (volumeRootKey s i)) (wrap ''unable to remove volume'') ret"

fun ListVolumes_loop :: "'w KVStore \<Rightarrow> string list \<Rightarrow> VolumeInfo list \<Rightarrow> ('w, VolumeInfo list) op" where
  "ListVolumes_loop s [] volumes = ret volumes"
| "ListVolumes_loop s (k # ks) volumes =
     tryE (getVolumeByKey s k) (wrap ''unable to list volumes'') (\<lambda>v.
       ListVolumes_loop s ks (case v of None \<Rightarrow> volumes | Some volume \<Rightarrow> volumes @ [volume]))"

definition ListVolumes :: "'w KVStore \<Rightarrow> ('w, VolumeInfo list) op" where
  "ListVolumes s = tryE (b_Keys (kv_b s) (kv_key s ''volumes'')) (wrap ''unable to list volumes'')
     (\<lambda>volumeKeys. ListVolumes_loop s volumeKeys [])"

end
