(* ===== verification/KVSpec.thy ===== *)
theory KVSpec
  imports KVStore
begin

text \<open>
  What \<open>KVStore\<close> relies on in its backend, and what it then promises.

  The key layout is given by component lists: \<open>kv_file\<close> holds of the keys that carry a
  document and \<open>kv_listdir\<close> of the directories that are listed, over a non-empty prefix
  and names that satisfy \<open>ok\<close>.  The locale \<open>kv_backend\<close> is the \<open>Backend\<close> interface:
  \<open>view\<close> is the tree of documents a backend world holds, \<open>binv\<close> its invariant and \<open>up\<close>
  the worlds in which calls do not fail.  Its laws say what every call does to the tree,
  also when the call fails; the locale \<open>kv_backend_rec\<close> adds that deletion is recursive.

  The abstract store \<open>kv_abs\<close> is five maps.  \<open>kv_wf\<close> is the well-formedness of a tree
  (every document decodes to an object filed under its own name); the lemmas of the locale
  say how each operation of \<open>KVStore\<close> acts on the abstract store.
\<close>

section \<open>Key layout\<close>

definition settings_key :: "string list \<Rightarrow> string list" where
  "settings_key pre = pre @ [''settings'']"
definition hosts_dir :: "string list \<Rightarrow> string list" where
  "hosts_dir pre = pre @ [''hosts'']"
definition host_key :: "string list \<Rightarrow> string \<Rightarrow> string list" where
  "host_key pre h = pre @ [''hosts'', h]"
definition vols_dir :: "string list \<Rightarrow> string list" where
  "vols_dir pre = pre @ [''volumes'']"
definition vol_root :: "string list \<Rightarrow> string \<Rightarrow> string list" where
  "vol_root pre v = pre @ [''volumes'', v]"
definition base_key :: "string list \<Rightarrow> string \<Rightarrow> string list" where
  "base_key pre v = pre @ [''volumes'', v, ''base'']"
definition ctrl_key :: "string list \<Rightarrow> string \<Rightarrow> string list" where
  "ctrl_key pre v = pre @ [''volumes'', v, ''instances'', ''controller'']"
definition reps_dir :: "string list \<Rightarrow> string \<Rightarrow> string list" where
  "reps_dir pre v = pre @ [''volumes'', v, ''instances'', ''replicas'']"
definition rep_key :: "string list \<Rightarrow> string \<Rightarrow> string \<Rightarrow> string list" where
  "rep_key pre v r = pre @ [''volumes'', v, ''instances'', ''replicas'', r]"

lemmas layout_defs = settings_key_def hosts_dir_def host_key_def vols_dir_def vol_root_def
  base_key_def ctrl_key_def reps_dir_def rep_key_def

inductive kv_file :: "string list \<Rightarrow> (string \<Rightarrow> bool) \<Rightarrow> string list \<Rightarrow> bool"
  for pre ok where
  settings: "kv_file pre ok (settings_key pre)"
| host: "ok h \<Longrightarrow> kv_file pre ok (host_key pre h)"
| base: "ok v \<Longrightarrow> kv_file pre ok (base_key pre v)"
| ctrl: "ok v \<Longrightarrow> kv_file pre ok (ctrl_key pre v)"
| rep: "ok v \<Longrightarrow> ok r \<Longrightarrow> kv_file pre ok (rep_key pre v r)"

inductive kv_listdir :: "string list \<Rightarrow> (string \<Rightarrow> bool) \<Rightarrow> string list \<Rightarrow> bool"
  for pre ok where
  hosts: "kv_listdir pre ok (hosts_dir pre)"
| vols: "kv_listdir pre ok (vols_dir pre)"
| reps: "ok v \<Longrightarrow> kv_listdir pre ok (reps_dir pre v)"

text \<open>The keys that are deleted: a single document, a volume's replicas, a whole volume.\<close>

inductive kv_deletable :: "string list \<Rightarrow> (string \<Rightarrow> bool) \<Rightarrow> string list \<Rightarrow> bool"
  for pre ok where
  doc: "kv_file pre ok cs \<Longrightarrow> kv_deletable pre ok cs"
| reps: "ok v \<Longrightarrow> kv_deletable pre ok (reps_dir pre v)"
| root: "ok v \<Longrightarrow> kv_deletable pre ok (vol_root pre v)"

lemma layout_eqs [simp]:
  "host_key pre h = host_key pre h' \<longleftrightarrow> h = h'"
  "base_key pre v = base_key pre v' \<longleftrightarrow> v = v'"
  "ctrl_key pre v = ctrl_key pre v' \<longleftrightarrow> v = v'"
  "rep_key pre v r = rep_key pre v' r' \<longleftrightarrow> v = v' \<and> r = r'"
  "settings_key pre \<noteq> host_key pre h" "settings_key pre \<noteq> base_key pre v"
  "settings_key pre \<noteq> ctrl_key pre v" "settings_key pre \<noteq> rep_key pre v r"
  "host_key pre h \<noteq> settings_key pre" "host_key pre h \<noteq> base_key pre v"
  "host_key pre h \<noteq> ctrl_key pre v" "host_key pre h \<noteq> rep_key pre v r"
  "base_key pre v \<noteq> settings_key pre" "base_key pre v \<noteq> host_key pre h"
  "base_key pre v \<noteq> ctrl_key pre v'" "base_key pre v \<noteq> rep_key pre v' r"
  "ctrl_key pre v \<noteq> settings_key pre" "ctrl_key pre v \<noteq> host_key pre h"
  "ctrl_key pre v \<noteq> base_key pre v'" "ctrl_key pre v \<noteq> rep_key pre v' r"
  "rep_key pre v r \<noteq> settings_key pre" "rep_key pre v r \<noteq> host_key pre h"
  "rep_key pre v r \<noteq> base_key pre v'" "rep_key pre v r \<noteq> ctrl_key pre v'"
  by (auto simp: layout_defs)

lemma layout_prefix [simp]:
  "prefix (ctrl_key pre v) (settings_key pre) = False" "prefix (ctrl_key pre v) (host_key pre h) = False"
  "prefix (ctrl_key pre v) (base_key pre v') = False" "prefix (ctrl_key pre v) (ctrl_key pre v') = (v = v')"
  "prefix (ctrl_key pre v) (rep_key pre v' r) = False"
  "prefix (reps_dir pre v) (settings_key pre) = False" "prefix (reps_dir pre v) (host_key pre h) = False"
  "prefix (reps_dir pre v) (base_key pre v') = False" "prefix (reps_dir pre v) (ctrl_key pre v') = False"
  "prefix (reps_dir pre v) (rep_key pre v' r) = (v = v')"
  "prefix (rep_key pre v r) (settings_key pre) = False" "prefix (rep_key pre v r) (host_key pre h) = False"
  "prefix (rep_key pre v r) (base_key pre v') = False" "prefix (rep_key pre v r) (ctrl_key pre v') = False"
  "prefix (rep_key pre v r) (rep_key pre v' r') = (v = v' \<and> r = r')"
  "prefix (vol_root pre v) (settings_key pre) = False" "prefix (vol_root pre v) (host_key pre h) = False"
  "prefix (vol_root pre v) (base_key pre v') = (v = v')" "prefix (vol_root pre v) (ctrl_key pre v') = (v = v')"
  "prefix (vol_root pre v) (rep_key pre v' r) = (v = v')"
  by (auto simp: layout_defs)

lemma dirs_no_file: "kv_listdir pre ok cs \<Longrightarrow> \<not> kv_file pre ok cs" "\<not> kv_file pre ok (vol_root pre v)"
  by (auto simp: layout_defs elim!: kv_listdir.cases kv_file.cases)

lemma file_antichain: "kv_file pre ok cs \<Longrightarrow> kv_file pre ok ds \<Longrightarrow> prefix cs ds \<Longrightarrow> cs = ds"
  by (auto simp: layout_defs elim!: kv_file.cases)

lemma listdir_child_ok: "kv_listdir pre ok cs \<Longrightarrow> kv_file pre ok (cs @ n # ds) \<Longrightarrow> ok n"
  by (auto simp: layout_defs elim!: kv_listdir.cases kv_file.cases)

lemma file_below_pre: "kv_file pre ok cs \<Longrightarrow> strict_prefix pre cs"
  by (auto simp: layout_defs strict_prefix_def elim!: kv_file.cases)

lemma listdir_below_pre: "kv_listdir pre ok cs \<Longrightarrow> strict_prefix pre cs"
  by (auto simp: layout_defs strict_prefix_def elim!: kv_listdir.cases)

lemma deletable_below_pre: "kv_deletable pre ok cs \<Longrightarrow> strict_prefix pre cs"
  by (auto elim!: kv_deletable.cases dest: file_below_pre) (auto simp: layout_defs strict_prefix_def)

section \<open>The backend interface\<close>

type_synonym tree = "string list \<Rightarrow> json option"

text \<open>What a successful deletion of a key does to the tree: nothing outside the key, and
  neither the key nor anything directly below it remains.\<close>

definition del_spec :: "string list \<Rightarrow> tree \<Rightarrow> tree \<Rightarrow> bool" where
  "del_spec cs m m' \<longleftrightarrow>
     (\<forall>ds. \<not> prefix cs ds \<longrightarrow> m' ds = m ds) \<and> m' cs = None \<and> (\<forall>c. m' (cs @ [c]) = None) \<and>
     m' \<subseteq>\<^sub>m m"

definition child_names :: "tree \<Rightarrow> string list \<Rightarrow> string set" where
  "child_names m cs = {n. \<exists>ds. m (cs @ n # ds) \<noteq> None}"

text \<open>\<open>binv\<close> is kept, and a backend that was up stays up.\<close>

definition stays :: "('w \<Rightarrow> bool) \<Rightarrow> ('w \<Rightarrow> bool) \<Rightarrow> 'w \<Rightarrow> 'w \<Rightarrow> bool" where
  "stays binv up w w' \<longleftrightarrow> binv w' \<and> (up w \<longrightarrow> up w')"

text \<open>A call that fails found the backend down; it may or may not have taken effect.\<close>

locale kv_backend =
  fixes b :: "'w Backend" and view :: "'w \<Rightarrow> tree" and binv :: "'w \<Rightarrow> bool" and up :: "'w \<Rightarrow> bool"
    and pre :: "string list" and ok :: "string \<Rightarrow> bool"
  assumes pre_good: "pre \<noteq> []" "\<forall>c \<in> set pre. good_comp c"
    and ok_good: "ok c \<Longrightarrow> good_comp c"
    and wrap_found: "\<not> b_IsNotFoundError b (Wrap e m)"
    and set_wp: "\<lbrakk>binv w; kv_file pre ok cs\<rbrakk> \<Longrightarrow>
      wp (b_Set b (path cs) j) (\<lambda>_ w'. stays binv up w w' \<and> view w' = (view w)(cs \<mapsto> j))
        (\<lambda>_ w'. \<not> up w \<and> binv w' \<and> (view w' = view w \<or> view w' = (view w)(cs \<mapsto> j))) w"
    and get_wp: "\<lbrakk>binv w; kv_file pre ok cs\<rbrakk> \<Longrightarrow>
      wp (b_Get b (path cs)) (\<lambda>j w'. stays binv up w w' \<and> view w' = view w \<and> view w cs = Some j)
        (\<lambda>e w'. binv w' \<and> view w' = view w \<and>
           (if b_IsNotFoundError b e then view w cs = None \<and> stays binv up w w' else \<not> up w)) w"
    and keys_wp: "\<lbrakk>binv w; kv_listdir pre ok cs\<rbrakk> \<Longrightarrow>
      wp (b_Keys b (path cs))
        (\<lambda>ks w'. stays binv up w w' \<and> view w' = view w \<and> (\<exists>ns. ks = map (\<lambda>n. path (cs @ [n])) ns \<and>
           distinct ns \<and> (\<forall>n \<in> set ns. ok n) \<and> child_names (view w) cs \<subseteq> set ns))
        (\<lambda>_ w'. \<not> up w \<and> binv w' \<and> view w' = view w) w"
    and delete_wp: "\<lbrakk>binv w; kv_deletable pre ok cs\<rbrakk> \<Longrightarrow>
      wp (b_Delete b (path cs)) (\<lambda>_ w'. stays binv up w w' \<and> del_spec cs (view w) (view w'))
        (\<lambda>_ w'. \<not> up w \<and> binv w' \<and> (view w' = view w \<or> del_spec cs (view w) (view w'))) w"

locale kv_backend_rec = kv_backend +
  assumes delete_rec: "\<lbrakk>binv w; kv_deletable pre ok cs\<rbrakk> \<Longrightarrow>
      wp (b_Delete b (path cs)) (\<lambda>_ w'. \<forall>ds. prefix cs ds \<longrightarrow> view w' ds = None) (\<lambda>_ _. True) w"
    and delete_all: "binv w \<Longrightarrow>
      wp (b_Delete b (path pre)) (\<lambda>_ w'. stays binv up w w' \<and> view w' = (\<lambda>_. None))
        (\<lambda>_ w'. \<not> up w \<and> binv w' \<and> (view w' = view w \<or> view w' = (\<lambda>_. None))) w"

section \<open>The abstract store\<close>

record kv_abs =
  a_settings :: "SettingsInfo option"
  a_hosts :: "string \<rightharpoonup> HostInfo"
  a_base :: "string \<rightharpoonup> VolumeInfo"
  a_ctrl :: "string \<rightharpoonup> ControllerInfo"
  a_reps :: "string \<Rightarrow> string \<rightharpoonup> ReplicaInfo"

definition abs_of :: "string list \<Rightarrow> tree \<Rightarrow> kv_abs" where
  "abs_of pre m = \<lparr>
     a_settings = Option.bind (Option.bind (m (settings_key pre)) dec_SettingsInfo) id,
     a_hosts = (\<lambda>h. Option.bind (m (host_key pre h)) dec_HostInfo),
     a_base = (\<lambda>v. Option.bind (m (base_key pre v)) dec_VolumeInfo),
     a_ctrl = (\<lambda>v. Option.bind (m (ctrl_key pre v)) dec_ControllerInfo),
     a_reps = (\<lambda>v r. Option.bind (m (rep_key pre v r)) dec_ReplicaInfo)\<rparr>"

definition empty_abs :: kv_abs where
  "empty_abs = \<lparr>a_settings = None, a_hosts = Map.empty, a_base = Map.empty, a_ctrl = Map.empty, a_reps = \<lambda>_. Map.empty\<rparr>"

text \<open>A well-formed tree: every document decodes, and to an object that names its key.\<close>

definition kv_wf :: "string list \<Rightarrow> tree \<Rightarrow> bool" where
  "kv_wf pre m \<longleftrightarrow>
     (\<forall>j. m (settings_key pre) = Some j \<longrightarrow> (\<exists>s. dec_SettingsInfo j = Some (Some s))) \<and>
     (\<forall>h j. m (host_key pre h) = Some j \<longrightarrow> (\<exists>x. dec_HostInfo j = Some x \<and> h_UUID x = h)) \<and>
     (\<forall>v j. m (base_key pre v) = Some j \<longrightarrow> (\<exists>x. dec_VolumeInfo j = Some x \<and> v_Name x = v \<and>
        v_Controller x = None \<and> v_Replicas x = None)) \<and>
     (\<forall>v j. m (ctrl_key pre v) = Some j \<longrightarrow> (\<exists>x. dec_ControllerInfo j = Some x \<and>
        i_VolumeName (c_InstanceInfo x) = v)) \<and>
     (\<forall>v r j. m (rep_key pre v r) = Some j \<longrightarrow> (\<exists>x. dec_ReplicaInfo j = Some x \<and>
        i_Name (r_InstanceInfo x) = r \<and> i_VolumeName (r_InstanceInfo x) = v))"

text \<open>The volume an abstract store holds under a name, and when a returned struct is it.\<close>

definition vol_matches :: "kv_abs \<Rightarrow> string \<Rightarrow> VolumeInfo option \<Rightarrow> bool" where
  "vol_matches a v r = (case a_base a v of
      None \<Rightarrow> r = None
    | Some x \<Rightarrow> (case r of
        None \<Rightarrow> False
      | Some vol \<Rightarrow> vol\<lparr>v_Controller := None, v_Replicas := None\<rparr> = x \<and>
          v_Controller vol = a_ctrl a v \<and> map_of (replicas_of vol) = a_reps a v \<and>
          distinct (map fst (replicas_of vol)) \<and> v_Replicas vol \<noteq> Some []))"

section \<open>Trees and the abstract store\<close>

lemma stays_inv: "stays binv up w w' \<Longrightarrow> binv w'"
  by (simp add: stays_def)

lemma stays_refl: "binv w \<Longrightarrow> stays binv up w w"
  by (simp add: stays_def)

lemma stays_trans [trans]: "stays binv up w w' \<Longrightarrow> stays binv up w' w'' \<Longrightarrow> stays binv up w w''"
  by (auto simp: stays_def)

lemma abs_of_upd:
  "abs_of pre (m(settings_key pre \<mapsto> j)) = (abs_of pre m)\<lparr>a_settings := Option.bind (dec_SettingsInfo j) id\<rparr>"
  "abs_of pre (m(host_key pre h \<mapsto> j)) = (abs_of pre m)\<lparr>a_hosts := (a_hosts (abs_of pre m))(h := dec_HostInfo j)\<rparr>"
  "abs_of pre (m(base_key pre v \<mapsto> j)) = (abs_of pre m)\<lparr>a_base := (a_base (abs_of pre m))(v := dec_VolumeInfo j)\<rparr>"
  "abs_of pre (m(ctrl_key pre v \<mapsto> j)) = (abs_of pre m)\<lparr>a_ctrl := (a_ctrl (abs_of pre m))(v := dec_ControllerInfo j)\<rparr>"
  "abs_of pre (m(rep_key pre v r \<mapsto> j)) = (abs_of pre m)\<lparr>a_reps := (a_reps (abs_of pre m))
     (v := (a_reps (abs_of pre m) v)(r := dec_ReplicaInfo j))\<rparr>"
  by (simp_all add: abs_of_def fun_eq_iff)

lemma kv_wf_upd:
  assumes "kv_wf pre m"
  shows "dec_SettingsInfo j = Some (Some s) \<Longrightarrow> kv_wf pre (m(settings_key pre \<mapsto> j))"
    and "dec_HostInfo j = Some h \<Longrightarrow> kv_wf pre (m(host_key pre (h_UUID h) \<mapsto> j))"
    and "\<lbrakk>dec_VolumeInfo j = Some x; v_Controller x = None; v_Replicas x = None\<rbrakk> \<Longrightarrow>
      kv_wf pre (m(base_key pre (v_Name x) \<mapsto> j))"
    and "dec_ControllerInfo j = Some c \<Longrightarrow> kv_wf pre (m(ctrl_key pre (i_VolumeName (c_InstanceInfo c)) \<mapsto> j))"
    and "dec_ReplicaInfo j = Some r \<Longrightarrow>
      kv_wf pre (m(rep_key pre (i_VolumeName (r_InstanceInfo r)) (i_Name (r_InstanceInfo r)) \<mapsto> j))"
  using assms unfolding kv_wf_def by (simp_all; blast)+

lemma kv_wf_mono: "kv_wf pre m \<Longrightarrow> m' \<subseteq>\<^sub>m m \<Longrightarrow> kv_wf pre m'"
  unfolding kv_wf_def map_le_def dom_def by (simp; metis)

lemma del_specD:
  "del_spec cs m m' \<Longrightarrow> \<not> prefix cs ds \<Longrightarrow> m' ds = m ds"
  "del_spec cs m m' \<Longrightarrow> m' cs = None"
  "del_spec cs m m' \<Longrightarrow> m' (cs @ [c]) = None"
  "del_spec cs m m' \<Longrightarrow> m' \<subseteq>\<^sub>m m"
  by (simp_all add: del_spec_def)

lemma reps_dir_snoc [simp]: "reps_dir pre v @ [r] = rep_key pre v r"
  and vol_root_snoc [simp]: "vol_root pre v @ [''base''] = base_key pre v"
  and hosts_dir_snoc [simp]: "hosts_dir pre @ [h] = host_key pre h"
  and vols_dir_snoc [simp]: "vols_dir pre @ [v] = vol_root pre v"
  by (simp_all add: layout_defs)

lemma abs_of_del_ctrl:
  "del_spec (ctrl_key pre v) m m' \<Longrightarrow>
     abs_of pre m' = (abs_of pre m)\<lparr>a_ctrl := (a_ctrl (abs_of pre m))(v := None)\<rparr>"
  by (auto simp: abs_of_def fun_eq_iff del_specD)

lemma abs_of_del_rep:
  "del_spec (rep_key pre v r) m m' \<Longrightarrow>
     abs_of pre m' = (abs_of pre m)\<lparr>a_reps := (a_reps (abs_of pre m))
       (v := (a_reps (abs_of pre m) v)(r := None))\<rparr>"
  by (auto simp: abs_of_def fun_eq_iff del_specD)

lemma abs_of_del_reps:
  assumes "del_spec (reps_dir pre v) m m'"
  shows "abs_of pre m' = (abs_of pre m)\<lparr>a_reps := (a_reps (abs_of pre m))(v := Map.empty)\<rparr>"
proof -
  have "m' (rep_key pre v r) = None" for r
    using del_specD(3) [OF assms, of r] by simp
  then show ?thesis
    using assms by (auto simp: abs_of_def fun_eq_iff del_specD)
qed

lemma abs_of_del_root:
  assumes "del_spec (vol_root pre v) m m'"
  shows "a_base (abs_of pre m') = (a_base (abs_of pre m))(v := None)"
    and "v' \<noteq> v \<Longrightarrow> a_ctrl (abs_of pre m') v' = a_ctrl (abs_of pre m) v'"
    and "v' \<noteq> v \<Longrightarrow> a_reps (abs_of pre m') v' = a_reps (abs_of pre m) v'"
    and "a_hosts (abs_of pre m') = a_hosts (abs_of pre m)"
    and "a_settings (abs_of pre m') = a_settings (abs_of pre m)"
proof -
  have "m' (base_key pre v) = None"
    using del_specD(3) [OF assms, of "''base''"] by simp
  then show "a_base (abs_of pre m') = (a_base (abs_of pre m))(v := None)"
    using assms by (auto simp: abs_of_def fun_eq_iff del_specD)
qed (use assms in \<open>auto simp: abs_of_def fun_eq_iff del_specD\<close>)

lemma abs_of_sub:
  assumes "m' \<subseteq>\<^sub>m m"
  shows "a_base (abs_of pre m') \<subseteq>\<^sub>m a_base (abs_of pre m)" and "a_ctrl (abs_of pre m') \<subseteq>\<^sub>m a_ctrl (abs_of pre m)"
    and "a_reps (abs_of pre m') v \<subseteq>\<^sub>m a_reps (abs_of pre m) v"
proof -
  have "m' k = Some j \<Longrightarrow> m k = Some j" for k j using assms by (metis domI map_le_def)
  then show "a_base (abs_of pre m') \<subseteq>\<^sub>m a_base (abs_of pre m)" "a_ctrl (abs_of pre m') \<subseteq>\<^sub>m a_ctrl (abs_of pre m)"
    "a_reps (abs_of pre m') v \<subseteq>\<^sub>m a_reps (abs_of pre m) v"
    by (auto simp: abs_of_def map_le_def bind_eq_Some_conv)
qed

lemma kv_wfD:
  assumes "kv_wf pre m"
  shows "m (settings_key pre) = Some j \<Longrightarrow> \<exists>s. dec_SettingsInfo j = Some (Some s)"
    and "m (host_key pre h) = Some j \<Longrightarrow> \<exists>x. dec_HostInfo j = Some x \<and> h_UUID x = h"
    and "m (base_key pre v) = Some j \<Longrightarrow> \<exists>x. dec_VolumeInfo j = Some x \<and> v_Name x = v \<and>
        v_Controller x = None \<and> v_Replicas x = None"
    and "m (ctrl_key pre v) = Some j \<Longrightarrow> \<exists>x. dec_ControllerInfo j = Some x \<and>
        i_VolumeName (c_InstanceInfo x) = v"
    and "m (rep_key pre v r) = Some j \<Longrightarrow> \<exists>x. dec_ReplicaInfo j = Some x \<and>
        i_Name (r_InstanceInfo x) = r \<and> i_VolumeName (r_InstanceInfo x) = v"
  using assms unfolding kv_wf_def by blast+

text \<open>Reading each name of a list into a map: what is there wins over what was read before.\<close>

definition over :: "string set \<Rightarrow> (string \<rightharpoonup> 'x) \<Rightarrow> (string \<rightharpoonup> 'x) \<Rightarrow> string \<rightharpoonup> 'x" where
  "over N m acc n = (if n \<in> N \<and> m n \<noteq> None then m n else acc n)"

lemma over_empty [simp]: "over {} m acc = acc"
  by (rule ext) (simp add: over_def)

lemma over_insert: "over (insert n N) m acc = over N m (\<lambda>k. if k = n \<and> m n \<noteq> None then m n else acc k)"
  by (rule ext) (auto simp: over_def)

lemma over_all: "dom m \<subseteq> N \<Longrightarrow> over N m Map.empty = m"
proof (rule ext)
  show "dom m \<subseteq> N \<Longrightarrow> over N m Map.empty x = m x" for x
    by (cases "m x") (auto simp: over_def)
qed

text \<open>A volume that can be stored: its instances carry its name and are filed under theirs.\<close>

definition volume_ok :: "(string \<Rightarrow> bool) \<Rightarrow> VolumeInfo \<Rightarrow> bool" where
  "volume_ok ok v \<longleftrightarrow> ok (v_Name v) \<and> volume_ints_ok v \<and>
     (case v_Controller v of None \<Rightarrow> True | Some c \<Rightarrow> i_VolumeName (c_InstanceInfo c) = v_Name v) \<and>
     distinct (map fst (replicas_of v)) \<and>
     (\<forall>(k, r) \<in> set (replicas_of v). ok k \<and> i_Name (r_InstanceInfo r) = k \<and>
        i_VolumeName (r_InstanceInfo r) = v_Name v)"

text \<open>The volumes an abstract store holds, each listed once.\<close>

definition list_matches :: "kv_abs \<Rightarrow> VolumeInfo list \<Rightarrow> bool" where
  "list_matches a vs \<longleftrightarrow> distinct (map v_Name vs) \<and> v_Name ` set vs = dom (a_base a) \<and>
     (\<forall>v \<in> set vs. vol_matches a (v_Name v) (Some v))"

text \<open>Equality of volume structs up to the iteration order of the replica map.\<close>

definition same_volume :: "VolumeInfo \<Rightarrow> VolumeInfo \<Rightarrow> bool" where
  "same_volume v v' \<longleftrightarrow> v\<lparr>v_Replicas := None\<rparr> = v'\<lparr>v_Replicas := None\<rparr> \<and>
     map_of (replicas_of v) = map_of (replicas_of v')"

end
