(* ===== verification/KVClient.thy ===== *)
theory KVClient
  imports KVSpec
begin

text \<open>
  \<open>KVStore\<close> proved once against the backend interface: in a well-formed tree every
  operation acts on the abstract store as its name says, keeps the tree well-formed also
  when it fails half-way, and fails only when the backend is down.
\<close>

context kv_backend
begin

abbreviation s :: "'w KVStore" where
  "s \<equiv> \<lparr>kv_Prefix = path pre, kv_b = b\<rparr>"

abbreviation abst :: "'w \<Rightarrow> kv_abs" where
  "abst w \<equiv> abs_of pre (view w)"

abbreviation wfs :: "'w \<Rightarrow> bool" where
  "wfs w \<equiv> binv w \<and> kv_wf pre (view w)"

lemmas pre_good_simps [simp] = pre_good

lemma s_backend: "kv_b s = b"
  by simp

lemma store_keys [simp]:
  "kv_key s ''hosts'' = path (hosts_dir pre)"
  "kv_key s ''volumes'' = path (vols_dir pre)"
  "settingsKey s = path (settings_key pre)"
  "ok h \<Longrightarrow> hostKey s h = path (host_key pre h)"
  "ok v \<Longrightarrow> volumeRootKey s v = path (vol_root pre v)"
  "ok v \<Longrightarrow> vk_Base \<lparr>vk_rootKey = path (vol_root pre v)\<rparr> = path (base_key pre v)"
  "ok v \<Longrightarrow> vk_Controller \<lparr>vk_rootKey = path (vol_root pre v)\<rparr> = path (ctrl_key pre v)"
  "ok v \<Longrightarrow> vk_Replicas \<lparr>vk_rootKey = path (vol_root pre v)\<rparr> = path (reps_dir pre v)"
  "ok v \<Longrightarrow> ok r \<Longrightarrow> vk_Replica \<lparr>vk_rootKey = path (vol_root pre v)\<rparr> r = path (rep_key pre v r)"
  by (auto simp: kv_key_def settingsKey_def hostKey_def volumeRootKey_def vk_Base_def vk_Controller_def
      vk_Instances_def vk_Replicas_def vk_Replica_def layout_defs ok_good)

lemma volume_keys [simp]:
  "ok v \<Longrightarrow> NewVolumeKeyFromName s v = \<lparr>vk_rootKey = path (vol_root pre v)\<rparr>"
  "NewVolumeKeyFromRootKey k = \<lparr>vk_rootKey = k\<rparr>"
  by (simp_all add: NewVolumeKeyFromName_def NewVolumeKeyFromRootKey_def)

subsection \<open>Writing one document\<close>

text \<open>A write that fails took effect or did not (\<open>_either\<close>); mostly only the well-formedness of what
  it leaves matters (\<open>_wp\<close>).\<close>

lemma wp_drop: "wp m Q (\<lambda>e w'. A e w' \<and> B e w' \<and> C e w') w \<Longrightarrow> wp m Q (\<lambda>e w'. A e w' \<and> B e w') w"
  by (erule wp_mono) auto

lemma set_step:
  assumes w: "wfs w" and f: "kv_file pre ok cs" and wf: "kv_wf pre ((view w)(cs \<mapsto> j))"
  shows "wp (b_Set b (path cs) j)
    (\<lambda>_ w'. stays binv up w w' \<and> kv_wf pre (view w') \<and> view w' = (view w)(cs \<mapsto> j))
    (\<lambda>_ w'. \<not> up w \<and> wfs w' \<and> (view w' = view w \<or> view w' = (view w)(cs \<mapsto> j))) w"
  by (rule wp_mono [OF set_wp]) (use assms in auto)

lemma delete_step:
  assumes w: "wfs w" and f: "kv_deletable pre ok cs"
  shows "wp (b_Delete b (path cs))
    (\<lambda>_ w'. stays binv up w w' \<and> kv_wf pre (view w') \<and> del_spec cs (view w) (view w'))
    (\<lambda>_ w'. \<not> up w \<and> wfs w' \<and> (view w' = view w \<or> del_spec cs (view w) (view w'))) w"
  by (rule wp_mono [OF delete_wp]) (use assms in \<open>auto intro: kv_wf_mono dest: del_specD(4)\<close>)

lemma SetHost_wp:
  assumes "wfs w" and "ok (h_UUID h)"
  shows "wp (SetHost s h)
    (\<lambda>_ w'. stays binv up w w' \<and> kv_wf pre (view w') \<and>
       abst w' = (abst w)\<lparr>a_hosts := (a_hosts (abst w))(h_UUID h \<mapsto> h)\<rparr>)
    (\<lambda>_ w'. \<not> up w \<and> wfs w') w"
proof -
  have "kv_file pre ok (host_key pre (h_UUID h))" using assms by (simp add: kv_file.host)
  from set_step [OF assms(1) this kv_wf_upd(2) [OF _ dec_enc_HostInfo]] show ?thesis
    using assms by (auto simp: SetHost_def wp_simps abs_of_upd elim!: wp_mono)
qed

lemma SetSettings_wp:
  assumes "wfs w"
  shows "wp (SetSettings s x)
    (\<lambda>_ w'. stays binv up w w' \<and> kv_wf pre (view w') \<and> abst w' = (abst w)\<lparr>a_settings := Some x\<rparr>)
    (\<lambda>_ w'. \<not> up w \<and> wfs w') w"
  using set_step [OF assms kv_file.settings kv_wf_upd(1) [OF _ dec_enc_SettingsInfo [of x]]] assms
  by (auto simp: SetSettings_def wp_simps abs_of_upd elim!: wp_mono)

lemma volume_base_dec:
  "volume_ints_ok v \<Longrightarrow> dec_VolumeInfo (enc_VolumeInfo (v\<lparr>v_Controller := None, v_Replicas := None\<rparr>))
     = Some (v\<lparr>v_Controller := None, v_Replicas := None\<rparr>)"
  by (rule dec_enc_VolumeInfo) (simp add: volume_ints_ok_def)

lemma SetVolumeBase_either:
  assumes "wfs w" and "ok (v_Name v)" and "volume_ints_ok v"
  shows "wp (SetVolumeBase s v)
    (\<lambda>_ w'. stays binv up w w' \<and> kv_wf pre (view w') \<and>
       abst w' = (abst w)\<lparr>a_base := (a_base (abst w))(v_Name v \<mapsto> v\<lparr>v_Controller := None, v_Replicas := None\<rparr>)\<rparr>)
    (\<lambda>_ w'. \<not> up w \<and> wfs w' \<and> (abst w' = abst w \<or> abst w' = (abst w)\<lparr>a_base := (a_base (abst w))(v_Name v \<mapsto> v\<lparr>v_Controller := None, v_Replicas := None\<rparr>)\<rparr>)) w"
proof -
  let ?x = "v\<lparr>v_Controller := None, v_Replicas := None\<rparr>"
  have wf: "kv_wf pre ((view w)(base_key pre (v_Name v) \<mapsto> enc_VolumeInfo ?x))"
    using kv_wf_upd(3) [of pre "view w" "enc_VolumeInfo ?x" ?x] assms volume_base_dec [OF assms(3)] by simp
  have "kv_file pre ok (base_key pre (v_Name v))" using assms by (simp add: kv_file.base)
  from set_step [OF assms(1) this wf] show ?thesis
    using assms by (simp add: SetVolumeBase_def abs_of_upd volume_base_dec)
      (auto simp: abs_of_upd volume_base_dec elim!: wp_mono)
qed

lemmas SetVolumeBase_wp = SetVolumeBase_either [THEN wp_drop]

lemma SetVolumeController_either:
  assumes "wfs w" and "ok (i_VolumeName (c_InstanceInfo c))"
  shows "wp (SetVolumeController s c)
    (\<lambda>_ w'. stays binv up w w' \<and> kv_wf pre (view w') \<and>
       abst w' = (abst w)\<lparr>a_ctrl := (a_ctrl (abst w))(i_VolumeName (c_InstanceInfo c) \<mapsto> c)\<rparr>)
    (\<lambda>_ w'. \<not> up w \<and> wfs w' \<and> (abst w' = abst w \<or> abst w' = (abst w)\<lparr>a_ctrl := (a_ctrl (abst w))(i_VolumeName (c_InstanceInfo c) \<mapsto> c)\<rparr>)) w"
proof -
  have ne: "i_VolumeName (c_InstanceInfo c) \<noteq> []" using assms(2) ok_good by (auto simp: good_comp_def)
  have "kv_file pre ok (ctrl_key pre (i_VolumeName (c_InstanceInfo c)))"
    using assms by (simp add: kv_file.ctrl)
  from set_step [OF assms(1) this kv_wf_upd(4) [OF _ dec_enc_ControllerInfo]] show ?thesis
    using assms ne
    by (auto simp: SetVolumeController_def Let_def abs_of_upd elim!: wp_mono)
qed

lemmas SetVolumeController_wp = SetVolumeController_either [THEN wp_drop]

lemma SetVolumeReplica_either:
  assumes "wfs w" and "ok (i_VolumeName (r_InstanceInfo r))" and "ok (i_Name (r_InstanceInfo r))"
  shows "wp (SetVolumeReplica s r)
    (\<lambda>_ w'. stays binv up w w' \<and> kv_wf pre (view w') \<and>
       abst w' = (abst w)\<lparr>a_reps := (a_reps (abst w))(i_VolumeName (r_InstanceInfo r) :=
         (a_reps (abst w) (i_VolumeName (r_InstanceInfo r)))(i_Name (r_InstanceInfo r) \<mapsto> r))\<rparr>)
    (\<lambda>_ w'. \<not> up w \<and> wfs w' \<and> (abst w' = abst w \<or> abst w' = (abst w)\<lparr>a_reps := (a_reps (abst w))(i_VolumeName (r_InstanceInfo r) := (a_reps (abst w) (i_VolumeName (r_InstanceInfo r)))(i_Name (r_InstanceInfo r) \<mapsto> r))\<rparr>)) w"
proof -
  have ne: "i_VolumeName (r_InstanceInfo r) \<noteq> []" using assms(2) ok_good by (auto simp: good_comp_def)
  have "kv_file pre ok (rep_key pre (i_VolumeName (r_InstanceInfo r)) (i_Name (r_InstanceInfo r)))"
    using assms by (simp add: kv_file.rep)
  from set_step [OF assms(1) this kv_wf_upd(5) [OF _ dec_enc_ReplicaInfo]] show ?thesis
    using assms ne
    by (auto simp: SetVolumeReplica_def Let_def abs_of_upd elim!: wp_mono)
qed

lemmas SetVolumeReplica_wp = SetVolumeReplica_either [THEN wp_drop]

subsection \<open>Deleting\<close>

lemma DeleteVolumeController_either:
  assumes "wfs w" and "ok v"
  shows "wp (DeleteVolumeController s v)
    (\<lambda>_ w'. stays binv up w w' \<and> kv_wf pre (view w') \<and>
       abst w' = (abst w)\<lparr>a_ctrl := (a_ctrl (abst w))(v := None)\<rparr>)
    (\<lambda>_ w'. \<not> up w \<and> wfs w' \<and> (abst w' = abst w \<or> abst w' = (abst w)\<lparr>a_ctrl := (a_ctrl (abst w))(v := None)\<rparr>)) w"
proof -
  have "kv_deletable pre ok (ctrl_key pre v)" using assms by (simp add: kv_deletable.doc kv_file.ctrl)
  from delete_step [OF assms(1) this] show ?thesis
    using assms by (auto simp: DeleteVolumeController_def wp_simps abs_of_del_ctrl elim!: wp_mono)
qed

lemmas DeleteVolumeController_wp = DeleteVolumeController_either [THEN wp_drop]

lemma DeleteVolumeReplicas_wp:
  assumes "wfs w" and "ok v"
  shows "wp (DeleteVolumeReplicas s v)
    (\<lambda>_ w'. stays binv up w w' \<and> kv_wf pre (view w') \<and>
       abst w' = (abst w)\<lparr>a_reps := (a_reps (abst w))(v := Map.empty)\<rparr>)
    (\<lambda>_ w'. \<not> up w \<and> wfs w') w"
proof -
  have "kv_deletable pre ok (reps_dir pre v)" using assms by (simp add: kv_deletable.reps)
  from delete_step [OF assms(1) this] show ?thesis
    using assms by (auto simp: DeleteVolumeReplicas_def wp_simps abs_of_del_reps elim!: wp_mono)
qed

lemma DeleteVolumeReplica_either:
  assumes "wfs w" and "ok v" and "ok r"
  shows "wp (DeleteVolumeReplica s v r)
    (\<lambda>_ w'. stays binv up w w' \<and> kv_wf pre (view w') \<and>
       abst w' = (abst w)\<lparr>a_reps := (a_reps (abst w))(v := (a_reps (abst w) v)(r := None))\<rparr>)
    (\<lambda>_ w'. \<not> up w \<and> wfs w' \<and> (abst w' = abst w \<or> abst w' = (abst w)\<lparr>a_reps := (a_reps (abst w))(v := (a_reps (abst w) v)(r := None))\<rparr>)) w"
proof -
  have "kv_deletable pre ok (rep_key pre v r)" using assms by (simp add: kv_deletable.doc kv_file.rep)
  from delete_step [OF assms(1) this] show ?thesis
    using assms by (auto simp: DeleteVolumeReplica_def wp_simps abs_of_del_rep elim!: wp_mono)
qed

lemmas DeleteVolumeReplica_wp = DeleteVolumeReplica_either [THEN wp_drop]

lemma DeleteVolume_either:
  assumes "wfs w" and "ok v"
  shows "wp (DeleteVolume s v)
    (\<lambda>_ w'. stays binv up w w' \<and> kv_wf pre (view w') \<and>
       a_base (abst w') = (a_base (abst w))(v := None) \<and>
       (\<forall>v'. v' \<noteq> v \<longrightarrow> a_ctrl (abst w') v' = a_ctrl (abst w) v' \<and> a_reps (abst w') v' = a_reps (abst w) v') \<and>
       a_hosts (abst w') = a_hosts (abst w) \<and> a_settings (abst w') = a_settings (abst w))
    (\<lambda>_ w'. \<not> up w \<and> wfs w' \<and> (abst w' = abst w \<or>
       a_base (abst w') = (a_base (abst w))(v := None) \<and>
       (\<forall>v'. v' \<noteq> v \<longrightarrow> a_ctrl (abst w') v' = a_ctrl (abst w) v' \<and> a_reps (abst w') v' = a_reps (abst w) v') \<and>
       a_hosts (abst w') = a_hosts (abst w) \<and> a_settings (abst w') = a_settings (abst w))) w"
proof -
  have "kv_deletable pre ok (vol_root pre v)" using assms by (simp add: kv_deletable.root)
  from delete_step [OF assms(1) this] show ?thesis
    using assms by (auto simp: DeleteVolume_def wp_simps abs_of_del_root elim!: wp_mono)
qed

lemma DeleteVolume_sub:
  assumes "wfs w" and "ok v"
  shows "wp (DeleteVolume s v)
    (\<lambda>_ w'. a_base (abst w') \<subseteq>\<^sub>m a_base (abst w) \<and> a_ctrl (abst w') \<subseteq>\<^sub>m a_ctrl (abst w) \<and> (\<forall>v. a_reps (abst w') v \<subseteq>\<^sub>m a_reps (abst w) v))
    (\<lambda>_ w'. a_base (abst w') \<subseteq>\<^sub>m a_base (abst w) \<and> a_ctrl (abst w') \<subseteq>\<^sub>m a_ctrl (abst w) \<and> (\<forall>v. a_reps (abst w') v \<subseteq>\<^sub>m a_reps (abst w) v)) w"
proof -
  have "kv_deletable pre ok (vol_root pre v)" "binv w" using assms by (simp_all add: kv_deletable.root)
  from delete_wp [OF this(2,1)] show ?thesis
    using assms by (auto simp: DeleteVolume_def wp_simps abs_of_sub del_specD(4) elim!: wp_mono)
qed

lemmas DeleteVolume_wp = DeleteVolume_either [THEN wp_drop]

subsection \<open>Reading\<close>

text \<open>Reading changes nothing and, in a well-formed tree of a backend that is up, succeeds.\<close>

lemma getByKey_wp:
  assumes w: "binv w" and f: "kv_file pre ok cs" and d: "\<And>j. view w cs = Some j \<Longrightarrow> dec j \<noteq> None"
  shows "wp (getByKey s (path cs) dec)
    (\<lambda>r w'. stays binv up w w' \<and> view w' = view w \<and> r = Option.bind (view w cs) dec)
    (\<lambda>_ w'. \<not> up w \<and> binv w' \<and> view w' = view w) w"
  unfolding getByKey_def kv_Get_def wp_attempt wp_tryE s_backend
  by (rule wp_mono [OF get_wp [OF w f]])
    (use d in \<open>auto simp: wp_simps wrap_found split: option.splits if_splits\<close>)

lemma getHostByKey_wp:
  assumes "wfs w" and "ok h"
  shows "wp (getHostByKey s (path (host_key pre h)))
    (\<lambda>r w'. stays binv up w w' \<and> view w' = view w \<and> r = a_hosts (abst w) h)
    (\<lambda>_ w'. \<not> up w \<and> binv w' \<and> view w' = view w) w"
  unfolding getHostByKey_def
  by (rule wp_mono [OF getByKey_wp])
    (use assms in \<open>auto simp: abs_of_def dest: kv_wfD(2) intro: kv_file.host\<close>)

lemma GetHost_wp:
  assumes "wfs w" and "ok h"
  shows "wp (GetHost s h)
    (\<lambda>r w'. stays binv up w w' \<and> view w' = view w \<and> r = a_hosts (abst w) h)
    (\<lambda>_ w'. \<not> up w \<and> binv w' \<and> view w' = view w) w"
  unfolding GetHost_def wp_tryE
  using getHostByKey_wp [OF assms] assms by (auto simp: wp_simps elim!: wp_mono)

lemma GetSettings_wp:
  assumes "wfs w"
  shows "wp (GetSettings s)
    (\<lambda>r w'. stays binv up w w' \<and> view w' = view w \<and> r = a_settings (abst w))
    (\<lambda>_ w'. \<not> up w \<and> binv w' \<and> view w' = view w) w"
  unfolding GetSettings_def kv_Get_def wp_attempt wp_tryE store_keys s_backend
  by (rule wp_mono [OF get_wp [OF _ kv_file.settings]])
    (use assms in \<open>auto simp: wp_simps wrap_found abs_of_def dest: kv_wfD(1) split: option.splits if_splits\<close>)

lemma a_base_bare:
  "wfs w \<Longrightarrow> a_base (abst w) v = Some x \<Longrightarrow> v_Controller x = None \<and> v_Replicas x = None \<and> v_Name x = v"
  by (fastforce simp: abs_of_def bind_eq_Some_conv dest: kv_wfD(3))

lemma getVolumeBaseByKey_wp:
  assumes "wfs w" and "ok v"
  shows "wp (getVolumeBaseByKey s (path (base_key pre v)))
    (\<lambda>r w'. stays binv up w w' \<and> view w' = view w \<and> r = a_base (abst w) v)
    (\<lambda>_ w'. \<not> up w \<and> binv w' \<and> view w' = view w) w"
proof -
  have "wp (getByKey s (path (base_key pre v)) dec_VolumeInfo)
    (\<lambda>r w'. stays binv up w w' \<and> view w' = view w \<and> r = Option.bind (view w (base_key pre v)) dec_VolumeInfo)
    (\<lambda>_ w'. \<not> up w \<and> binv w' \<and> view w' = view w) w"
    using assms by (intro getByKey_wp) (auto intro: kv_file.base dest: kv_wfD(3))
  then have "wp (getByKey s (path (base_key pre v)) dec_VolumeInfo)
    (\<lambda>r w'. stays binv up w w' \<and> view w' = view w \<and> r = a_base (abst w) v)
    (\<lambda>_ w'. \<not> up w \<and> binv w' \<and> view w' = view w) w"
    by (simp add: abs_of_def)
  then show ?thesis
    unfolding getVolumeBaseByKey_def wp_tryE
    by (rule wp_mono) (use assms a_base_bare [of w v] in \<open>auto simp: wp_simps split: option.split\<close>)
qed

lemma GetVolumeBase_wp:
  assumes "wfs w" and "ok v"
  shows "wp (GetVolumeBase s v)
    (\<lambda>r w'. stays binv up w w' \<and> view w' = view w \<and> r = a_base (abst w) v)
    (\<lambda>_ w'. \<not> up w \<and> binv w' \<and> view w' = view w) w"
  unfolding GetVolumeBase_def wp_tryE
  using getVolumeBaseByKey_wp [OF assms] assms by (auto simp: wp_simps elim!: wp_mono)

lemma getVolumeControllerByKey_wp:
  assumes "wfs w" and "ok v"
  shows "wp (getVolumeControllerByKey s (path (ctrl_key pre v)))
    (\<lambda>r w'. stays binv up w w' \<and> view w' = view w \<and> r = a_ctrl (abst w) v)
    (\<lambda>_ w'. \<not> up w \<and> binv w' \<and> view w' = view w) w"
  unfolding getVolumeControllerByKey_def
  by (rule wp_mono [OF getByKey_wp])
    (use assms in \<open>auto simp: abs_of_def dest: kv_wfD(4) intro: kv_file.ctrl\<close>)

lemma GetVolumeController_wp:
  assumes "wfs w" and "ok v"
  shows "wp (GetVolumeController s v)
    (\<lambda>r w'. stays binv up w w' \<and> view w' = view w \<and> r = a_ctrl (abst w) v)
    (\<lambda>_ w'. \<not> up w \<and> binv w' \<and> view w' = view w) w"
  unfolding GetVolumeController_def wp_tryE
  using getVolumeControllerByKey_wp [OF assms] assms by (auto simp: wp_simps elim!: wp_mono)

lemma getVolumeReplicaByKey_wp:
  assumes "wfs w" and "ok v" and "ok r"
  shows "wp (getVolumeReplicaByKey s (path (rep_key pre v r)))
    (\<lambda>x w'. stays binv up w w' \<and> view w' = view w \<and> x = a_reps (abst w) v r)
    (\<lambda>_ w'. \<not> up w \<and> binv w' \<and> view w' = view w) w"
  unfolding getVolumeReplicaByKey_def
  by (rule wp_mono [OF getByKey_wp])
    (use assms in \<open>auto simp: abs_of_def dest: kv_wfD(5) intro: kv_file.rep\<close>)

lemma GetVolumeReplica_wp:
  assumes "wfs w" and "ok v" and "ok r"
  shows "wp (GetVolumeReplica s v r)
    (\<lambda>x w'. stays binv up w w' \<and> view w' = view w \<and> x = a_reps (abst w) v r)
    (\<lambda>_ w'. \<not> up w \<and> binv w' \<and> view w' = view w) w"
  unfolding GetVolumeReplica_def wp_tryE
  using getVolumeReplicaByKey_wp [OF assms] assms by (auto simp: wp_simps elim!: wp_mono)

lemma a_reps_name: "wfs w \<Longrightarrow> a_reps (abst w) v r = Some x \<Longrightarrow> i_Name (r_InstanceInfo x) = r"
  by (fastforce simp: abs_of_def bind_eq_Some_conv dest: kv_wfD(5))

lemma a_hosts_name: "wfs w \<Longrightarrow> a_hosts (abst w) h = Some x \<Longrightarrow> h_UUID x = h"
  by (fastforce simp: abs_of_def bind_eq_Some_conv dest: kv_wfD(2))

subsection \<open>Listing and whole volumes\<close>

lemma getVolumeReplicas_loop_wp:
  assumes "wfs w" and "ok v" and "\<forall>n \<in> set ns. ok n" and "distinct (map fst acc)"
  shows "wp (getVolumeReplicas_loop s (map (\<lambda>n. path (rep_key pre v n)) ns) acc)
    (\<lambda>r w'. stays binv up w w' \<and> view w' = view w \<and> distinct (map fst r) \<and>
       map_of r = over (set ns) (a_reps (abst w) v) (map_of acc))
    (\<lambda>_ w'. \<not> up w \<and> binv w' \<and> view w' = view w) w"
  using assms
proof (induction ns arbitrary: acc w)
  case Nil
  then show ?case by (simp add: wp_simps stays_refl)
next
  case (Cons n ns)
  show ?case
    unfolding list.map getVolumeReplicas_loop.simps wp_tryE
  proof (rule wp_mono [OF getVolumeReplicaByKey_wp])
    fix x w'
    assume x: "stays binv up w w' \<and> view w' = view w \<and> x = a_reps (abst w) v n"
    let ?acc = "case x of None \<Rightarrow> acc | Some r \<Rightarrow> AList.update (i_Name (r_InstanceInfo r)) r acc"
    have acc: "map_of ?acc = (\<lambda>k. if k = n \<and> a_reps (abst w) v n \<noteq> None then a_reps (abst w) v n else map_of acc k)"
      using x a_reps_name [of w v n] Cons.prems(1) by (auto split: option.split)
    have "distinct (map fst ?acc)" using Cons.prems(4) by (auto split: option.split)
    with x Cons.prems have "wp (getVolumeReplicas_loop s (map (\<lambda>n. path (rep_key pre v n)) ns) ?acc)
      (\<lambda>r w''. stays binv up w' w'' \<and> view w'' = view w' \<and> distinct (map fst r) \<and>
         map_of r = over (set ns) (a_reps (abst w') v) (map_of ?acc))
      (\<lambda>_ w''. \<not> up w' \<and> binv w'' \<and> view w'' = view w') w'"
      by (intro Cons.IH) (auto dest: stays_inv)
    then show "wp (getVolumeReplicas_loop s (map (\<lambda>n. path (rep_key pre v n)) ns) ?acc)
      (\<lambda>r w'. stays binv up w w' \<and> view w' = view w \<and> distinct (map fst r) \<and>
         map_of r = over (set (n # ns)) (a_reps (abst w) v) (map_of acc))
      (\<lambda>_ w'. \<not> up w \<and> binv w' \<and> view w' = view w) w'"
      unfolding acc by (rule wp_mono) (use x in \<open>auto simp: over_insert stays_def\<close>)
  qed (use Cons.prems in auto)
qed

lemma a_reps_child: "dom (a_reps (abst w) v) \<subseteq> child_names (view w) (reps_dir pre v)"
  by (force simp: abs_of_def child_names_def layout_defs bind_eq_Some_conv)

lemma getVolumeReplicasByKey_wp:
  assumes "wfs w" and "ok v"
  shows "wp (getVolumeReplicasByKey s (path (reps_dir pre v)))
    (\<lambda>r w'. stays binv up w w' \<and> view w' = view w \<and> distinct (map fst r) \<and> map_of r = a_reps (abst w) v)
    (\<lambda>_ w'. \<not> up w \<and> binv w' \<and> view w' = view w) w"
  unfolding getVolumeReplicasByKey_def wp_tryE s_backend
proof (rule wp_mono [OF keys_wp])
  show "binv w" "kv_listdir pre ok (reps_dir pre v)" using assms by (auto intro: kv_listdir.reps)
next
  fix ks w'
  assume ks: "stays binv up w w' \<and> view w' = view w \<and> (\<exists>ns. ks = map (\<lambda>n. path (reps_dir pre v @ [n])) ns \<and>
    distinct ns \<and> (\<forall>n \<in> set ns. ok n) \<and> child_names (view w) (reps_dir pre v) \<subseteq> set ns)"
  then obtain ns where ns: "ks = map (\<lambda>n. path (rep_key pre v n)) ns" "\<forall>n \<in> set ns. ok n"
    "child_names (view w) (reps_dir pre v) \<subseteq> set ns" by auto
  have abs: "over (set ns) (a_reps (abst w') v) (map_of []) = a_reps (abst w) v"
    using ns(3) a_reps_child [of w v] ks over_all [of "a_reps (abst w) v" "set ns"] by auto
  have "wp (getVolumeReplicas_loop s ks [])
    (\<lambda>r w''. stays binv up w' w'' \<and> view w'' = view w' \<and> distinct (map fst r) \<and>
       map_of r = over (set ns) (a_reps (abst w') v) (map_of []))
    (\<lambda>_ w''. \<not> up w' \<and> binv w'' \<and> view w'' = view w') w'"
    unfolding ns(1) using assms ks ns(2) by (intro getVolumeReplicas_loop_wp) (auto dest: stays_inv)
  then show "wp (getVolumeReplicas_loop s ks [])
    (\<lambda>r w'. stays binv up w w' \<and> view w' = view w \<and> distinct (map fst r) \<and> map_of r = a_reps (abst w) v)
    (\<lambda>_ w'. \<not> up w \<and> binv w' \<and> view w' = view w) w'"
    unfolding abs by (rule wp_mono) (use ks in \<open>auto simp: stays_def\<close>)
qed auto

lemma getVolumeByKey_wp:
  assumes "wfs w" and "ok v"
  shows "wp (getVolumeByKey s (path (vol_root pre v)))
    (\<lambda>r w'. stays binv up w w' \<and> view w' = view w \<and> vol_matches (abst w) v r)
    (\<lambda>_ w'. \<not> up w \<and> binv w' \<and> view w' = view w) w"
  unfolding getVolumeByKey_def Let_def wp_tryE volume_keys store_keys(6-8) [OF assms(2)]
proof (rule wp_mono [OF getVolumeBaseByKey_wp [OF assms]])
  fix x w1
  assume x: "stays binv up w w1 \<and> view w1 = view w \<and> x = a_base (abst w) v"
  have w1: "wfs w1" using x assms by (auto dest: stays_inv)
  show "wp (case x of None \<Rightarrow> ret None
      | Some volume \<Rightarrow> tryE (getVolumeControllerByKey s (path (ctrl_key pre v))) id (\<lambda>controller.
          tryE (getVolumeReplicasByKey s (path (reps_dir pre v))) id (\<lambda>replicas.
          ret (Some (volume\<lparr>v_Controller := controller,
            v_Replicas := (if replicas \<noteq> [] then Some replicas else None)\<rparr>)))))
    (\<lambda>r w'. stays binv up w w' \<and> view w' = view w \<and> vol_matches (abst w) v r)
    (\<lambda>_ w'. \<not> up w \<and> binv w' \<and> view w' = view w) w1"
  proof (cases x)
    case None
    with x show ?thesis by (auto simp: wp_simps vol_matches_def split: option.split)
  next
    case (Some y)
    have y: "v_Controller y = None" "v_Replicas y = None" "a_base (abst w) v = Some y"
      using a_base_bare [of w v y] assms x Some by auto
    show ?thesis
      unfolding Some option.case wp_tryE
    proof (rule wp_mono [OF getVolumeControllerByKey_wp [OF w1 assms(2)]])
      fix c w2
      assume c: "stays binv up w1 w2 \<and> view w2 = view w1 \<and> c = a_ctrl (abst w1) v"
      have w2: "wfs w2" using c w1 by (auto dest: stays_inv)
      show "wp (getVolumeReplicasByKey s (path (reps_dir pre v)))
         (\<lambda>rs. wp (ret (Some (y\<lparr>v_Controller := c, v_Replicas := (if rs \<noteq> [] then Some rs else None)\<rparr>)))
            (\<lambda>r w'. stays binv up w w' \<and> view w' = view w \<and> vol_matches (abst w) v r)
            (\<lambda>_ w'. \<not> up w \<and> binv w' \<and> view w' = view w))
         (\<lambda>e w'. \<not> up w \<and> binv w' \<and> view w' = view w) w2"
        by (rule wp_mono [OF getVolumeReplicasByKey_wp [OF w2 assms(2)]])
          (use x c y in \<open>auto simp: wp_simps vol_matches_def replicas_of_def stays_def\<close>)
    qed (use x in \<open>auto simp: stays_def\<close>)
  qed
qed simp

lemma GetVolume_wp:
  assumes "wfs w" and "ok v"
  shows "wp (GetVolume s v)
    (\<lambda>r w'. stays binv up w w' \<and> view w' = view w \<and> vol_matches (abst w) v r)
    (\<lambda>_ w'. \<not> up w \<and> binv w' \<and> view w' = view w) w"
  unfolding GetVolume_def wp_tryE
  using getVolumeByKey_wp [OF assms] assms by (auto simp: wp_simps elim!: wp_mono)

lemma vol_matches_name:
  assumes "wfs w" and "vol_matches (abst w) v (Some x)"
  shows "v_Name x = v"
proof -
  obtain y where y: "a_base (abst w) v = Some y" "x\<lparr>v_Controller := None, v_Replicas := None\<rparr> = y"
    using assms by (auto simp: vol_matches_def split: option.splits)
  have "v_Name (x\<lparr>v_Controller := None, v_Replicas := None\<rparr>) = v"
    using a_base_bare [OF assms(1) y(1)] y(2) by simp
  then show ?thesis by simp
qed

lemma ListVolumes_loop_wp:
  assumes "wfs w" and "\<forall>n \<in> set ns. ok n"
  shows "wp (ListVolumes_loop s (map (\<lambda>n. path (vol_root pre n)) ns) acc)
    (\<lambda>r w'. stays binv up w w' \<and> view w' = view w \<and>
       (\<exists>xs. r = acc @ xs \<and> map v_Name xs = filter (\<lambda>n. a_base (abst w) n \<noteq> None) ns \<and>
          (\<forall>x \<in> set xs. vol_matches (abst w) (v_Name x) (Some x))))
    (\<lambda>_ w'. \<not> up w \<and> binv w' \<and> view w' = view w) w"
  using assms
proof (induction ns arbitrary: acc w)
  case Nil
  then show ?case by (simp add: wp_simps stays_refl)
next
  case (Cons n ns)
  show ?case
    unfolding list.map ListVolumes_loop.simps wp_tryE
  proof (rule wp_mono [OF getVolumeByKey_wp])
    fix x w'
    assume x: "stays binv up w w' \<and> view w' = view w \<and> vol_matches (abst w) n x"
    have name: "x = Some y \<Longrightarrow> v_Name y = n" for y using x vol_matches_name Cons.prems(1) by auto
    have "x = None \<longleftrightarrow> a_base (abst w) n = None"
      using x by (auto simp: vol_matches_def split: option.splits)
    moreover have "wp (ListVolumes_loop s (map (\<lambda>n. path (vol_root pre n)) ns)
        (case x of None \<Rightarrow> acc | Some volume \<Rightarrow> acc @ [volume]))
      (\<lambda>r w''. stays binv up w' w'' \<and> view w'' = view w' \<and>
         (\<exists>xs. r = (case x of None \<Rightarrow> acc | Some volume \<Rightarrow> acc @ [volume]) @ xs \<and>
            map v_Name xs = filter (\<lambda>n. a_base (abst w') n \<noteq> None) ns \<and>
            (\<forall>x \<in> set xs. vol_matches (abst w') (v_Name x) (Some x))))
      (\<lambda>_ w''. \<not> up w' \<and> binv w'' \<and> view w'' = view w') w'"
      using x Cons.prems by (intro Cons.IH) (auto dest: stays_inv)
    ultimately show "wp (ListVolumes_loop s (map (\<lambda>n. path (vol_root pre n)) ns)
        (case x of None \<Rightarrow> acc | Some volume \<Rightarrow> acc @ [volume]))
      (\<lambda>r w'. stays binv up w w' \<and> view w' = view w \<and>
         (\<exists>xs. r = acc @ xs \<and> map v_Name xs = filter (\<lambda>n. a_base (abst w) n \<noteq> None) (n # ns) \<and>
            (\<forall>x \<in> set xs. vol_matches (abst w) (v_Name x) (Some x))))
      (\<lambda>_ w'. \<not> up w \<and> binv w' \<and> view w' = view w) w'"
      by (elim wp_mono) (use x name in \<open>cases x; force simp: stays_def\<close>)+
  qed (use Cons.prems in auto)
qed

lemma a_base_child: "dom (a_base (abst w)) \<subseteq> child_names (view w) (vols_dir pre)"
  by (force simp: abs_of_def child_names_def layout_defs bind_eq_Some_conv)

lemma ListVolumes_wp:
  assumes "wfs w"
  shows "wp (ListVolumes s)
    (\<lambda>r w'. stays binv up w w' \<and> view w' = view w \<and> list_matches (abst w) r)
    (\<lambda>_ w'. \<not> up w \<and> binv w' \<and> view w' = view w) w"
  unfolding ListVolumes_def wp_tryE s_backend store_keys
proof (rule wp_mono [OF keys_wp])
  show "binv w" "kv_listdir pre ok (vols_dir pre)" using assms by (auto intro: kv_listdir.vols)
next
  fix ks w'
  assume ks: "stays binv up w w' \<and> view w' = view w \<and> (\<exists>ns. ks = map (\<lambda>n. path (vols_dir pre @ [n])) ns \<and>
    distinct ns \<and> (\<forall>n \<in> set ns. ok n) \<and> child_names (view w) (vols_dir pre) \<subseteq> set ns)"
  then obtain ns where ns: "ks = map (\<lambda>n. path (vol_root pre n)) ns" "\<forall>n \<in> set ns. ok n" "distinct ns"
    "child_names (view w) (vols_dir pre) \<subseteq> set ns" by auto
  have names: "list_matches (abst w) xs" if "map v_Name xs = filter (\<lambda>n. a_base (abst w) n \<noteq> None) ns"
    "\<forall>x \<in> set xs. vol_matches (abst w) (v_Name x) (Some x)" for xs
  proof -
    have "v_Name ` set xs = set (filter (\<lambda>n. a_base (abst w) n \<noteq> None) ns)"
      using that(1) by (metis list.set_map)
    also have "\<dots> = dom (a_base (abst w))" using ns(4) a_base_child [of w] by auto
    finally show ?thesis using that ns(3) by (simp add: list_matches_def)
  qed
  have "wp (ListVolumes_loop s ks [])
    (\<lambda>r w''. stays binv up w' w'' \<and> view w'' = view w' \<and>
       (\<exists>xs. r = [] @ xs \<and> map v_Name xs = filter (\<lambda>n. a_base (abst w') n \<noteq> None) ns \<and>
          (\<forall>x \<in> set xs. vol_matches (abst w') (v_Name x) (Some x))))
    (\<lambda>_ w''. \<not> up w' \<and> binv w'' \<and> view w'' = view w') w'"
    unfolding ns(1) using assms ks ns(2) by (intro ListVolumes_loop_wp) (auto dest: stays_inv)
  then show "wp (ListVolumes_loop s ks [])
    (\<lambda>r w'. stays binv up w w' \<and> view w' = view w \<and> list_matches (abst w) r)
    (\<lambda>_ w'. \<not> up w \<and> binv w' \<and> view w' = view w) w'"
    by (rule wp_mono) (use ks names in \<open>auto simp: stays_def\<close>)
qed auto

lemma ListHosts_loop_wp:
  assumes "wfs w" and "\<forall>n \<in> set ns. ok n" and "distinct (map fst acc)"
  shows "wp (ListHosts_loop s (map (\<lambda>n. path (host_key pre n)) ns) acc)
    (\<lambda>r w'. stays binv up w w' \<and> view w' = view w \<and> distinct (map fst r) \<and>
       map_of r = over (set ns) (a_hosts (abst w)) (map_of acc))
    (\<lambda>_ w'. \<not> up w \<and> binv w' \<and> view w' = view w) w"
  using assms
proof (induction ns arbitrary: acc w)
  case Nil
  then show ?case by (simp add: wp_simps stays_refl)
next
  case (Cons n ns)
  show ?case
    unfolding list.map ListHosts_loop.simps wp_tryE
  proof (rule wp_mono [OF getHostByKey_wp])
    fix x w'
    assume x: "stays binv up w w' \<and> view w' = view w \<and> x = a_hosts (abst w) n"
    let ?acc = "case x of None \<Rightarrow> acc | Some h \<Rightarrow> AList.update (h_UUID h) h acc"
    have acc: "map_of ?acc = (\<lambda>k. if k = n \<and> a_hosts (abst w) n \<noteq> None then a_hosts (abst w) n else map_of acc k)"
      using x a_hosts_name [of w n] Cons.prems(1) by (auto split: option.split)
    have "distinct (map fst ?acc)" using Cons.prems(3) by (auto split: option.split)
    with x Cons.prems have "wp (ListHosts_loop s (map (\<lambda>n. path (host_key pre n)) ns) ?acc)
      (\<lambda>r w''. stays binv up w' w'' \<and> view w'' = view w' \<and> distinct (map fst r) \<and>
         map_of r = over (set ns) (a_hosts (abst w')) (map_of ?acc))
      (\<lambda>_ w''. \<not> up w' \<and> binv w'' \<and> view w'' = view w') w'"
      by (intro Cons.IH) (auto dest: stays_inv)
    then show "wp (ListHosts_loop s (map (\<lambda>n. path (host_key pre n)) ns) ?acc)
      (\<lambda>r w'. stays binv up w w' \<and> view w' = view w \<and> distinct (map fst r) \<and>
         map_of r = over (set (n # ns)) (a_hosts (abst w)) (map_of acc))
      (\<lambda>_ w'. \<not> up w \<and> binv w' \<and> view w' = view w) w'"
      unfolding acc by (rule wp_mono) (use x in \<open>auto simp: over_insert stays_def\<close>)
  qed (use Cons.prems in auto)
qed

lemma a_hosts_child: "dom (a_hosts (abst w)) \<subseteq> child_names (view w) (hosts_dir pre)"
  by (force simp: abs_of_def child_names_def layout_defs bind_eq_Some_conv)

lemma ListHosts_wp:
  assumes "wfs w"
  shows "wp (ListHosts s)
    (\<lambda>r w'. stays binv up w w' \<and> view w' = view w \<and> distinct (map fst r) \<and> map_of r = a_hosts (abst w))
    (\<lambda>_ w'. \<not> up w \<and> binv w' \<and> view w' = view w) w"
  unfolding ListHosts_def wp_tryE s_backend store_keys
proof (rule wp_mono [OF keys_wp])
  show "binv w" "kv_listdir pre ok (hosts_dir pre)" using assms by (auto intro: kv_listdir.hosts)
next
  fix ks w'
  assume ks: "stays binv up w w' \<and> view w' = view w \<and> (\<exists>ns. ks = map (\<lambda>n. path (hosts_dir pre @ [n])) ns \<and>
    distinct ns \<and> (\<forall>n \<in> set ns. ok n) \<and> child_names (view w) (hosts_dir pre) \<subseteq> set ns)"
  then obtain ns where ns: "ks = map (\<lambda>n. path (host_key pre n)) ns" "\<forall>n \<in> set ns. ok n"
    "child_names (view w) (hosts_dir pre) \<subseteq> set ns" by auto
  have abs: "over (set ns) (a_hosts (abst w')) (map_of []) = a_hosts (abst w)"
    using ns(3) a_hosts_child [of w] ks over_all [of "a_hosts (abst w)" "set ns"] by auto
  have "wp (ListHosts_loop s ks [])
    (\<lambda>r w''. stays binv up w' w'' \<and> view w'' = view w' \<and> distinct (map fst r) \<and>
       map_of r = over (set ns) (a_hosts (abst w')) (map_of []))
    (\<lambda>_ w''. \<not> up w' \<and> binv w'' \<and> view w'' = view w') w'"
    unfolding ns(1) using assms ks ns(2) by (intro ListHosts_loop_wp) (auto dest: stays_inv)
  then show "wp (ListHosts_loop s ks [])
    (\<lambda>r w'. stays binv up w w' \<and> view w' = view w \<and> distinct (map fst r) \<and> map_of r = a_hosts (abst w))
    (\<lambda>_ w'. \<not> up w \<and> binv w' \<and> view w' = view w) w'"
    unfolding abs by (rule wp_mono) (use ks in \<open>auto simp: stays_def\<close>)
qed auto

lemma SetVolumeReplicas_wp:
  assumes "wfs w" and "ok v" and "distinct (map fst rs)"
    and "\<forall>(k, r) \<in> set rs. ok k \<and> i_Name (r_InstanceInfo r) = k \<and> i_VolumeName (r_InstanceInfo r) = v"
  shows "wp (SetVolumeReplicas s rs)
    (\<lambda>_ w'. stays binv up w w' \<and> kv_wf pre (view w') \<and>
       abst w' = (abst w)\<lparr>a_reps := (a_reps (abst w))(v := a_reps (abst w) v ++ map_of rs)\<rparr>)
    (\<lambda>_ w'. \<not> up w \<and> wfs w') w"
  using assms unfolding SetVolumeReplicas_def
proof (induction rs arbitrary: w)
  case Nil
  then show ?case by (simp add: wp_simps stays_refl)
next
  case (Cons kr rs)
  obtain k r where kr: "kr = (k, r)" by fastforce
  have r: "ok k" "i_Name (r_InstanceInfo r) = k" "i_VolumeName (r_InstanceInfo r) = v"
    using Cons.prems(4) kr by auto
  let ?f = "\<lambda>(k, r). tryE (SetVolumeReplica s r) (wrap ''unable to set volume's replicas'') ret"
  have step: "wp (SetVolumeReplica s r)
    (\<lambda>_ w'. stays binv up w w' \<and> kv_wf pre (view w') \<and>
       abst w' = (abst w)\<lparr>a_reps := (a_reps (abst w))(v := (a_reps (abst w) v)(k \<mapsto> r))\<rparr>)
    (\<lambda>_ w'. \<not> up w \<and> wfs w') w"
    using SetVolumeReplica_wp [of w r] r Cons.prems(1,2) by simp
  show ?case
    unfolding kr forE.simps prod.case wp_tryE
  proof (rule wp_mono [OF step])
    fix u w1
    assume w1: "stays binv up w w1 \<and> kv_wf pre (view w1) \<and>
       abst w1 = (abst w)\<lparr>a_reps := (a_reps (abst w))(v := (a_reps (abst w) v)(k \<mapsto> r))\<rparr>"
    have "wp (forE ?f rs)
      (\<lambda>_ w'. stays binv up w1 w' \<and> kv_wf pre (view w') \<and>
         abst w' = (abst w1)\<lparr>a_reps := (a_reps (abst w1))(v := a_reps (abst w1) v ++ map_of rs)\<rparr>)
      (\<lambda>_ w'. \<not> up w1 \<and> wfs w') w1"
      using w1 Cons.prems by (intro Cons.IH) (auto dest: stays_inv)
    moreover have "k \<notin> dom (map_of rs)" using Cons.prems(3) kr by (simp add: dom_map_of_conv_image_fst)
    ultimately show "wp (ret u)
        (\<lambda>_. wp (forE ?f rs)
          (\<lambda>_ w'. stays binv up w w' \<and> kv_wf pre (view w') \<and>
             abst w' = (abst w)\<lparr>a_reps := (a_reps (abst w))(v := a_reps (abst w) v ++ map_of ((k, r) # rs))\<rparr>)
          (\<lambda>e w'. \<not> up w \<and> wfs w'))
        (\<lambda>e w'. \<not> up w \<and> wfs w') w1"
      unfolding wp_ret by (elim wp_mono) (use w1 in \<open>auto simp: stays_def map_add_upd_left\<close>)
  qed simp
qed

text \<open>Storing a volume replaces what the store held under its name.\<close>

lemma SetVolume_wp:
  assumes "wfs w" and "volume_ok ok v"
  shows "wp (SetVolume s v)
    (\<lambda>_ w'. stays binv up w w' \<and> kv_wf pre (view w') \<and> abst w' = (abst w)\<lparr>
       a_base := (a_base (abst w))(v_Name v \<mapsto> v\<lparr>v_Controller := None, v_Replicas := None\<rparr>),
       a_ctrl := (a_ctrl (abst w))(v_Name v := v_Controller v),
       a_reps := (a_reps (abst w))(v_Name v := map_of (replicas_of v))\<rparr>)
    (\<lambda>_ w'. \<not> up w \<and> wfs w') w"
proof -
  let ?n = "v_Name v"
  have ok: "ok ?n" "volume_ints_ok v" using assms(2) by (simp_all add: volume_ok_def)
  have ctrl: "wp (case v_Controller v of None \<Rightarrow> ret () | Some c \<Rightarrow> SetVolumeController s c)
      (\<lambda>_ w'. stays binv up u w' \<and> kv_wf pre (view w') \<and>
         abst w' = (abst u)\<lparr>a_ctrl := (a_ctrl (abst u))(?n := v_Controller v)\<rparr>)
      (\<lambda>_ w'. \<not> up u \<and> wfs w') u" if "wfs u" "a_ctrl (abst u) ?n = None" for u
    using that assms(2) SetVolumeController_wp [of u "the (v_Controller v)"]
    by (auto simp: volume_ok_def wp_simps stays_refl fun_upd_idem split: option.split)
  have reps: "wp (case v_Replicas v of None \<Rightarrow> ret () | Some rs \<Rightarrow> SetVolumeReplicas s rs)
      (\<lambda>_ w'. stays binv up u w' \<and> kv_wf pre (view w') \<and>
         abst w' = (abst u)\<lparr>a_reps := (a_reps (abst u))(?n := map_of (replicas_of v))\<rparr>)
      (\<lambda>_ w'. \<not> up u \<and> wfs w') u" if "wfs u" "a_reps (abst u) ?n = Map.empty" for u
    using that assms(2) SetVolumeReplicas_wp [of u ?n "the (v_Replicas v)"]
    by (cases "v_Replicas v") (simp_all add: volume_ok_def replicas_of_def wp_simps stays_refl fun_upd_idem)
  show ?thesis
    unfolding SetVolume_def wp_tryE id_apply wp_ret
    apply (rule wp_mono [OF SetVolumeBase_wp [OF assms(1) ok]])
     apply (rule wp_mono [OF DeleteVolumeController_wp [OF _ ok(1)]])
       apply (blast dest: stays_inv)
      apply (rule wp_mono [OF ctrl])
         apply (force dest: stays_inv)
        apply force
       apply (rule wp_mono [OF DeleteVolumeReplicas_wp [OF _ ok(1)]])
         apply (blast dest: stays_inv)
        apply (rule wp_mono [OF reps])
           apply (force dest: stays_inv)
          apply force
         apply (force simp: stays_def)
        apply (force simp: stays_def)+
    done
qed

lemma vol_matches_same:
  assumes "vol_matches a n r" and "a_base a n = Some (v\<lparr>v_Controller := None, v_Replicas := None\<rparr>)"
    and "a_ctrl a n = v_Controller v" and "a_reps a n = map_of (replicas_of v)"
  shows "\<exists>v'. r = Some v' \<and> same_volume v' v"
proof -
  obtain v' where v': "r = Some v'" "v'\<lparr>v_Controller := None, v_Replicas := None\<rparr> =
      v\<lparr>v_Controller := None, v_Replicas := None\<rparr>" "v_Controller v' = v_Controller v"
      "map_of (replicas_of v') = map_of (replicas_of v)"
    using assms by (auto simp: vol_matches_def split: option.splits)
  have "v'\<lparr>v_Replicas := None\<rparr> = v\<lparr>v_Replicas := None\<rparr>"
    using v'(2,3) by (cases v'; cases v) simp
  with v' show ?thesis by (simp add: same_volume_def)
qed

lemma SetVolume_GetVolume:
  assumes "wfs w" and "volume_ok ok v"
  shows "wp (tryE (SetVolume s v) id (\<lambda>_. GetVolume s (v_Name v)))
    (\<lambda>r w'. stays binv up w w' \<and> kv_wf pre (view w') \<and> (\<exists>v'. r = Some v' \<and> same_volume v' v))
    (\<lambda>_ w'. \<not> up w \<and> wfs w') w"
  unfolding wp_tryE
proof (rule wp_mono [OF SetVolume_wp [OF assms]])
  fix u w1
  assume w1: "stays binv up w w1 \<and> kv_wf pre (view w1) \<and> abst w1 = (abst w)\<lparr>
       a_base := (a_base (abst w))(v_Name v \<mapsto> v\<lparr>v_Controller := None, v_Replicas := None\<rparr>),
       a_ctrl := (a_ctrl (abst w))(v_Name v := v_Controller v),
       a_reps := (a_reps (abst w))(v_Name v := map_of (replicas_of v))\<rparr>"
  have "wfs w1" "ok (v_Name v)" using w1 assms by (auto simp: volume_ok_def dest: stays_inv)
  from GetVolume_wp [OF this] show "wp (GetVolume s (v_Name v))
    (\<lambda>r w'. stays binv up w w' \<and> kv_wf pre (view w') \<and> (\<exists>v'. r = Some v' \<and> same_volume v' v))
    (\<lambda>_ w'. \<not> up w \<and> wfs w') w1"
    by (rule wp_mono) (use w1 in \<open>auto simp: stays_def dest!: vol_matches_same\<close>)
qed simp

end

context kv_backend_rec
begin

text \<open>With recursive deletion nothing of a deleted volume is left: a volume created again
  under the same name starts without instances.\<close>

lemma DeleteVolume_rec_wp:
  assumes "wfs w" and "ok v"
  shows "wp (DeleteVolume s v)
    (\<lambda>_ w'. stays binv up w w' \<and> kv_wf pre (view w') \<and> abst w' = (abst w)\<lparr>
       a_base := (a_base (abst w))(v := None), a_ctrl := (a_ctrl (abst w))(v := None),
       a_reps := (a_reps (abst w))(v := Map.empty)\<rparr>)
    (\<lambda>_ w'. \<not> up w \<and> wfs w') w"
proof -
  have d: "kv_deletable pre ok (vol_root pre v)" using assms by (simp add: kv_deletable.root)
  have abs: "abs_of pre m' = (abs_of pre m)\<lparr>a_base := (a_base (abs_of pre m))(v := None),
      a_ctrl := (a_ctrl (abs_of pre m))(v := None), a_reps := (a_reps (abs_of pre m))(v := Map.empty)\<rparr>"
    if "del_spec (vol_root pre v) m m'" "\<forall>ds. prefix (vol_root pre v) ds \<longrightarrow> m' ds = None" for m m'
    using that by (auto simp: abs_of_def fun_eq_iff del_specD)
  from wp_conj [OF delete_step [OF assms(1) d] delete_rec [OF _ d]] show ?thesis
    using assms by (auto simp: DeleteVolume_def wp_simps abs elim!: wp_mono)
qed

lemma kvNuclear_wp:
  assumes "wfs w"
  shows "wp (kvNuclear s ''nuke key value store'')
    (\<lambda>_ w'. stays binv up w w' \<and> kv_wf pre (view w') \<and> abst w' = empty_abs) (\<lambda>_ w'. \<not> up w \<and> wfs w') w"
proof -
  have e: "abs_of pre (\<lambda>_. None) = empty_abs" "kv_wf pre (\<lambda>_. None)"
    by (simp_all add: abs_of_def empty_abs_def kv_wf_def)
  have "kv_key s [] = path pre" by (simp add: kv_key_def)
  then show ?thesis
    using delete_all [of w] assms e by (auto simp: kvNuclear_def wp_simps elim!: wp_mono)
qed

end

end
