(* ===== verification/Memory.thy ===== *)
theory Memory
  imports KVClient
begin

text \<open>
  \<open>kvstore/memory.go\<close>: the in-memory backend, over the map of documents that the vendored
  go-cache keeps (entries never expire).  \<open>Keys\<close> compares keys as strings, which makes one
  name a prefix of another; the backend meets the interface when no name in use is a prefix
  of another one (\<open>prefix_free_names\<close>), for instance when all names have the same length.
\<close>

type_synonym cache = "json gomap"

definition Memory_Set :: "string \<Rightarrow> json \<Rightarrow> (cache, unit) op" where
  "Memory_Set k value c = (Ok (), AList.update k value c)"

definition Memory_Get :: "string \<Rightarrow> (json \<Rightarrow> 'a option) \<Rightarrow> (cache, 'a) op" where
  "Memory_Get k dec c = (case map_of c k of
      None \<Rightarrow> fail MemoryKeyNotFoundError c
    | Some value \<Rightarrow> unmarshal dec value c)"

text \<open>\<open>for i := 0; i < n; i++ { k = filepath.Join(k, entries[i]) }\<close>; None is the index out
  of range.\<close>

fun join_entries :: "nat \<Rightarrow> string list \<Rightarrow> string \<Rightarrow> string option" where
  "join_entries 0 entries k = Some k"
| "join_entries (Suc n) [] k = None"
| "join_entries (Suc n) (e # entries) k = join_entries n entries (filepath_Join k e)"

fun Keys_loop :: "string \<Rightarrow> string list \<Rightarrow> string list \<Rightarrow> string list option" where
  "Keys_loop pfx keys [] = Some keys"
| "Keys_loop pfx keys (k # items) =
     (if list_ex (\<lambda>x. HasPrefix k x) keys then Keys_loop pfx keys items
      else if \<not> HasPrefix k pfx then Keys_loop pfx keys items
      else if k = pfx then Keys_loop pfx (keys @ [k]) items
      else (case join_entries (Count pfx (CHR ''/'') + 1)
                   (Split (TrimLeft k (CHR ''/'')) (CHR ''/'')) [] of
          None \<Rightarrow> None
        | Some e \<Rightarrow> Keys_loop pfx (keys @ [CHR ''/'' # e]) items))"

text \<open>Go visits the cache in no fixed order, the model in the order of the list.  Nothing that is proved of
  the cache depends on it: a cache is any list, and the contracts speak of the set of keys.\<close>

definition Memory_Keys :: "string \<Rightarrow> (cache, string list) op" where
  "Memory_Keys pfx c = (case Keys_loop pfx [] (map fst c) of
      None \<Rightarrow> (Panic ''index out of range'', c)
    | Some keys \<Rightarrow> (Ok keys, c))"

definition Memory_Delete :: "string \<Rightarrow> (cache, unit) op" where
  "Memory_Delete k = tryE (Memory_Keys k) id (\<lambda>keys c. (Ok (), fold AList.delete keys c))"

definition Memory_IsNotFoundError :: "gerr \<Rightarrow> bool" where
  "Memory_IsNotFoundError e \<longleftrightarrow> e = MemoryKeyNotFoundError"

definition memory_backend :: "cache Backend" where
  "memory_backend = \<lparr>b_Set = Memory_Set, b_Get = (\<lambda>k. Memory_Get k Some), b_Delete = Memory_Delete,
     b_Keys = Memory_Keys, b_IsNotFoundError = Memory_IsNotFoundError\<rparr>"

section \<open>Paths as the backend reads them\<close>

lemma Memory_Get_decode:
  "kv_Get \<lparr>kv_Prefix = p, kv_b = memory_backend\<rparr> k dec = Memory_Get k dec"
  by (rule ext) (simp add: kv_Get_def memory_backend_def Memory_Get_def tryE_def unmarshal_def
      ret_def fail_def split: option.split)

lemma Count_path: "\<forall>c \<in> set cs. CHR ''/'' \<notin> set c \<Longrightarrow> Count (path cs) (CHR ''/'') = length cs"
  by (induction cs) (auto simp: Count_def path_simps)

lemma join_Cons: "join ''/'' (c # cs) = c @ path cs"
  using join_path [of "c # cs"] by (simp add: path_simps)

lemma Clean_rel:
  assumes "cs \<noteq> []" and "\<forall>c \<in> set cs. good_comp c"
  shows "filepath_Clean (join ''/'' cs) = join ''/'' cs"
proof -
  have "Split (path cs) (CHR ''/'') = [] # cs"
    using assms by (intro Split_path) (auto simp: good_comp_def)
  then have sp: "Split (join ''/'' cs) (CHR ''/'') = cs"
    using join_path [OF assms(1)] by (metis Split_Cons_sep list.inject)
  obtain c cs' where cs: "cs = c # cs'" using assms(1) by (cases cs) auto
  obtain x c' where "c = x # c'" "x \<noteq> CHR ''/''"
    using assms(2) cs by (cases c) (auto simp: good_comp_def)
  with cs have "\<not> HasPrefix (join ''/'' cs) ''/''" "join ''/'' cs \<noteq> []"
    by (simp_all add: join_Cons HasPrefix_def)
  with sp show ?thesis
    using assms by (simp add: filepath_Clean_def foldl_clean_good Let_def)
qed

lemma Join_rel:
  assumes "\<forall>c \<in> set cs. good_comp c" and "good_comp d"
  shows "filepath_Join (join ''/'' cs) d = join ''/'' (cs @ [d])"
proof (cases cs)
  case Nil
  with assms(2) show ?thesis
    using Clean_rel [of "[d]"] by (auto simp: filepath_Join_def good_comp_def)
next
  case (Cons c cs')
  have "join ''/'' cs \<noteq> []" using assms(1) Cons by (auto simp: join_Cons good_comp_def)
  moreover have "join ''/'' cs @ ''/'' @ d = join ''/'' (cs @ [d])"
    using Cons by (simp add: join_Cons path_simps)
  moreover have "filepath_Clean (join ''/'' (cs @ [d])) = join ''/'' (cs @ [d])"
    using assms by (intro Clean_rel) auto
  ultimately show ?thesis by (simp add: filepath_Join_def)
qed

lemma join_entries_rel:
  assumes "\<forall>c \<in> set cs. good_comp c" and "\<forall>c \<in> set ds. good_comp c" and "n \<le> length ds"
  shows "join_entries n ds (join ''/'' cs) = Some (join ''/'' (cs @ take n ds))"
  using assms
proof (induction n arbitrary: cs ds)
  case (Suc n)
  then obtain d ds' where ds: "ds = d # ds'" by (cases ds) auto
  with Suc.prems Suc.IH [of "cs @ [d]" ds'] show ?case by (simp add: Join_rel)
qed simp

text \<open>The key that \<open>Keys\<close> derives from an item below a prefix: the item's first components,
  one more than the prefix has.\<close>

lemma join_entries_path:
  assumes "\<forall>c \<in> set (cs @ n # ds). good_comp c"
  shows "join_entries (Count (path cs) (CHR ''/'') + 1)
    (Split (TrimLeft (path (cs @ n # ds)) (CHR ''/'')) (CHR ''/'')) [] = Some (tl (path (cs @ [n])))"
proof -
  have "Count (path cs) (CHR ''/'') = length cs"
    using assms by (intro Count_path) (auto simp: good_comp_def)
  moreover have "Split (TrimLeft (path (cs @ n # ds)) (CHR ''/'')) (CHR ''/'') = cs @ n # ds"
    using assms by (intro Split_TrimLeft_path) auto
  moreover have "tl (path (cs @ [n])) = join ''/'' (cs @ [n])"
    using join_path [of "cs @ [n]"] by (metis append_is_Nil_conv list.distinct(1) list.sel(3))
  ultimately show ?thesis
    using join_entries_rel [of "[]" "cs @ n # ds" "length cs + 1"] assms by simp
qed

lemma prefix_path_last:
  assumes "\<forall>c \<in> set (es @ [c]). CHR ''/'' \<notin> set c" and "\<forall>d \<in> set ds. CHR ''/'' \<notin> set d"
    and "prefix (path (es @ [c])) (path ds)"
  shows "\<exists>d rest. ds = es @ d # rest \<and> prefix c d"
  using assms
proof (induction es arbitrary: ds)
  case Nil
  then obtain d ds' where ds: "ds = d # ds'" by (cases ds) (auto simp: path_simps)
  have "prefix c (d @ path ds')" using Nil ds by (simp add: path_simps)
  then have "prefix c d \<or> (\<exists>z. z \<noteq> [] \<and> c = d @ z \<and> prefix z (path ds'))"
    by (auto simp: prefix_append)
  moreover have "\<not> prefix z (path ds')" if "z \<noteq> []" "c = d @ z" for z
    using that Nil.prems(1) by (cases z; cases ds') (auto simp: path_simps)
  ultimately show ?case using ds by auto
next
  case (Cons e es)
  then obtain d ds' where ds: "ds = d # ds'" by (cases ds) (auto simp: path_simps)
  have "prefix (e @ path (es @ [c])) (d @ path ds')" using Cons.prems(3) ds by (simp add: path_simps)
  then have "e = d \<and> prefix (path (es @ [c])) (path ds')"
    using Cons.prems ds by (intro prefix_path_noslash) auto
  with Cons.IH [of ds'] Cons.prems ds show ?case by auto
qed

section \<open>The interface\<close>

definition mem_view :: "string list \<Rightarrow> (string \<Rightarrow> bool) \<Rightarrow> cache \<Rightarrow> tree" where
  "mem_view pre ok c cs = (if kv_file pre ok cs then map_of c (path cs) else None)"

definition mem_inv :: "string list \<Rightarrow> (string \<Rightarrow> bool) \<Rightarrow> cache \<Rightarrow> bool" where
  "mem_inv pre ok c \<longleftrightarrow> distinct (map fst c) \<and> (\<forall>k \<in> fst ` set c. \<exists>cs. kv_file pre ok cs \<and> k = path cs)"

text \<open>The nodes of the layout, each with its last component split off.\<close>

inductive kv_node :: "string list \<Rightarrow> (string \<Rightarrow> bool) \<Rightarrow> string list \<Rightarrow> string \<Rightarrow> bool"
  for pre ok where
  "kv_node pre ok pre ''settings''"
| "kv_node pre ok pre ''hosts''"
| "kv_node pre ok pre ''volumes''"
| "ok h \<Longrightarrow> kv_node pre ok (pre @ [''hosts'']) h"
| "ok v \<Longrightarrow> kv_node pre ok (pre @ [''volumes'']) v"
| "ok v \<Longrightarrow> kv_node pre ok (pre @ [''volumes'', v]) ''base''"
| "ok v \<Longrightarrow> kv_node pre ok (pre @ [''volumes'', v]) ''instances''"
| "ok v \<Longrightarrow> kv_node pre ok (pre @ [''volumes'', v, ''instances'']) ''controller''"
| "ok v \<Longrightarrow> kv_node pre ok (pre @ [''volumes'', v, ''instances'']) ''replicas''"
| "ok v \<Longrightarrow> ok r \<Longrightarrow> kv_node pre ok (pre @ [''volumes'', v, ''instances'', ''replicas'']) r"

lemma file_node: "kv_file pre ok cs \<Longrightarrow> \<exists>es c. cs = es @ [c] \<and> kv_node pre ok es c"
  by (induction rule: kv_file.induct) (fastforce simp: layout_defs intro: kv_node.intros)+

lemma listdir_node: "kv_listdir pre ok cs \<Longrightarrow> \<exists>es c. cs = es @ [c] \<and> kv_node pre ok es c"
  by (induction rule: kv_listdir.induct) (fastforce simp: layout_defs intro: kv_node.intros)+

lemma deletable_node: "kv_deletable pre ok cs \<Longrightarrow> \<exists>es c. cs = es @ [c] \<and> kv_node pre ok es c"
  by (induction rule: kv_deletable.induct)
    (use file_node in \<open>fastforce simp: layout_defs intro: kv_node.intros\<close>)+

fun add_children :: "string list \<Rightarrow> string list \<Rightarrow> string list list \<Rightarrow> string list" where
  "add_children cs ns [] = ns"
| "add_children cs ns (ds # dss) =
     (if strict_prefix cs ds \<and> ds ! length cs \<notin> set ns
      then add_children cs (ns @ [ds ! length cs]) dss else add_children cs ns dss)"

lemma distinct_add_children: "distinct ns \<Longrightarrow> distinct (add_children cs ns dss)"
  by (induction dss arbitrary: ns) auto

lemma set_add_children:
  "set (add_children cs ns dss) = set ns \<union> {n. \<exists>ds. cs @ n # ds \<in> set dss}"
proof (induction dss arbitrary: ns)
  case (Cons ds dss)
  have "strict_prefix cs ds \<longleftrightarrow> (\<exists>n ds'. ds = cs @ n # ds')"
    by (auto simp: strict_prefix_def prefix_def) (metis neq_Nil_conv)
  then show ?case by (auto simp: Cons.IH)
qed simp

locale prefix_free_names =
  fixes pre :: "string list" and ok :: "string \<Rightarrow> bool"
  assumes pre: "pre \<noteq> []" "\<forall>c \<in> set pre. good_comp c"
    and names: "ok c \<Longrightarrow> good_comp c"
    and prefix_free: "\<lbrakk>ok c; ok d; prefix c d\<rbrakk> \<Longrightarrow> c = d"
begin

lemma file_good: "kv_file pre ok cs \<Longrightarrow> \<forall>c \<in> set cs. good_comp c"
  by (induction rule: kv_file.induct) (use pre names in \<open>auto simp: layout_defs\<close>)

lemma node_good: "kv_node pre ok es c \<Longrightarrow> \<forall>d \<in> set (es @ [c]). good_comp d"
  by (induction rule: kv_node.induct) (use pre names in auto)

lemma noslash: "\<forall>d \<in> set cs. good_comp d \<Longrightarrow> \<forall>d \<in> set cs. CHR ''/'' \<notin> set d"
  by (auto simp: good_comp_def)

text \<open>Between nodes of the layout, one key is a string prefix of another only if it is above it.\<close>

lemma sep:
  assumes n: "kv_node pre ok es c" and f: "kv_file pre ok ds"
    and p: "prefix (path (es @ [c])) (path ds)"
  shows "prefix (es @ [c]) ds"
proof -
  obtain d rest where ds: "ds = es @ d # rest" and cd: "prefix c d"
    using prefix_path_last [OF noslash noslash p] node_good [OF n] file_good [OF f] by blast
  have "c = d"
    using n
  proof cases
    case 4
    then show ?thesis using f ds cd by (auto simp: layout_defs elim!: kv_file.cases dest: prefix_free)
  next
    case 5
    then show ?thesis using f ds cd by (auto simp: layout_defs elim!: kv_file.cases dest: prefix_free)
  next
    case (10 v)
    then show ?thesis using f ds cd by (auto simp: layout_defs elim!: kv_file.cases dest: prefix_free)
  qed (use f ds cd in \<open>auto simp: layout_defs elim!: kv_file.cases\<close>)
  with ds show ?thesis by simp
qed

lemma sep_iff:
  assumes "kv_node pre ok es c" and "kv_file pre ok ds"
  shows "HasPrefix (path ds) (path (es @ [c])) \<longleftrightarrow> prefix (es @ [c]) ds"
  using sep [OF assms] by (auto simp: HasPrefix_def path_simps prefix_def)

lemma file_inject:
  assumes "kv_file pre ok cs" and "kv_file pre ok ds"
  shows "path cs = path ds \<longleftrightarrow> cs = ds"
  by (rule path_inject) (use assms file_good noslash in blast)+

lemma mem_view_update: "kv_file pre ok cs \<Longrightarrow> mem_view pre ok (AList.update (path cs) j c) = (mem_view pre ok c)(cs \<mapsto> j)"
  by (rule ext) (auto simp: mem_view_def file_inject)

lemma mem_inv_update: "mem_inv pre ok c \<Longrightarrow> kv_file pre ok cs \<Longrightarrow> mem_inv pre ok (AList.update (path cs) j c)"
  by (auto simp: mem_inv_def dom_update)

lemma mem_inv_keys: "mem_inv pre ok c \<Longrightarrow> \<exists>dss. map fst c = map path dss \<and> (\<forall>ds \<in> set dss. kv_file pre ok ds)"
proof (induction c)
  case (Cons kv c)
  then obtain dss where dss: "map fst c = map path dss" "\<forall>ds \<in> set dss. kv_file pre ok ds"
    by (auto simp: mem_inv_def)
  obtain cs where "kv_file pre ok cs" "fst kv = path cs" using Cons.prems by (auto simp: mem_inv_def)
  with dss show ?case by (intro exI [of _ "cs # dss"]) simp
qed simp

text \<open>\<open>Keys\<close> on a directory lists the names below it that lead to a document, once each.\<close>

lemma Keys_loop_children:
  assumes "\<forall>ds \<in> set dss. kv_file pre ok ds \<and> ds \<noteq> cs" and cs: "kv_node pre ok es c" "cs = es @ [c]"
    and node: "\<And>n ds. kv_file pre ok (cs @ n # ds) \<Longrightarrow> kv_node pre ok cs n"
    and "\<forall>n \<in> set ns. kv_node pre ok cs n"
  shows "Keys_loop (path cs) (map (\<lambda>n. path (cs @ [n])) ns) (map path dss) =
    Some (map (\<lambda>n. path (cs @ [n])) (add_children cs ns dss))"
  using assms(1,5)
proof (induction dss arbitrary: ns)
  case (Cons ds dss)
  have ds: "kv_file pre ok ds" "ds \<noteq> cs" using Cons.prems(1) by auto
  have ex: "list_ex (\<lambda>x. HasPrefix (path ds) x) (map (\<lambda>n. path (cs @ [n])) ns)
      \<longleftrightarrow> (\<exists>n \<in> set ns. prefix (cs @ [n]) ds)"
    using sep_iff [OF _ ds(1)] Cons.prems(2) by (simp add: list_ex_iff)
  have hp: "HasPrefix (path ds) (path cs) \<longleftrightarrow> prefix cs ds" using sep_iff [OF cs(1) ds(1)] cs(2) by simp
  have ne: "path ds \<noteq> path cs"
    using path_inject [OF noslash noslash] file_good [OF ds(1)] node_good [OF cs(1)] ds(2) cs(2) by blast
  show ?case
  proof (cases "prefix cs ds")
    case False
    then have "\<not> strict_prefix cs ds" "\<forall>n \<in> set ns. \<not> prefix (cs @ [n]) ds"
      by (auto simp: strict_prefix_def prefix_def)
    with False show ?thesis using ex hp Cons by simp
  next
    case True
    then obtain n rest where n: "ds = cs @ n # rest"
      using ds(2) by (metis append_Nil2 neq_Nil_conv prefix_def)
    have nth: "ds ! length cs = n" "strict_prefix cs ds" using n by (simp_all add: strict_prefix_def)
    have ex': "(\<exists>n \<in> set ns. prefix (cs @ [n]) ds) \<longleftrightarrow> n \<in> set ns" using n by auto
    have node_n: "kv_node pre ok cs n" using node ds(1) n by blast
    have "\<forall>c \<in> set (cs @ n # rest). good_comp c" using file_good [OF ds(1)] n by simp
    note je = join_entries_path [OF this]
    have tl: "CHR ''/'' # tl (path (cs @ [n])) = path (cs @ [n])"
      by (cases cs) (simp_all add: path_simps)
    show ?thesis
    proof (cases "n \<in> set ns")
      case True
      then show ?thesis using ex ex' nth Cons by simp
    next
      case False
      have "Keys_loop (path cs) (map (\<lambda>n. path (cs @ [n])) ns) (map path (ds # dss)) =
          Keys_loop (path cs) (map (\<lambda>n. path (cs @ [n])) (ns @ [n])) (map path dss)"
        using False ex ex' hp \<open>prefix cs ds\<close> ne je n tl by simp
      also have "\<dots> = Some (map (\<lambda>n. path (cs @ [n])) (add_children cs (ns @ [n]) dss))"
        using Cons.prems node_n by (intro Cons.IH) auto
      finally show ?thesis using False nth by simp
    qed
  qed
qed simp

lemma listdir_child: "kv_listdir pre ok cs \<Longrightarrow> kv_file pre ok (cs @ n # ds) \<Longrightarrow> kv_node pre ok cs n \<and> ok n"
  by (auto simp: layout_defs elim!: kv_listdir.cases kv_file.cases intro: kv_node.intros)

lemma root_child: "ok v \<Longrightarrow> kv_file pre ok (vol_root pre v @ n # ds) \<Longrightarrow> kv_node pre ok (vol_root pre v) n"
  by (auto simp: layout_defs elim!: kv_file.cases intro: kv_node.intros)

lemma view_iff:
  assumes "map fst c = map path dss" and "\<forall>ds \<in> set dss. kv_file pre ok ds"
  shows "mem_view pre ok c ds \<noteq> None \<longleftrightarrow> ds \<in> set dss"
proof -
  have "map_of c k \<noteq> None \<longleftrightarrow> k \<in> path ` set dss" for k
    using assms(1) by (metis list.set_map map_of_eq_None_iff)
  then show ?thesis using assms(2) file_inject by (auto simp: mem_view_def)
qed

lemma Memory_Keys_dir:
  assumes "mem_inv pre ok c" and "kv_node pre ok es d" and "cs = es @ [d]" and "\<not> kv_file pre ok cs"
    and "\<And>n ds. kv_file pre ok (cs @ n # ds) \<Longrightarrow> kv_node pre ok cs n"
  shows "\<exists>ns. Memory_Keys (path cs) c = (Ok (map (\<lambda>n. path (cs @ [n])) ns), c) \<and> distinct ns \<and>
    set ns = child_names (mem_view pre ok c) cs"
proof -
  obtain dss where dss: "map fst c = map path dss" "\<forall>ds \<in> set dss. kv_file pre ok ds"
    using mem_inv_keys [OF assms(1)] by auto
  let ?ns = "add_children cs [] dss"
  have "Keys_loop (path cs) (map (\<lambda>n. path (cs @ [n])) []) (map path dss) = Some (map (\<lambda>n. path (cs @ [n])) ?ns)"
    using assms dss(2) by (intro Keys_loop_children) auto
  moreover have "set ?ns = child_names (mem_view pre ok c) cs"
    using view_iff [OF dss] by (simp add: set_add_children child_names_def)
  ultimately show ?thesis
    using dss(1) by (intro exI [of _ ?ns]) (simp add: Memory_Keys_def distinct_add_children)
qed

lemma Keys_loop_file:
  assumes "kv_file pre ok cs" and "\<forall>ds \<in> set dss. kv_file pre ok ds" and "set K \<subseteq> {path cs}" and "distinct K"
  shows "Keys_loop (path cs) K (map path dss) = Some (if K = [] \<and> cs \<notin> set dss then [] else [path cs])"
  using assms(2-)
proof (induction dss arbitrary: K)
  case Nil
  then show ?case by (cases K; cases "tl K") auto
next
  case (Cons ds dss)
  obtain es c where node: "cs = es @ [c]" "kv_node pre ok es c" using file_node [OF assms(1)] by auto
  have "HasPrefix (path ds) (path cs) \<longleftrightarrow> ds = cs"
    using sep_iff [OF node(2), of ds] node(1) Cons.prems(1) file_antichain [OF assms(1), of ds] by auto
  moreover have "list_ex (HasPrefix (path ds)) K \<longleftrightarrow> K \<noteq> [] \<and> HasPrefix (path ds) (path cs)"
    using Cons.prems(2) by (cases K) (auto simp: list_ex_iff)
  ultimately show ?case
    using Cons.IH [of K] Cons.IH [of "[path cs]"] Cons.prems by auto
qed

lemma map_of_fold_delete: "map_of (fold AList.delete ks c) k = (if k \<in> set ks then None else map_of c k)"
  by (induction ks arbitrary: c) auto

lemma mem_inv_fold_delete: "mem_inv pre ok c \<Longrightarrow> mem_inv pre ok (fold AList.delete ks c)"
proof (induction ks arbitrary: c)
  case (Cons k ks)
  have "mem_inv pre ok (AList.delete k c)"
    using Cons.prems dom_delete_subset [of k c] unfolding mem_inv_def by (blast intro: distinct_delete)
  then show ?case using Cons.IH by simp
qed simp

lemma mem_view_fold_delete:
  "mem_view pre ok (fold AList.delete ks c) ds = (if path ds \<in> set ks then None else mem_view pre ok c ds)"
  by (simp add: mem_view_def map_of_fold_delete)

lemma Memory_Delete_file:
  assumes "mem_inv pre ok c" and "kv_file pre ok cs"
  shows "\<exists>c'. Memory_Delete (path cs) c = (Ok (), c') \<and> mem_inv pre ok c' \<and>
    mem_view pre ok c' = (mem_view pre ok c)(cs := None)"
proof -
  obtain dss where dss: "map fst c = map path dss" "\<forall>ds \<in> set dss. kv_file pre ok ds"
    using mem_inv_keys [OF assms(1)] by auto
  let ?K = "if cs \<notin> set dss then [] else [path cs]"
  have "Memory_Keys (path cs) c = (Ok ?K, c)"
    using Keys_loop_file [OF assms(2) dss(2), of "[]"] dss(1) by (simp add: Memory_Keys_def)
  then have "Memory_Delete (path cs) c = (Ok (), fold AList.delete ?K c)"
    by (simp add: Memory_Delete_def tryE_def)
  moreover have "mem_view pre ok (fold AList.delete ?K c) ds = ((mem_view pre ok c)(cs := None)) ds" for ds
    using view_iff [OF dss, of cs] assms(2) file_inject [of ds cs]
    by (cases "kv_file pre ok ds") (auto simp: mem_view_fold_delete mem_view_def map_of_fold_delete)
  ultimately show ?thesis using mem_inv_fold_delete [OF assms(1)] by blast
qed

text \<open>Deleting a directory removes only the documents directly below it.\<close>

lemma Memory_Delete_dir:
  assumes "mem_inv pre ok c" and "kv_node pre ok es d" and "cs = es @ [d]" and "\<not> kv_file pre ok cs"
    and "\<And>n ds. kv_file pre ok (cs @ n # ds) \<Longrightarrow> kv_node pre ok cs n"
  shows "\<exists>c'. Memory_Delete (path cs) c = (Ok (), c') \<and> mem_inv pre ok c' \<and>
    mem_view pre ok c' = (\<lambda>ds. if \<exists>n. ds = cs @ [n] then None else mem_view pre ok c ds)"
proof -
  obtain ns where ns: "Memory_Keys (path cs) c = (Ok (map (\<lambda>n. path (cs @ [n])) ns), c)"
      "set ns = child_names (mem_view pre ok c) cs"
    using Memory_Keys_dir [OF assms(1-4)] assms(5) by blast
  let ?K = "map (\<lambda>n. path (cs @ [n])) ns"
  have good: "\<forall>e \<in> set (cs @ [n]). good_comp e" if n: "n \<in> set ns" for n
  proof -
    obtain ds where "kv_file pre ok (cs @ n # ds)"
      using n unfolding ns(2) by (auto simp: child_names_def mem_view_def split: if_splits)
    then show ?thesis using file_good by fastforce
  qed
  have K: "path ds \<in> set ?K \<longleftrightarrow> (\<exists>n \<in> set ns. ds = cs @ [n])" if "kv_file pre ok ds" for ds
    using path_inject [OF noslash noslash, of ds] file_good [OF that] good by (auto simp: image_iff)
  have kept: "mem_view pre ok c (cs @ [n]) = None" if "n \<notin> set ns" for n
    using that ns(2) by (auto simp: child_names_def)
  have "mem_view pre ok (fold AList.delete ?K c) ds =
      (if \<exists>n. ds = cs @ [n] then None else mem_view pre ok c ds)" for ds
  proof (cases "kv_file pre ok ds")
    case True
    then show ?thesis using kept by (simp only: mem_view_fold_delete K [OF True]) fastforce
  qed (simp add: mem_view_def)
  moreover have "Memory_Delete (path cs) c = (Ok (), fold AList.delete ?K c)"
    using ns(1) by (simp add: Memory_Delete_def tryE_def)
  ultimately show ?thesis using mem_inv_fold_delete [OF assms(1)] by blast
qed

lemma Memory_Delete_spec:
  assumes "mem_inv pre ok c" and "kv_deletable pre ok cs"
  shows "\<exists>c'. Memory_Delete (path cs) c = (Ok (), c') \<and> mem_inv pre ok c' \<and>
    del_spec cs (mem_view pre ok c) (mem_view pre ok c')"
  using assms(2)
proof cases
  case doc
  obtain c' where c': "Memory_Delete (path cs) c = (Ok (), c')" "mem_inv pre ok c'"
      "mem_view pre ok c' = (mem_view pre ok c)(cs := None)"
    using Memory_Delete_file [OF assms(1) doc] by blast
  have "mem_view pre ok c (cs @ [n]) = None" for n
    using file_antichain [OF doc, of "cs @ [n]"] by (auto simp: mem_view_def)
  with c' show ?thesis by (auto simp: del_spec_def map_le_def)
next
  case (reps v)
  have n: "kv_node pre ok (pre @ [''volumes'', v, ''instances'']) ''replicas''"
    using reps by (intro kv_node.intros)
  have d: "kv_listdir pre ok cs" using reps by (simp add: kv_listdir.intros)
  have "cs = (pre @ [''volumes'', v, ''instances'']) @ [''replicas'']" using reps by (simp add: layout_defs)
  from Memory_Delete_dir [OF assms(1) n this dirs_no_file(1) [OF d]] listdir_child [OF d]
  show ?thesis using dirs_no_file(1) [OF d] by (fastforce simp: del_spec_def map_le_def mem_view_def)
next
  case (root v)
  have n: "kv_node pre ok (pre @ [''volumes'']) v" using root by (intro kv_node.intros)
  have "cs = (pre @ [''volumes'']) @ [v]" using root by (simp add: layout_defs)
  from Memory_Delete_dir [OF assms(1) n this] root dirs_no_file(2) [of pre ok v] root_child [of v]
  show ?thesis by (fastforce simp: del_spec_def map_le_def mem_view_def)
qed

lemma Memory_Keys_spec:
  assumes "mem_inv pre ok c" and "kv_listdir pre ok cs"
  shows "\<exists>ns. Memory_Keys (path cs) c = (Ok (map (\<lambda>n. path (cs @ [n])) ns), c) \<and> distinct ns \<and>
    (\<forall>n \<in> set ns. ok n) \<and> set ns = child_names (mem_view pre ok c) cs"
proof -
  obtain es d where "cs = es @ [d]" "kv_node pre ok es d" using listdir_node [OF assms(2)] by auto
  with Memory_Keys_dir [OF assms(1)] dirs_no_file(1) [OF assms(2)] listdir_child [OF assms(2)]
  obtain ns where ns: "Memory_Keys (path cs) c = (Ok (map (\<lambda>n. path (cs @ [n])) ns), c)" "distinct ns"
      "set ns = child_names (mem_view pre ok c) cs"
    by metis
  have "ok n" if "n \<in> set ns" for n
    using that listdir_child [OF assms(2)] unfolding ns(3) by (auto simp: child_names_def mem_view_def split: if_splits)
  with ns show ?thesis by blast
qed

end

sublocale prefix_free_names \<subseteq> mem: kv_backend memory_backend "mem_view pre ok" "mem_inv pre ok" "mem_inv pre ok" pre ok
proof
  show "pre \<noteq> []" "\<forall>c \<in> set pre. good_comp c" by (fact pre)+
  show "good_comp c" if "ok c" for c using names that .
  show "\<not> b_IsNotFoundError memory_backend (Wrap e m)" for e m
    by (simp add: memory_backend_def Memory_IsNotFoundError_def)
next
  fix w cs j assume *: "mem_inv pre ok w" "kv_file pre ok cs"
  show "wp (b_Set memory_backend (path cs) j)
        (\<lambda>_ w'. stays (mem_inv pre ok) (mem_inv pre ok) w w' \<and> mem_view pre ok w' = (mem_view pre ok w)(cs \<mapsto> j))
        (\<lambda>_ w'. \<not> mem_inv pre ok w \<and> mem_inv pre ok w' \<and>
          (mem_view pre ok w' = mem_view pre ok w \<or> mem_view pre ok w' = (mem_view pre ok w)(cs \<mapsto> j))) w"
    using * by (simp add: memory_backend_def Memory_Set_def wp_def stays_def mem_inv_update mem_view_update)
  show "wp (b_Get memory_backend (path cs))
        (\<lambda>j w'. stays (mem_inv pre ok) (mem_inv pre ok) w w' \<and> mem_view pre ok w' = mem_view pre ok w \<and>
          mem_view pre ok w cs = Some j)
        (\<lambda>e w'. mem_inv pre ok w' \<and> mem_view pre ok w' = mem_view pre ok w \<and>
           (if b_IsNotFoundError memory_backend e then mem_view pre ok w cs = None \<and>
             stays (mem_inv pre ok) (mem_inv pre ok) w w' else \<not> mem_inv pre ok w)) w"
    using * by (cases "map_of w (path cs)") (simp_all add: memory_backend_def Memory_Get_def wp_def stays_def
        fail_def unmarshal_def ret_def Memory_IsNotFoundError_def mem_view_def)
next
  fix w cs assume *: "mem_inv pre ok w" "kv_listdir pre ok cs"
  show "wp (b_Keys memory_backend (path cs))
        (\<lambda>ks w'. stays (mem_inv pre ok) (mem_inv pre ok) w w' \<and> mem_view pre ok w' = mem_view pre ok w \<and>
           (\<exists>ns. ks = map (\<lambda>n. path (cs @ [n])) ns \<and> distinct ns \<and> (\<forall>n \<in> set ns. ok n) \<and>
              child_names (mem_view pre ok w) cs \<subseteq> set ns))
        (\<lambda>_ w'. \<not> mem_inv pre ok w \<and> mem_inv pre ok w' \<and> mem_view pre ok w' = mem_view pre ok w) w"
    using Memory_Keys_spec [OF *] * by (clarsimp simp: memory_backend_def wp_def stays_def) (metis order_refl)
next
  fix w cs assume *: "mem_inv pre ok w" "kv_deletable pre ok cs"
  show "wp (b_Delete memory_backend (path cs))
        (\<lambda>_ w'. stays (mem_inv pre ok) (mem_inv pre ok) w w' \<and> del_spec cs (mem_view pre ok w) (mem_view pre ok w'))
        (\<lambda>_ w'. \<not> mem_inv pre ok w \<and> mem_inv pre ok w' \<and>
           (mem_view pre ok w' = mem_view pre ok w \<or> del_spec cs (mem_view pre ok w) (mem_view pre ok w'))) w"
    using Memory_Delete_spec [OF *] by (auto simp: memory_backend_def wp_def stays_def)
qed

text \<open>Names of one fixed length, such as UUIDs, are free of prefixes.\<close>

definition name_of_length :: "nat \<Rightarrow> string \<Rightarrow> bool" where
  "name_of_length n s \<longleftrightarrow> good_comp s \<and> length s = n"

text \<open>Names of one length, such as UUIDs, and the names the repository's own tests of the store use.\<close>

interpretation mem_store: prefix_free_names "[''longhorn'']" "name_of_length n" for n
  by unfold_locales (auto simp: name_of_length_def prefix_def good_comp_def)

definition test_name :: "string \<Rightarrow> bool" where
  "test_name s \<longleftrightarrow> s \<in> set [''volume1'', ''volume2'', ''replica-name-replica1-volume1'', ''replica-name-replica2-volume1'',
     ''replica-name-replica1-volume2'', ''replica-name-replica2-volume2'']"

interpretation test_store: prefix_free_names "[''longhorn'']" test_name
  by unfold_locales (auto simp: test_name_def prefix_def good_comp_def)

end
