(* ===== verification/Etcd.thy ===== *)
theory Etcd
  imports KVClient
begin

text \<open>
  \<open>kvstore/etcd.go\<close>: the etcd backend.  The etcd v2 client (\<open>KeysAPI\<close> and
  \<open>IsKeyNotFound\<close>) is not part of the repository's own code: it is the parameter
  \<open>KeysAPI\<close> of the definitions.  The locale \<open>etcd_api\<close> states what the etcd v2 documentation
  promises of it: a store of directories and files addressed by path; writing a file makes its
  parent directories and fails on a directory or below a file; a listing shows the children of a
  directory that are not hidden (a leading underscore); a recursive delete removes a whole
  subtree; a request that fails for another reason may or may not have taken effect.

  The locale \<open>etcd_store\<close> adds the names the store uses.  Every tree that the store
  itself writes is a layout tree (\<open>etree_ok\<close>), and on these the backend meets
  \<open>kv_backend_rec\<close>: recursive deletion included.
\<close>

record Node =
  n_Key :: string
  n_Dir :: bool
  n_Value :: json
  n_Nodes :: "string list"

record 'w KeysAPI =
  kapi_Set :: "string \<Rightarrow> json \<Rightarrow> ('w, unit) op"
  kapi_Get :: "string \<Rightarrow> ('w, Node) op"
  kapi_Delete :: "string \<Rightarrow> bool \<Rightarrow> ('w, unit) op"
  IsKeyNotFound :: "gerr \<Rightarrow> bool"

definition ETCD_Set :: "'w KeysAPI \<Rightarrow> string \<Rightarrow> json \<Rightarrow> ('w, unit) op" where
  "ETCD_Set kapi k value = tryE (kapi_Set kapi k value) id (\<lambda>_. ret ())"

definition ETCD_IsNotFoundError :: "'w KeysAPI \<Rightarrow> gerr \<Rightarrow> bool" where
  "ETCD_IsNotFoundError kapi e = IsKeyNotFound kapi e"

definition ETCD_Get :: "'w KeysAPI \<Rightarrow> string \<Rightarrow> (json \<Rightarrow> 'a option) \<Rightarrow> ('w, 'a) op" where
  "ETCD_Get kapi k dec = tryE (kapi_Get kapi k) id (\<lambda>node.
     if n_Dir node then fail (Errorf (''invalid node '' @ n_Key node @ '' is a directory''))
     else unmarshal dec (n_Value node))"

definition ETCD_Keys :: "'w KeysAPI \<Rightarrow> string \<Rightarrow> ('w, string list) op" where
  "ETCD_Keys kapi pfx = attempt (kapi_Get kapi pfx) (\<lambda>r. case r of
      Inl e \<Rightarrow> if IsKeyNotFound kapi e then ret [] else fail e
    | Inr node \<Rightarrow>
        if \<not> n_Dir node then fail (Errorf (''invalid node '' @ n_Key node @ '' is not a directory''))
        else ret (n_Nodes node))"

definition ETCD_Delete :: "'w KeysAPI \<Rightarrow> string \<Rightarrow> ('w, unit) op" where
  "ETCD_Delete kapi k = attempt (kapi_Delete kapi k True) (\<lambda>r. case r of
      Inl e \<Rightarrow> if IsKeyNotFound kapi e then ret () else fail e
    | Inr _ \<Rightarrow> ret ())"

definition etcd_backend :: "'w KeysAPI \<Rightarrow> 'w Backend" where
  "etcd_backend kapi = \<lparr>b_Set = ETCD_Set kapi, b_Get = (\<lambda>k. ETCD_Get kapi k Some),
     b_Delete = ETCD_Delete kapi, b_Keys = ETCD_Keys kapi, b_IsNotFoundError = ETCD_IsNotFoundError kapi\<rparr>"

lemma ETCD_Get_decode:
  "kv_Get \<lparr>kv_Prefix = p, kv_b = etcd_backend kapi\<rparr> k dec = ETCD_Get kapi k dec"
  by (rule ext) (simp add: kv_Get_def etcd_backend_def ETCD_Get_def tryE_def unmarshal_def
      ret_def fail_def split: res.splits prod.splits option.splits)

section \<open>What etcd promises\<close>

datatype enode = File json | Dir

type_synonym etree = "string list \<Rightarrow> enode option"

definition e_set :: "string list \<Rightarrow> json \<Rightarrow> etree \<Rightarrow> etree" where
  "e_set cs j m ds = (if ds = cs then Some (File j)
     else if ds \<noteq> [] \<and> strict_prefix ds cs then Some Dir else m ds)"

definition e_delete :: "string list \<Rightarrow> etree \<Rightarrow> etree" where
  "e_delete cs m ds = (if prefix cs ds then None else m ds)"

definition e_blocked :: "string list \<Rightarrow> etree \<Rightarrow> bool" where
  "e_blocked cs m \<longleftrightarrow> m cs = Some Dir \<or> (\<exists>p j. p \<noteq> [] \<and> strict_prefix p cs \<and> m p = Some (File j))"

definition hidden :: "string \<Rightarrow> bool" where
  "hidden c \<longleftrightarrow> HasPrefix c ''_''"

definition good_key :: "string list \<Rightarrow> bool" where
  "good_key cs \<longleftrightarrow> cs \<noteq> [] \<and> (\<forall>c \<in> set cs. good_comp c)"

definition node_matches :: "etree \<Rightarrow> string list \<Rightarrow> Node \<Rightarrow> bool" where
  "node_matches m cs n \<longleftrightarrow> (case m cs of
      None \<Rightarrow> False
    | Some (File j) \<Rightarrow> \<not> n_Dir n \<and> n_Value n = j
    | Some Dir \<Rightarrow> n_Dir n \<and> (\<exists>ns. n_Nodes n = map (\<lambda>c. path (cs @ [c])) ns \<and> distinct ns \<and>
        set ns = {c. m (cs @ [c]) \<noteq> None \<and> \<not> hidden c}))"

locale etcd_api =
  fixes kapi :: "'w KeysAPI" and nodes :: "'w \<Rightarrow> etree" and sane :: "'w \<Rightarrow> bool" and up :: "'w \<Rightarrow> bool"
  assumes parents: "\<lbrakk>sane w; nodes w (cs @ [c]) \<noteq> None; cs \<noteq> []\<rbrakk> \<Longrightarrow> nodes w cs = Some Dir"
    and not_found: "\<not> IsKeyNotFound kapi (Wrap e m)" "\<not> IsKeyNotFound kapi (Errorf m)"
    and api_set: "\<lbrakk>sane w; good_key cs\<rbrakk> \<Longrightarrow> wp (kapi_Set kapi (path cs) j)
      (\<lambda>_ w'. stays sane up w w' \<and> \<not> e_blocked cs (nodes w) \<and> nodes w' = e_set cs j (nodes w))
      (\<lambda>_ w'. sane w' \<and> (nodes w' = nodes w \<and> e_blocked cs (nodes w) \<or>
         \<not> up w \<and> (nodes w' = nodes w \<or> \<not> e_blocked cs (nodes w) \<and> nodes w' = e_set cs j (nodes w)))) w"
    and api_get: "\<lbrakk>sane w; good_key cs\<rbrakk> \<Longrightarrow> wp (kapi_Get kapi (path cs))
      (\<lambda>n w'. stays sane up w w' \<and> nodes w' = nodes w \<and> node_matches (nodes w) cs n)
      (\<lambda>e w'. sane w' \<and> nodes w' = nodes w \<and>
         (if IsKeyNotFound kapi e then nodes w cs = None \<and> stays sane up w w' else \<not> up w)) w"
    and api_delete: "\<lbrakk>sane w; good_key cs\<rbrakk> \<Longrightarrow> wp (kapi_Delete kapi (path cs) True)
      (\<lambda>_ w'. stays sane up w w' \<and> nodes w' = e_delete cs (nodes w))
      (\<lambda>e w'. sane w' \<and>
         (if IsKeyNotFound kapi e then nodes w cs = None \<and> nodes w' = nodes w \<and> stays sane up w w'
          else \<not> up w \<and> (nodes w' = nodes w \<or> nodes w' = e_delete cs (nodes w)))) w"

section \<open>The trees the store writes\<close>

definition etree_ok :: "string list \<Rightarrow> (string \<Rightarrow> bool) \<Rightarrow> etree \<Rightarrow> bool" where
  "etree_ok pre ok m \<longleftrightarrow>
     (\<forall>cs j. m cs = Some (File j) \<and> prefix pre cs \<longrightarrow> kv_file pre ok cs) \<and>
     (\<forall>cs j. cs \<noteq> [] \<and> prefix cs pre \<longrightarrow> m cs \<noteq> Some (File j)) \<and>
     (\<forall>cs. m cs = Some Dir \<and> prefix pre cs \<longrightarrow> (\<exists>ds. strict_prefix cs ds \<and> kv_file pre ok ds))"

definition etcd_view :: "string list \<Rightarrow> (string \<Rightarrow> bool) \<Rightarrow> etree \<Rightarrow> tree" where
  "etcd_view pre ok m cs = (if kv_file pre ok cs then
     (case m cs of Some (File j) \<Rightarrow> Some j | _ \<Rightarrow> None) else None)"

lemma etree_okD:
  assumes "etree_ok pre ok m"
  shows "m cs = Some (File j) \<Longrightarrow> prefix pre cs \<Longrightarrow> kv_file pre ok cs"
    and "cs \<noteq> [] \<Longrightarrow> prefix cs pre \<Longrightarrow> m cs \<noteq> Some (File j)"
    and "m cs = Some Dir \<Longrightarrow> prefix pre cs \<Longrightarrow> \<exists>ds. strict_prefix cs ds \<and> kv_file pre ok ds"
  using assms unfolding etree_ok_def by blast+

lemma file_not_dir: "etree_ok pre ok m \<Longrightarrow> kv_file pre ok cs \<Longrightarrow> m cs \<noteq> Some Dir"
  using etree_okD(3) [of pre ok m cs] file_antichain [of pre ok cs] file_below_pre [of pre ok cs]
  by (auto simp: strict_prefix_def)

lemma not_blocked:
  assumes ok: "etree_ok pre ok m" and f: "kv_file pre ok cs"
  shows "\<not> e_blocked cs m"
proof
  assume "e_blocked cs m"
  then obtain p j where p: "p \<noteq> []" "strict_prefix p cs" "m p = Some (File j)"
    using file_not_dir [OF assms] by (auto simp: e_blocked_def)
  have "prefix pre p \<or> prefix p pre"
    using p(2) file_below_pre [OF f] prefix_same_cases unfolding strict_prefix_def by blast
  then show False
    using p etree_okD(1,2) [OF ok] file_antichain [OF _ f] by (auto simp: strict_prefix_def)
qed

lemma etree_ok_set:
  assumes "etree_ok pre ok m" and f: "kv_file pre ok cs"
  shows "etree_ok pre ok (e_set cs j m)"
  using assms file_below_pre [OF f] unfolding etree_ok_def e_set_def
  by (auto simp: strict_prefix_def split: if_splits)

lemma etree_ok_delete: "etree_ok pre ok m \<Longrightarrow> etree_ok pre ok (e_delete cs m)"
  unfolding etree_ok_def e_delete_def by (auto split: if_splits)

lemma etcd_view_set: "kv_file pre ok cs \<Longrightarrow> etcd_view pre ok (e_set cs j m) = (etcd_view pre ok m)(cs \<mapsto> j)"
  using file_antichain [of pre ok _ cs]
  by (auto simp: etcd_view_def e_set_def fun_eq_iff strict_prefix_def)

lemma etcd_view_delete: "etcd_view pre ok (e_delete cs m) = (\<lambda>ds. if prefix cs ds then None else etcd_view pre ok m ds)"
  by (auto simp: etcd_view_def e_delete_def fun_eq_iff)

section \<open>The backend meets the interface\<close>

locale etcd_store = etcd_api +
  fixes pre :: "string list" and ok :: "string \<Rightarrow> bool"
  assumes pre: "pre \<noteq> []" "\<forall>c \<in> set pre. good_comp c"
    and names: "ok c \<Longrightarrow> good_comp c" "ok c \<Longrightarrow> \<not> hidden c"
begin

abbreviation view where "view w \<equiv> etcd_view pre ok (nodes w)"
abbreviation binv where "binv w \<equiv> sane w \<and> etree_ok pre ok (nodes w)"

lemma layout_good:
  "kv_file pre ok cs \<Longrightarrow> good_key cs" "kv_listdir pre ok cs \<Longrightarrow> good_key cs" "kv_deletable pre ok cs \<Longrightarrow> good_key cs"
proof -
  show f: "good_key cs" if "kv_file pre ok cs" for cs
    using that pre names(1) by (auto simp: good_key_def layout_defs elim!: kv_file.cases)
  show "good_key cs" if "kv_listdir pre ok cs"
    using that pre names(1) by (auto simp: good_key_def layout_defs elim!: kv_listdir.cases)
  show "good_key cs" if "kv_deletable pre ok cs"
    using that pre names(1) f by (auto simp: good_key_def layout_defs elim!: kv_deletable.cases)
qed

lemma above_dir:
  assumes "sane w" and "nodes w (cs @ c # ds) \<noteq> None" and "cs \<noteq> []"
  shows "nodes w (cs @ [c]) \<noteq> None" and "nodes w cs = Some Dir"
proof -
  show *: "nodes w (cs @ [c]) \<noteq> None"
    using assms(2)
  proof (induction ds rule: rev_induct)
    case (snoc d ds)
    then show ?case using parents [OF assms(1), of "cs @ c # ds" d] by auto
  qed simp
  show "nodes w cs = Some Dir" using parents [OF assms(1) *] assms(3) by simp
qed

lemma below_absent:
  assumes "sane w" and "nodes w cs = None" and "cs \<noteq> []"
  shows "e_delete cs (nodes w) = nodes w"
proof (rule ext)
  fix ds
  show "e_delete cs (nodes w) ds = nodes w ds"
  proof (cases "prefix cs ds")
    case True
    then obtain es where es: "ds = cs @ es" by (auto simp: prefix_def)
    then show ?thesis
      using assms above_dir(2) [of w cs] by (cases es) (fastforce simp: e_delete_def)+
  qed (simp add: e_delete_def)
qed

lemma ETCD_Keys_listing:
  assumes "binv w" and d: "kv_listdir pre ok cs" and n: "node_matches (nodes w) cs n"
  shows "n_Dir n \<and> (\<exists>ns. n_Nodes n = map (\<lambda>n. path (cs @ [n])) ns \<and> distinct ns \<and>
    (\<forall>n \<in> set ns. ok n) \<and> child_names (view w) cs \<subseteq> set ns)"
proof -
  have pd: "prefix pre cs" "cs \<noteq> []" using listdir_below_pre [OF d] by (auto simp: strict_prefix_def)
  have dir: "nodes w cs = Some Dir"
    using n assms(1) etree_okD(1) [of pre ok "nodes w" cs] dirs_no_file(1) [OF d] pd
    by (auto simp: node_matches_def split: option.splits enode.splits)
  then obtain ns where ns: "n_Dir n" "n_Nodes n = map (\<lambda>n. path (cs @ [n])) ns" "distinct ns"
      "set ns = {c. nodes w (cs @ [c]) \<noteq> None \<and> \<not> hidden c}"
    using n by (auto simp: node_matches_def)
  have "ok c" if "nodes w (cs @ [c]) \<noteq> None" for c
  proof -
    have "\<exists>ds. kv_file pre ok (cs @ c # ds)"
      using that assms(1) pd etree_okD(1,3) [of pre ok "nodes w" "cs @ [c]"]
      by (cases "nodes w (cs @ [c])"; cases "the (nodes w (cs @ [c]))")
        (auto simp: strict_prefix_def prefix_def)
    then show ?thesis using listdir_child_ok [OF d] by blast
  qed
  moreover have "c \<in> set ns" if c: "c \<in> child_names (view w) cs" for c
  proof -
    obtain ds where "view w (cs @ c # ds) \<noteq> None" using c by (auto simp: child_names_def)
    then have "kv_file pre ok (cs @ c # ds)" "nodes w (cs @ c # ds) \<noteq> None"
      by (auto simp: etcd_view_def split: if_splits option.splits)
    then show ?thesis
      using above_dir(1) [of w cs c ds] assms(1) pd(2) listdir_child_ok [OF d] names(2) ns(4) by auto
  qed
  ultimately show ?thesis using ns by blast
qed

lemma ETCD_Set_wp:
  "\<lbrakk>binv w; kv_file pre ok cs\<rbrakk> \<Longrightarrow>
    wp (ETCD_Set kapi (path cs) j) (\<lambda>_ w'. stays binv up w w' \<and> view w' = (view w)(cs \<mapsto> j))
      (\<lambda>_ w'. \<not> up w \<and> binv w' \<and> (view w' = view w \<or> view w' = (view w)(cs \<mapsto> j))) w"
  unfolding ETCD_Set_def wp_simps
  by (rule wp_mono [OF api_set [OF _ layout_good(1)]])
    (auto simp: stays_def etcd_view_set etree_ok_set not_blocked)

lemma ETCD_Get_wp:
  assumes "binv w" and f: "kv_file pre ok cs"
  shows "wp (ETCD_Get kapi (path cs) Some) (\<lambda>j w'. stays binv up w w' \<and> view w' = view w \<and> view w cs = Some j)
    (\<lambda>e w'. binv w' \<and> view w' = view w \<and>
       (if IsKeyNotFound kapi e then view w cs = None \<and> stays binv up w w' else \<not> up w)) w"
  unfolding ETCD_Get_def wp_simps
  by (rule wp_mono [OF api_get [OF _ layout_good(1)]])
    (use assms file_not_dir in \<open>auto simp: stays_def node_matches_def etcd_view_def unmarshal_def wp_simps
      split: option.splits enode.splits if_splits\<close>)

lemma ETCD_Keys_wp:
  assumes "binv w" and d: "kv_listdir pre ok cs"
  shows "wp (ETCD_Keys kapi (path cs))
    (\<lambda>ks w'. stays binv up w w' \<and> view w' = view w \<and> (\<exists>ns. ks = map (\<lambda>n. path (cs @ [n])) ns \<and>
       distinct ns \<and> (\<forall>n \<in> set ns. ok n) \<and> child_names (view w) cs \<subseteq> set ns))
    (\<lambda>_ w'. \<not> up w \<and> binv w' \<and> view w' = view w) w"
proof -
  have "child_names (view w) cs = {}" if "nodes w cs = None"
    using that above_dir(2) [of w cs] assms(1) listdir_below_pre [OF d]
    by (fastforce simp: child_names_def etcd_view_def strict_prefix_def split: if_splits)
  then show ?thesis
    unfolding ETCD_Keys_def wp_simps
    by (intro wp_mono [OF api_get [OF _ layout_good(2) [OF d]]])
      (use assms ETCD_Keys_listing [OF assms] in \<open>auto simp: stays_def wp_simps split: if_splits\<close>)
qed

lemma ETCD_Delete_below_wp:
  assumes "binv w" and "cs \<noteq> []" and g: "good_key cs"
  shows "wp (ETCD_Delete kapi (path cs))
    (\<lambda>_ w'. stays binv up w w' \<and> view w' = (\<lambda>ds. if prefix cs ds then None else view w ds))
    (\<lambda>_ w'. \<not> up w \<and> binv w' \<and> (view w' = view w \<or> view w' = (\<lambda>ds. if prefix cs ds then None else view w ds))) w"
proof -
  have *: "(\<lambda>ds. if prefix cs ds then None else view w ds) = view w" if "nodes w cs = None"
    using below_absent [of w cs] that assms(1,2) etcd_view_delete [of pre ok cs "nodes w"] by simp
  show ?thesis
    unfolding ETCD_Delete_def wp_simps
    by (intro wp_mono [OF api_delete [OF _ g]])
      (use assms * in \<open>auto simp: stays_def wp_simps etree_ok_delete etcd_view_delete split: if_splits\<close>)
qed

lemmas ETCD_Delete_wp = ETCD_Delete_below_wp [OF _ _ layout_good(3)]

lemma ETCD_Delete_all_wp:
  assumes "binv w"
  shows "wp (ETCD_Delete kapi (path pre)) (\<lambda>_ w'. stays binv up w w' \<and> view w' = (\<lambda>_. None))
    (\<lambda>_ w'. \<not> up w \<and> binv w' \<and> (view w' = view w \<or> view w' = (\<lambda>_. None))) w"
proof -
  have "(\<lambda>ds. if prefix pre ds then None else view w ds) = (\<lambda>_. None)"
    using file_below_pre [of pre ok] by (auto simp: etcd_view_def strict_prefix_def fun_eq_iff)
  then show ?thesis
    using ETCD_Delete_below_wp [OF assms pre(1)] pre by (simp add: good_key_def)
qed

lemma deletable_not_Nil: "kv_deletable pre ok cs \<Longrightarrow> cs \<noteq> []"
  by (auto dest: deletable_below_pre)

lemma del_spec_below: "del_spec cs m (\<lambda>ds. if prefix cs ds then None else m ds)"
  by (auto simp: del_spec_def map_le_def)

end

sublocale etcd_store \<subseteq> etcd: kv_backend_rec "etcd_backend kapi" view binv up pre ok
proof
  show "pre \<noteq> []" "\<forall>c \<in> set pre. good_comp c" by (fact pre)+
  show "good_comp c" if "ok c" for c using names(1) that .
  show "\<not> b_IsNotFoundError (etcd_backend kapi) (Wrap e m)" for e m
    by (simp add: etcd_backend_def ETCD_IsNotFoundError_def not_found)
qed (use ETCD_Set_wp ETCD_Get_wp ETCD_Keys_wp ETCD_Delete_all_wp in
    \<open>auto simp: etcd_backend_def ETCD_IsNotFoundError_def del_spec_below
      intro!: wp_mono [OF ETCD_Delete_wp] dest: deletable_not_Nil\<close>)

section \<open>A reference etcd\<close>

text \<open>The laws of \<open>etcd_api\<close> hold of this small server: a list of nodes, and a flag that
  makes every request time out.\<close>

record etcd_ref =
  er_nodes :: "(string list \<times> enode) list"
  er_up :: bool

definition er_comps :: "string \<Rightarrow> string list" where
  "er_comps k = Split (TrimLeft k (CHR ''/'')) (CHR ''/'')"

definition is_file :: "enode option \<Rightarrow> bool" where
  "is_file n = (case n of Some (File j) \<Rightarrow> True | _ \<Rightarrow> False)"

definition er_blocked :: "string list \<Rightarrow> (string list \<times> enode) list \<Rightarrow> bool" where
  "er_blocked cs ns \<longleftrightarrow> map_of ns cs = Some Dir \<or>
     list_ex (\<lambda>p. p \<noteq> [] \<and> p \<noteq> cs \<and> is_file (map_of ns p)) (prefixes cs)"

definition er_Set :: "string \<Rightarrow> json \<Rightarrow> ('a etcd_ref_scheme, unit) op" where
  "er_Set k j w = (let cs = er_comps k in
     if \<not> er_up w then (Err (Ext ''timeout''), w)
     else if er_blocked cs (er_nodes w) then (Err (Ext ''not a file''), w)
     else (Ok (), w\<lparr>er_nodes := AList.update cs (File j)
       (fold (\<lambda>p. AList.update p Dir) (filter (\<lambda>p. p \<noteq> [] \<and> p \<noteq> cs) (prefixes cs)) (er_nodes w))\<rparr>))"

definition er_children :: "string list \<Rightarrow> (string list \<times> enode) list \<Rightarrow> string list" where
  "er_children cs ns = remdups (map last (filter (\<lambda>ds. ds \<noteq> [] \<and> butlast ds = cs \<and> \<not> hidden (last ds)) (map fst ns)))"

definition er_Get :: "string \<Rightarrow> ('a etcd_ref_scheme, Node) op" where
  "er_Get k w = (let cs = er_comps k in
     if \<not> er_up w then (Err (Ext ''timeout''), w)
     else (case map_of (er_nodes w) cs of
         None \<Rightarrow> (Err (Ext ''100''), w)
       | Some (File j) \<Rightarrow> (Ok \<lparr>n_Key = k, n_Dir = False, n_Value = j, n_Nodes = []\<rparr>, w)
       | Some Dir \<Rightarrow> (Ok \<lparr>n_Key = k, n_Dir = True, n_Value = JNull,
            n_Nodes = map (\<lambda>c. path (cs @ [c])) (er_children cs (er_nodes w))\<rparr>, w)))"

definition er_Delete :: "string \<Rightarrow> bool \<Rightarrow> ('a etcd_ref_scheme, unit) op" where
  "er_Delete k rec w = (let cs = er_comps k in
     if \<not> er_up w then (Err (Ext ''timeout''), w)
     else (case map_of (er_nodes w) cs of
         None \<Rightarrow> (Err (Ext ''100''), w)
       | Some n \<Rightarrow> if n = Dir \<and> \<not> rec then (Err (Ext ''102''), w)
           else (Ok (), w\<lparr>er_nodes := filter (\<lambda>(ds, _). \<not> prefix cs ds) (er_nodes w)\<rparr>)))"

definition er_api :: "'a etcd_ref_scheme KeysAPI" where
  "er_api = \<lparr>kapi_Set = er_Set, kapi_Get = er_Get, kapi_Delete = er_Delete, IsKeyNotFound = (\<lambda>e. e = Ext ''100'')\<rparr>"

definition er_tree :: "'a etcd_ref_scheme \<Rightarrow> etree" where
  "er_tree w = map_of (er_nodes w)"

definition er_sane :: "'a etcd_ref_scheme \<Rightarrow> bool" where
  "er_sane w \<longleftrightarrow> (\<forall>cs c. er_tree w (cs @ [c]) \<noteq> None \<and> cs \<noteq> [] \<longrightarrow> er_tree w cs = Some Dir)"

lemma er_comps_path: "good_key cs \<Longrightarrow> er_comps (path cs) = cs"
  unfolding er_comps_def good_key_def by (rule Split_TrimLeft_path) simp_all

lemma is_file_iff: "is_file n \<longleftrightarrow> (\<exists>j. n = Some (File j))"
  by (auto simp: is_file_def split: option.splits enode.splits)

lemma er_blocked_iff: "er_blocked cs (er_nodes w) \<longleftrightarrow> e_blocked cs (er_tree w)"
  by (auto simp: er_blocked_def e_blocked_def er_tree_def list_ex_iff in_set_prefixes strict_prefix_def is_file_iff)

lemma map_of_fold_update: "map_of (fold (\<lambda>p. AList.update p v) ps m) k = (if k \<in> set ps then Some v else map_of m k)"
  by (induction ps arbitrary: m) auto

lemma er_Set_run:
  "good_key cs \<Longrightarrow> er_Set (path cs) j w =
     (if \<not> er_up w then (Err (Ext ''timeout''), w)
      else if e_blocked cs (er_tree w) then (Err (Ext ''not a file''), w) else (Ok (), snd (er_Set (path cs) j w)))"
  "\<lbrakk>good_key cs; er_up w; \<not> e_blocked cs (er_tree w)\<rbrakk> \<Longrightarrow>
     er_tree (snd (er_Set (path cs) j w)) = e_set cs j (er_tree w) \<and> er_up (snd (er_Set (path cs) j w))"
proof -
  show "good_key cs \<Longrightarrow> er_Set (path cs) j w =
     (if \<not> er_up w then (Err (Ext ''timeout''), w)
      else if e_blocked cs (er_tree w) then (Err (Ext ''not a file''), w) else (Ok (), snd (er_Set (path cs) j w)))"
    by (simp add: er_Set_def er_comps_path er_blocked_iff Let_def)
  show "\<lbrakk>good_key cs; er_up w; \<not> e_blocked cs (er_tree w)\<rbrakk> \<Longrightarrow>
     er_tree (snd (er_Set (path cs) j w)) = e_set cs j (er_tree w) \<and> er_up (snd (er_Set (path cs) j w))"
    by (simp add: er_Set_def er_comps_path er_blocked_iff Let_def)
      (auto simp: er_tree_def e_set_def fun_eq_iff map_of_fold_update in_set_prefixes strict_prefix_def)
qed

lemma er_sane_set:
  assumes "er_sane w" and "\<not> e_blocked cs (er_tree w)" and "er_tree w' = e_set cs j (er_tree w)"
  shows "er_sane w'"
  unfolding er_sane_def
proof (intro allI impI)
  fix ds c assume *: "er_tree w' (ds @ [c]) \<noteq> None \<and> ds \<noteq> []"
  show "er_tree w' ds = Some Dir"
  proof (cases "strict_prefix ds cs")
    case False
    then have "\<not> prefix (ds @ [c]) cs" by (auto simp: strict_prefix_def prefix_def)
    then have "er_tree w (ds @ [c]) \<noteq> None" using * assms(3) by (auto simp: e_set_def strict_prefix_def split: if_splits)
    then have "er_tree w ds = Some Dir" using * assms(1) by (auto simp: er_sane_def)
    then show ?thesis using False assms(2,3) by (auto simp: e_set_def e_blocked_def)
  qed (use * assms(3) in \<open>auto simp: e_set_def\<close>)
qed

lemma er_sane_delete:
  assumes "er_sane w" and "er_tree w' = e_delete cs (er_tree w)"
  shows "er_sane w'"
  using assms by (auto simp: er_sane_def e_delete_def prefix_def split: if_splits)

lemma map_of_filter_key: "map_of (filter (\<lambda>(k, v). P k) m) x = (if P x then map_of m x else None)"
  by (induction m) auto

lemma last_children:
  "last ` {ds \<in> K. ds \<noteq> [] \<and> butlast ds = cs \<and> \<not> hidden (last ds)} = {c. cs @ [c] \<in> K \<and> \<not> hidden c}"
proof (intro equalityI subsetI)
  fix c assume "c \<in> {c. cs @ [c] \<in> K \<and> \<not> hidden c}"
  then show "c \<in> last ` {ds \<in> K. ds \<noteq> [] \<and> butlast ds = cs \<and> \<not> hidden (last ds)}"
    by (intro image_eqI [of _ _ "cs @ [c]"]) simp_all
qed (auto simp: append_butlast_last_id)

lemma er_children_set: "set (er_children cs ns) = {c. map_of ns (cs @ [c]) \<noteq> None \<and> \<not> hidden c}"
  by (simp add: er_children_def last_children map_of_eq_None_iff)

lemma distinct_er_children: "distinct (er_children cs ns)"
  by (simp add: er_children_def)

interpretation er: etcd_api er_api er_tree er_sane er_up
proof
  show "er_tree w cs = Some Dir" if "er_sane w" "er_tree w (cs @ [c]) \<noteq> None" "cs \<noteq> []" for w cs c
    using that by (auto simp: er_sane_def)
  show "\<not> IsKeyNotFound er_api (Wrap e m)" "\<not> IsKeyNotFound er_api (Errorf m)" for e m
    by (simp_all add: er_api_def)
next
  fix w cs j assume *: "er_sane w" "good_key cs"
  show "wp (kapi_Set er_api (path cs) j)
      (\<lambda>_ w'. stays er_sane er_up w w' \<and> \<not> e_blocked cs (er_tree w) \<and> er_tree w' = e_set cs j (er_tree w))
      (\<lambda>_ w'. er_sane w' \<and> (er_tree w' = er_tree w \<and> e_blocked cs (er_tree w) \<or>
         \<not> er_up w \<and> (er_tree w' = er_tree w \<or> \<not> e_blocked cs (er_tree w) \<and> er_tree w' = e_set cs j (er_tree w)))) w"
  proof (cases "er_up w \<and> \<not> e_blocked cs (er_tree w)")
    case True
    then have "fst (er_Set (path cs) j w) = Ok ()"
      by (subst er_Set_run(1) [OF *(2)]) simp
    then show ?thesis
      using * True er_Set_run(2) [OF *(2), of w j] er_sane_set [OF *(1), of cs "snd (er_Set (path cs) j w)" j] by (simp add: er_api_def stays_def wp_def split_def)
  next
    case False
    then have "er_Set (path cs) j w = (Err (if er_up w then Ext ''not a file'' else Ext ''timeout''), w)"
      by (subst er_Set_run(1) [OF *(2)]) auto
    then show ?thesis using False * by (auto simp: er_api_def wp_def)
  qed
next
  fix w cs assume *: "er_sane w" "good_key cs"
  show "wp (kapi_Get er_api (path cs))
      (\<lambda>n w'. stays er_sane er_up w w' \<and> er_tree w' = er_tree w \<and> node_matches (er_tree w) cs n)
      (\<lambda>e w'. er_sane w' \<and> er_tree w' = er_tree w \<and>
         (if IsKeyNotFound er_api e then er_tree w cs = None \<and> stays er_sane er_up w w' else \<not> er_up w)) w"
  proof (cases "er_tree w cs")
    case (Some n)
    then show ?thesis
      using * distinct_er_children [of cs "er_nodes w"] er_children_set [of cs "er_nodes w"]
      by (cases n) (simp_all add: wp_def er_api_def er_Get_def er_comps_path er_tree_def stays_def
          node_matches_def, blast)
  qed (use * in \<open>simp add: wp_def er_api_def er_Get_def er_comps_path er_tree_def stays_def\<close>)
  show "wp (kapi_Delete er_api (path cs) True)
      (\<lambda>_ w'. stays er_sane er_up w w' \<and> er_tree w' = e_delete cs (er_tree w))
      (\<lambda>e w'. er_sane w' \<and>
         (if IsKeyNotFound er_api e then er_tree w cs = None \<and> er_tree w' = er_tree w \<and> stays er_sane er_up w w'
          else \<not> er_up w \<and> (er_tree w' = er_tree w \<or> er_tree w' = e_delete cs (er_tree w)))) w"
  proof -
    have d: "er_tree (w\<lparr>er_nodes := filter (\<lambda>(ds, _). \<not> prefix cs ds) (er_nodes w)\<rparr>) = e_delete cs (er_tree w)"
      by (rule ext) (simp add: er_tree_def e_delete_def map_of_filter_key)
    from er_sane_delete [OF *(1) d] d show ?thesis
      using *
      by (auto simp: wp_def er_api_def er_Delete_def er_comps_path stays_def Let_def er_tree_def split: option.splits)
  qed
qed

text \<open>The prefix the daemon uses, with every name that can be a key component.\<close>

definition etcd_name :: "string \<Rightarrow> bool" where
  "etcd_name s \<longleftrightarrow> good_comp s \<and> \<not> hidden s"

interpretation ref_store: etcd_store er_api er_tree er_sane er_up "[''longhorn'']" etcd_name
  by unfold_locales (auto simp: etcd_name_def good_comp_def)

end
