(* ===== verification/Store.thy ===== *)
theory Store
  imports Memory Etcd
begin

text \<open>
  The store the daemon runs on, \<open>KVStore\<close> over etcd, against the five maps of
  \<open>kv_abs\<close>: every writing operation is a command, \<open>cmd_abs\<close> says what it does to the
  maps, and \<open>kv_run\<close> carries it out.  The properties here hold for every etcd that
  satisfies the documented laws (\<open>etcd_store\<close>) and are witnessed on the reference etcd.
\<close>

datatype kv_cmd =
    CSetHost HostInfo
  | CSetSettings SettingsInfo
  | CSetVolume VolumeInfo
  | CSetVolumeBase VolumeInfo
  | CSetVolumeController ControllerInfo
  | CSetVolumeReplica ReplicaInfo
  | CSetVolumeReplicas string "ReplicaInfo gomap"
  | CDeleteVolumeController string
  | CDeleteVolumeReplicas string
  | CDeleteVolumeReplica string string
  | CDeleteVolume string
  | CNuclear

primrec kv_run :: "'w KVStore \<Rightarrow> kv_cmd \<Rightarrow> ('w, unit) op" where
  "kv_run s (CSetHost h) = SetHost s h"
| "kv_run s (CSetSettings x) = SetSettings s x"
| "kv_run s (CSetVolume v) = SetVolume s v"
| "kv_run s (CSetVolumeBase v) = SetVolumeBase s v"
| "kv_run s (CSetVolumeController c) = SetVolumeController s c"
| "kv_run s (CSetVolumeReplica r) = SetVolumeReplica s r"
| "kv_run s (CSetVolumeReplicas v rs) = SetVolumeReplicas s rs"
| "kv_run s (CDeleteVolumeController v) = DeleteVolumeController s v"
| "kv_run s (CDeleteVolumeReplicas v) = DeleteVolumeReplicas s v"
| "kv_run s (CDeleteVolumeReplica v r) = DeleteVolumeReplica s v r"
| "kv_run s (CDeleteVolume v) = DeleteVolume s v"
| "kv_run s CNuclear = kvNuclear s ''nuke key value store''"

text \<open>The commands the daemon may issue: names that can be key components, and instances
  that belong to the volume they are stored with.\<close>

definition replicas_ok :: "(string \<Rightarrow> bool) \<Rightarrow> string \<Rightarrow> ReplicaInfo gomap \<Rightarrow> bool" where
  "replicas_ok ok v rs \<longleftrightarrow> distinct (map fst rs) \<and>
     (\<forall>(k, r) \<in> set rs. ok k \<and> i_Name (r_InstanceInfo r) = k \<and> i_VolumeName (r_InstanceInfo r) = v)"

primrec cmd_ok :: "(string \<Rightarrow> bool) \<Rightarrow> kv_cmd \<Rightarrow> bool" where
  "cmd_ok ok (CSetHost h) \<longleftrightarrow> ok (h_UUID h)"
| "cmd_ok ok (CSetSettings x) \<longleftrightarrow> True"
| "cmd_ok ok (CSetVolume v) \<longleftrightarrow> volume_ok ok v"
| "cmd_ok ok (CSetVolumeBase v) \<longleftrightarrow> ok (v_Name v) \<and> volume_ints_ok v"
| "cmd_ok ok (CSetVolumeController c) \<longleftrightarrow> ok (i_VolumeName (c_InstanceInfo c))"
| "cmd_ok ok (CSetVolumeReplica r) \<longleftrightarrow> ok (i_VolumeName (r_InstanceInfo r)) \<and> ok (i_Name (r_InstanceInfo r))"
| "cmd_ok ok (CSetVolumeReplicas v rs) \<longleftrightarrow> ok v \<and> replicas_ok ok v rs"
| "cmd_ok ok (CDeleteVolumeController v) \<longleftrightarrow> ok v"
| "cmd_ok ok (CDeleteVolumeReplicas v) \<longleftrightarrow> ok v"
| "cmd_ok ok (CDeleteVolumeReplica v r) \<longleftrightarrow> ok v \<and> ok r"
| "cmd_ok ok (CDeleteVolume v) \<longleftrightarrow> ok v"
| "cmd_ok ok CNuclear \<longleftrightarrow> True"

primrec cmd_abs :: "kv_cmd \<Rightarrow> kv_abs \<Rightarrow> kv_abs" where
  "cmd_abs (CSetHost h) a = a\<lparr>a_hosts := (a_hosts a)(h_UUID h \<mapsto> h)\<rparr>"
| "cmd_abs (CSetSettings x) a = a\<lparr>a_settings := Some x\<rparr>"
| "cmd_abs (CSetVolume v) a = a\<lparr>
     a_base := (a_base a)(v_Name v \<mapsto> v\<lparr>v_Controller := None, v_Replicas := None\<rparr>),
     a_ctrl := (a_ctrl a)(v_Name v := v_Controller v),
     a_reps := (a_reps a)(v_Name v := map_of (replicas_of v))\<rparr>"
| "cmd_abs (CSetVolumeBase v) a =
     a\<lparr>a_base := (a_base a)(v_Name v \<mapsto> v\<lparr>v_Controller := None, v_Replicas := None\<rparr>)\<rparr>"
| "cmd_abs (CSetVolumeController c) a = a\<lparr>a_ctrl := (a_ctrl a)(i_VolumeName (c_InstanceInfo c) \<mapsto> c)\<rparr>"
| "cmd_abs (CSetVolumeReplica r) a = a\<lparr>a_reps := (a_reps a)(i_VolumeName (r_InstanceInfo r) :=
     (a_reps a (i_VolumeName (r_InstanceInfo r)))(i_Name (r_InstanceInfo r) \<mapsto> r))\<rparr>"
| "cmd_abs (CSetVolumeReplicas v rs) a = a\<lparr>a_reps := (a_reps a)(v := a_reps a v ++ map_of rs)\<rparr>"
| "cmd_abs (CDeleteVolumeController v) a = a\<lparr>a_ctrl := (a_ctrl a)(v := None)\<rparr>"
| "cmd_abs (CDeleteVolumeReplicas v) a = a\<lparr>a_reps := (a_reps a)(v := Map.empty)\<rparr>"
| "cmd_abs (CDeleteVolumeReplica v r) a = a\<lparr>a_reps := (a_reps a)(v := (a_reps a v)(r := None))\<rparr>"
| "cmd_abs (CDeleteVolume v) a = a\<lparr>a_base := (a_base a)(v := None), a_ctrl := (a_ctrl a)(v := None),
     a_reps := (a_reps a)(v := Map.empty)\<rparr>"
| "cmd_abs CNuclear a = empty_abs"

context kv_backend_rec
begin

lemma kv_run_wp:
  assumes "wfs w" and "cmd_ok ok c"
  shows "wp (kv_run s c)
    (\<lambda>_ w'. stays binv up w w' \<and> kv_wf pre (view w') \<and> abst w' = cmd_abs c (abst w))
    (\<lambda>_ w'. \<not> up w \<and> wfs w') w"
  using assms SetHost_wp SetSettings_wp SetVolume_wp SetVolumeBase_wp SetVolumeController_wp
    SetVolumeReplica_wp SetVolumeReplicas_wp DeleteVolumeController_wp DeleteVolumeReplicas_wp
    DeleteVolumeReplica_wp DeleteVolume_rec_wp kvNuclear_wp
  by (cases c) (simp_all add: replicas_ok_def)

end

section \<open>The daemon's store\<close>

text \<open>\<open>NewKVStore(prefix, NewETCDBackend(servers))\<close>.\<close>

definition etcd_kv :: "'w KeysAPI \<Rightarrow> string list \<Rightarrow> 'w KVStore" where
  "etcd_kv kapi pre = \<lparr>kv_Prefix = path pre, kv_b = etcd_backend kapi\<rparr>"

definition etcd_wf :: "('w \<Rightarrow> etree) \<Rightarrow> ('w \<Rightarrow> bool) \<Rightarrow> string list \<Rightarrow> (string \<Rightarrow> bool) \<Rightarrow> 'w \<Rightarrow> bool" where
  "etcd_wf nodes sane pre ok w \<longleftrightarrow> sane w \<and> etree_ok pre ok (nodes w) \<and> kv_wf pre (etcd_view pre ok (nodes w))"

definition etcd_abs :: "('w \<Rightarrow> etree) \<Rightarrow> string list \<Rightarrow> (string \<Rightarrow> bool) \<Rightarrow> 'w \<Rightarrow> kv_abs" where
  "etcd_abs nodes pre ok w = abs_of pre (etcd_view pre ok (nodes w))"

text \<open>Worlds reached from a start by any sequence of commands, each successful or failed.\<close>

inductive kv_reach :: "'w KVStore \<Rightarrow> (string \<Rightarrow> bool) \<Rightarrow> 'w \<Rightarrow> 'w \<Rightarrow> bool" for s ok w0 where
  start: "kv_reach s ok w0 w0"
| step: "\<lbrakk>kv_reach s ok w0 w; cmd_ok ok c; kv_run s c w = (r, w')\<rbrakk> \<Longrightarrow> kv_reach s ok w0 w'"

context etcd_store
begin

lemmas etcd_simps = etcd_kv_def etcd_wf_def etcd_abs_def

lemma etcd_run:
  assumes "etcd_wf nodes sane pre ok w" and "cmd_ok ok c"
  shows "wp (kv_run (etcd_kv kapi pre) c)
    (\<lambda>_ w'. etcd_wf nodes sane pre ok w' \<and> (up w \<longrightarrow> up w') \<and>
       etcd_abs nodes pre ok w' = cmd_abs c (etcd_abs nodes pre ok w))
    (\<lambda>_ w'. \<not> up w \<and> etcd_wf nodes sane pre ok w') w"
  using etcd.kv_run_wp [of w c] assms by (auto simp: etcd_simps stays_def elim!: wp_mono)

lemma etcd_reach:
  "kv_reach (etcd_kv kapi pre) ok w0 w \<Longrightarrow> etcd_wf nodes sane pre ok w0 \<Longrightarrow> etcd_wf nodes sane pre ok w"
proof (induction rule: kv_reach.induct)
  case (step w c r w')
  with etcd_run [of w c] show ?case by (auto simp: wp_def split: res.splits)
qed

lemma etcd_empty:
  assumes "sane w" and "\<forall>cs. prefix pre cs \<longrightarrow> nodes w cs = None" and "\<forall>cs j. cs \<noteq> [] \<and> prefix cs pre \<longrightarrow> nodes w cs \<noteq> Some (File j)"
  shows "etcd_wf nodes sane pre ok w"
proof -
  have "etcd_view pre ok (nodes w) = (\<lambda>_. None)"
    using assms(2) file_below_pre [of pre ok] by (auto simp: etcd_view_def strict_prefix_def fun_eq_iff)
  then show ?thesis using assms by (auto simp: etcd_wf_def etree_ok_def kv_wf_def)
qed

lemma etcd_SetVolume_GetVolume:
  assumes "etcd_wf nodes sane pre ok w" and "volume_ok ok v" and "up w"
  shows "\<exists>v' w'. tryE (SetVolume (etcd_kv kapi pre) v) id (\<lambda>_. GetVolume (etcd_kv kapi pre) (v_Name v)) w =
    (Ok (Some v'), w') \<and> same_volume v' v"
proof -
  have "wp (tryE (SetVolume (etcd_kv kapi pre) v) id (\<lambda>_. GetVolume (etcd_kv kapi pre) (v_Name v)))
      (\<lambda>r _. \<exists>v'. r = Some v' \<and> same_volume v' v) (\<lambda>_ _. False) w"
    using etcd.SetVolume_GetVolume [of w v] assms by (auto simp: etcd_simps elim!: wp_mono)
  then show ?thesis by (auto elim!: wp_OkE)
qed

lemma etcd_list:
  assumes "etcd_wf nodes sane pre ok w"
  shows "wp (ListVolumes (etcd_kv kapi pre))
      (\<lambda>r w'. etcd_abs nodes pre ok w' = etcd_abs nodes pre ok w \<and> etcd_wf nodes sane pre ok w' \<and> list_matches (etcd_abs nodes pre ok w) r) (\<lambda>_ w'. \<not> up w \<and> etcd_abs nodes pre ok w' = etcd_abs nodes pre ok w \<and> etcd_wf nodes sane pre ok w') w"
  using assms etcd.ListVolumes_wp [of w] by (auto simp: etcd_simps stays_def elim!: wp_mono)

lemma etcd_reads:
  assumes "etcd_wf nodes sane pre ok w" and "ok n"
  shows "wp (GetVolume (etcd_kv kapi pre) n)
      (\<lambda>r w'. etcd_abs nodes pre ok w' = etcd_abs nodes pre ok w \<and> etcd_wf nodes sane pre ok w' \<and> vol_matches (etcd_abs nodes pre ok w) n r) (\<lambda>_ w'. \<not> up w \<and> etcd_abs nodes pre ok w' = etcd_abs nodes pre ok w \<and> etcd_wf nodes sane pre ok w') w"
    and "wp (GetHost (etcd_kv kapi pre) n)
      (\<lambda>r w'. etcd_abs nodes pre ok w' = etcd_abs nodes pre ok w \<and> etcd_wf nodes sane pre ok w' \<and> r = a_hosts (etcd_abs nodes pre ok w) n) (\<lambda>_ w'. \<not> up w \<and> etcd_abs nodes pre ok w' = etcd_abs nodes pre ok w \<and> etcd_wf nodes sane pre ok w') w"
    and "wp (ListHosts (etcd_kv kapi pre))
      (\<lambda>r w'. etcd_abs nodes pre ok w' = etcd_abs nodes pre ok w \<and> etcd_wf nodes sane pre ok w' \<and> distinct (map fst r) \<and> map_of r = a_hosts (etcd_abs nodes pre ok w))
      (\<lambda>_ w'. \<not> up w \<and> etcd_abs nodes pre ok w' = etcd_abs nodes pre ok w \<and> etcd_wf nodes sane pre ok w') w"
    and "wp (GetSettings (etcd_kv kapi pre))
      (\<lambda>r w'. etcd_abs nodes pre ok w' = etcd_abs nodes pre ok w \<and> etcd_wf nodes sane pre ok w' \<and> r = a_settings (etcd_abs nodes pre ok w)) (\<lambda>_ w'. \<not> up w \<and> etcd_abs nodes pre ok w' = etcd_abs nodes pre ok w \<and> etcd_wf nodes sane pre ok w') w"
  using assms etcd.GetVolume_wp [of w n] etcd.GetHost_wp [of w n]
    etcd.ListHosts_wp [of w] etcd.GetSettings_wp [of w]
  by (auto simp: etcd_simps stays_def elim!: wp_mono)

end

context prefix_free_names
begin

lemma mem_round_trip:
  assumes "mem_inv pre ok c" and "kv_wf pre (mem_view pre ok c)" and "volume_ok ok v"
  shows "\<exists>v' c'. tryE (SetVolume \<lparr>kv_Prefix = path pre, kv_b = memory_backend\<rparr> v) id
      (\<lambda>_. GetVolume \<lparr>kv_Prefix = path pre, kv_b = memory_backend\<rparr> (v_Name v)) c =
    (Ok (Some v'), c') \<and> same_volume v' v"
proof -
  have "wp (tryE (SetVolume mem.s v) id (\<lambda>_. GetVolume mem.s (v_Name v))) (\<lambda>r _. \<exists>v'. r = Some v' \<and> same_volume v' v) (\<lambda>_ _. False) c"
    using mem.SetVolume_GetVolume [of c v] assms by (auto elim!: wp_mono)
  then show ?thesis by (auto elim!: wp_OkE)
qed

end

section \<open>Example objects\<close>

definition ex_instance :: "string \<Rightarrow> string \<Rightarrow> string \<Rightarrow> InstanceInfo" where
  "ex_instance vol ty name = \<lparr>i_ID = ''id-'' @ name, i_Type = ty, i_Name = name, i_HostID = ''host1'',
     i_Address = ''10.0.0.1'', i_Running = True, i_VolumeName = vol\<rparr>"

definition ex_volume :: "string \<Rightarrow> VolumeInfo" where
  "ex_volume name = \<lparr>v_Name = name, v_Size = 8192, v_BaseImage = [], v_FromBackup = [], v_NumberOfReplicas = 2,
     v_StaleReplicaTimeout = 20, v_Controller = Some \<lparr>c_InstanceInfo = ex_instance name ''controller'' ''ctrl''\<rparr>,
     v_Replicas = Some [(''rep1'', \<lparr>r_InstanceInfo = ex_instance name ''replica'' ''rep1'', r_Mode = ''RW'', r_BadTimestamp = []\<rparr>)],
     v_State = ''healthy'', v_EngineImage = ''img'', v_Endpoint = ''/dev/longhorn/vol'', v_Created = ''now'',
     v_RecurringJobs = None\<rparr>"

definition er_empty :: etcd_ref where
  "er_empty = \<lparr>er_nodes = [], er_up = True\<rparr>"

lemma ex_volume_ok: "ok n \<Longrightarrow> ok ''rep1'' \<Longrightarrow> volume_ok ok (ex_volume n)"
  by (simp add: volume_ok_def ex_volume_def ex_instance_def volume_ints_ok_def int_ok_def replicas_of_def)

lemma er_empty_wf: "etcd_wf er_tree er_sane [''longhorn''] etcd_name er_empty" "er_up er_empty"
  by (auto intro!: ref_store.etcd_empty simp: er_empty_def er_tree_def er_sane_def)

lemma ex_names: "etcd_name ''vol1''" "etcd_name ''rep1''"
  by (simp_all add: etcd_name_def good_comp_def hidden_def HasPrefix_def)

text \<open>A store that holds a volume.\<close>

lemma er_stored:
  obtains w :: etcd_ref where "etcd_wf er_tree er_sane [''longhorn''] etcd_name w" "er_up w" "a_base (etcd_abs er_tree [''longhorn''] etcd_name w) ''vol1'' \<noteq> None"
proof -
  have v: "v_Name (ex_volume ''vol1'') = ''vol1''" by (simp add: ex_volume_def)
  have "wp (kv_run (etcd_kv er_api [''longhorn'']) (CSetVolume (ex_volume ''vol1'')))
      (\<lambda>_ w'. etcd_wf er_tree er_sane [''longhorn''] etcd_name w' \<and> er_up w' \<and> a_base (etcd_abs er_tree [''longhorn''] etcd_name w') ''vol1'' \<noteq> None)
      (\<lambda>_ _. False) er_empty"
    by (rule wp_mono [OF ref_store.etcd_run [OF er_empty_wf(1)]]) (use er_empty_wf v in \<open>auto simp: ex_volume_ok ex_names\<close>)
  then show ?thesis using that by (auto elim!: wp_OkE)
qed

section \<open>Properties\<close>

text \<open>C1: every writing operation of the store, with names that can be components of a key and
  instances filed under their own volume (\<open>cmd_ok\<close>), run over any etcd that obeys the documented
  laws: when it returns without an error it has done to the five abstract maps exactly what
  its specification \<open>cmd_abs\<close> says; it never panics; it returns an error only if etcd is
  unavailable, and then too (a volume written half-way included) what it leaves behind is a
  well-formed store.  (An operation that has nothing to write, such as storing no replicas,
  returns without an error also when etcd is unavailable.)\<close>

theorem store_refines_abs:
  assumes "etcd_store kapi nodes sane up pre ok"
    and "etcd_wf nodes sane pre ok w" and "cmd_ok ok c"
  shows "wp (kv_run (etcd_kv kapi pre) c)
    (\<lambda>_ w'. etcd_wf nodes sane pre ok w' \<and> (up w \<longrightarrow> up w') \<and>
       etcd_abs nodes pre ok w' = cmd_abs c (etcd_abs nodes pre ok w))
    (\<lambda>_ w'. \<not> up w \<and> etcd_wf nodes sane pre ok w') w"
  by (rule etcd_store.etcd_run [OF assms])

theorem store_refines_abs_witness:
  "wp (kv_run (etcd_kv er_api [''longhorn'']) (CSetVolume (ex_volume ''vol1'')))
    (\<lambda>_ w'. etcd_wf er_tree er_sane [''longhorn''] etcd_name w' \<and> (er_up er_empty \<longrightarrow> er_up w') \<and>
       etcd_abs er_tree [''longhorn''] etcd_name w' =
         cmd_abs (CSetVolume (ex_volume ''vol1'')) (etcd_abs er_tree [''longhorn''] etcd_name er_empty))
    (\<lambda>_ w'. \<not> er_up er_empty \<and> etcd_wf er_tree er_sane [''longhorn''] etcd_name w') er_empty"
  by (rule store_refines_abs [OF ref_store.etcd_store_axioms er_empty_wf(1)])
    (simp add: ex_volume_ok ex_names)

text \<open>C2: no sequence of store operations, whichever of them fail, leaves an etcd that held
  nothing under the prefix with a malformed store: every document decodes and is filed under
  the name it carries.\<close>

theorem store_reachable_wf:
  assumes "etcd_store kapi nodes sane up pre ok" and "sane w0"
    and "\<forall>cs. prefix pre cs \<longrightarrow> nodes w0 cs = None"
    and "\<forall>cs j. cs \<noteq> [] \<and> prefix cs pre \<longrightarrow> nodes w0 cs \<noteq> Some (File j)"
    and "kv_reach (etcd_kv kapi pre) ok w0 w"
  shows "etcd_wf nodes sane pre ok w"
  by (rule etcd_store.etcd_reach [OF assms(1,5) etcd_store.etcd_empty [OF assms(1-4)]])

theorem store_reachable_wf_witness:
  "etcd_wf er_tree er_sane [''longhorn''] etcd_name
     (snd (kv_run (etcd_kv er_api [''longhorn'']) (CSetVolume (ex_volume ''vol1'')) er_empty))"
proof (rule store_reachable_wf [OF ref_store.etcd_store_axioms])
  show "kv_reach (etcd_kv er_api [''longhorn'']) etcd_name er_empty
      (snd (kv_run (etcd_kv er_api [''longhorn'']) (CSetVolume (ex_volume ''vol1'')) er_empty))"
    by (rule kv_reach.step [OF kv_reach.start, of _ "CSetVolume (ex_volume ''vol1'')"])
      (simp add: ex_volume_ok ex_names, rule surjective_pairing)
qed (simp_all add: er_empty_def er_tree_def er_sane_def)

text \<open>C3: a volume that has been stored is read back whole: base, controller and replicas,
  over any etcd that obeys its laws and is available, whatever was stored before under
  that name.\<close>

theorem SetVolume_then_GetVolume:
  assumes "etcd_store kapi nodes sane up pre ok"
    and "etcd_wf nodes sane pre ok w" and "volume_ok ok v" and "up w"
  shows "\<exists>v' w'. tryE (SetVolume (etcd_kv kapi pre) v) id (\<lambda>_. GetVolume (etcd_kv kapi pre) (v_Name v)) w =
    (Ok (Some v'), w') \<and> same_volume v' v"
  by (rule etcd_store.etcd_SetVolume_GetVolume [OF assms])

theorem SetVolume_then_GetVolume_witness:
  "\<exists>v' w'. tryE (SetVolume (etcd_kv er_api [''longhorn'']) (ex_volume ''vol1'')) id
      (\<lambda>_. GetVolume (etcd_kv er_api [''longhorn'']) (v_Name (ex_volume ''vol1''))) er_empty =
    (Ok (Some v'), w') \<and> same_volume v' (ex_volume ''vol1'')"
  by (rule SetVolume_then_GetVolume [OF ref_store.etcd_store_axioms er_empty_wf(1) _ er_empty_wf(2)])
    (simp add: ex_volume_ok ex_names)

text \<open>C4: listing the volumes of a well-formed store returns every stored volume exactly once,
  each with the controller and the replicas that are stored for it, and nothing else; the store
  is not changed, and the listing fails only when etcd is unavailable.\<close>

theorem ListVolumes_exact:
  assumes "etcd_store kapi nodes sane up pre ok" and "etcd_wf nodes sane pre ok w"
  shows "wp (ListVolumes (etcd_kv kapi pre))
    (\<lambda>r w'. etcd_abs nodes pre ok w' = etcd_abs nodes pre ok w \<and> etcd_wf nodes sane pre ok w' \<and>
       list_matches (etcd_abs nodes pre ok w) r)
    (\<lambda>_ w'. \<not> up w \<and> etcd_abs nodes pre ok w' = etcd_abs nodes pre ok w \<and> etcd_wf nodes sane pre ok w') w"
  by (rule etcd_store.etcd_list [OF assms])

theorem ListVolumes_exact_witness:
  "\<exists>w :: etcd_ref. a_base (etcd_abs er_tree [''longhorn''] etcd_name w) ''vol1'' \<noteq> None \<and>
   wp (ListVolumes (etcd_kv er_api [''longhorn'']))
    (\<lambda>r w'. etcd_abs er_tree [''longhorn''] etcd_name w' = etcd_abs er_tree [''longhorn''] etcd_name w \<and>
         etcd_wf er_tree er_sane [''longhorn''] etcd_name w' \<and>
       list_matches (etcd_abs er_tree [''longhorn''] etcd_name w) r)
    (\<lambda>_ w'. \<not> er_up w \<and> etcd_abs er_tree [''longhorn''] etcd_name w' = etcd_abs er_tree [''longhorn''] etcd_name w \<and>
         etcd_wf er_tree er_sane [''longhorn''] etcd_name w') w"
proof (rule er_stored)
  fix w :: etcd_ref assume "etcd_wf er_tree er_sane [''longhorn''] etcd_name w" "a_base (etcd_abs er_tree [''longhorn''] etcd_name w) ''vol1'' \<noteq> None"
  then show ?thesis using ListVolumes_exact [OF ref_store.etcd_store_axioms] by blast
qed

text \<open>C5: reading back under a name gives exactly what the abstract store holds there, for
  volumes (with their instances) and for hosts; a name that is not stored gives nil and no
  error.\<close>

theorem reads_exact:
  assumes "etcd_store kapi nodes sane up pre ok" and "etcd_wf nodes sane pre ok w" and "ok n" and "up w"
  shows "\<exists>vol h w' w''. GetVolume (etcd_kv kapi pre) n w = (Ok vol, w') \<and> vol_matches (etcd_abs nodes pre ok w) n vol \<and>
    GetHost (etcd_kv kapi pre) n w = (Ok h, w'') \<and> h = a_hosts (etcd_abs nodes pre ok w) n"
  using etcd_store.etcd_reads [OF assms(1-3)] assms(4) by (auto elim!: wp_OkE)

theorem reads_exact_witness:
  "\<exists>(w :: etcd_ref) vol h w' w''. a_base (etcd_abs er_tree [''longhorn''] etcd_name w) ''vol1'' \<noteq> None \<and>
     GetVolume (etcd_kv er_api [''longhorn'']) ''vol1'' w = (Ok vol, w') \<and>
     vol_matches (etcd_abs er_tree [''longhorn''] etcd_name w) ''vol1'' vol \<and>
     GetHost (etcd_kv er_api [''longhorn'']) ''vol1'' w = (Ok h, w'') \<and>
     h = a_hosts (etcd_abs er_tree [''longhorn''] etcd_name w) ''vol1''"
proof (rule er_stored)
  fix w :: etcd_ref assume "etcd_wf er_tree er_sane [''longhorn''] etcd_name w" "er_up w" "a_base (etcd_abs er_tree [''longhorn''] etcd_name w) ''vol1'' \<noteq> None"
  then show ?thesis using reads_exact [OF ref_store.etcd_store_axioms _ ex_names(1), of w] by blast
qed

text \<open>C31: the in-memory backend meets the same round trip as long as no name in use is a proper
  prefix of another one: a stored volume is read back whole, and neither an error nor a panic is
  possible.\<close>

theorem memory_SetVolume_GetVolume:
  assumes "pre \<noteq> []" and "\<forall>c \<in> set pre. good_comp c" and "\<forall>c. ok c \<longrightarrow> good_comp c"
    and "\<forall>c d. ok c \<and> ok d \<and> prefix c d \<longrightarrow> c = d"
    and "mem_inv pre ok c" and "kv_wf pre (mem_view pre ok c)" and "volume_ok ok v"
  shows "\<exists>v' c'. tryE (SetVolume \<lparr>kv_Prefix = path pre, kv_b = memory_backend\<rparr> v) id
      (\<lambda>_. GetVolume \<lparr>kv_Prefix = path pre, kv_b = memory_backend\<rparr> (v_Name v)) c =
    (Ok (Some v'), c') \<and> same_volume v' v"
proof -
  have "prefix_free_names pre ok" by unfold_locales (use assms in auto)
  then show ?thesis by (rule prefix_free_names.mem_round_trip) (use assms in auto)
qed

definition ex_test_volume :: VolumeInfo where
  "ex_test_volume = (ex_volume ''volume1'')\<lparr>v_Replicas := Some [(''replica-name-replica1-volume1'',
     \<lparr>r_InstanceInfo = ex_instance ''volume1'' ''replica'' ''replica-name-replica1-volume1'', r_Mode = ''RW'', r_BadTimestamp = []\<rparr>)]\<rparr>"

theorem memory_SetVolume_GetVolume_witness:
  "\<exists>v' c'. tryE (SetVolume \<lparr>kv_Prefix = path [''longhorn''], kv_b = memory_backend\<rparr> ex_test_volume) id
      (\<lambda>_. GetVolume \<lparr>kv_Prefix = path [''longhorn''], kv_b = memory_backend\<rparr> (v_Name ex_test_volume)) [] =
    (Ok (Some v'), c') \<and> same_volume v' ex_test_volume"
proof (rule memory_SetVolume_GetVolume [where ok = test_name])
  show "\<forall>c d. test_name c \<and> test_name d \<and> prefix c d \<longrightarrow> c = d" using test_store.prefix_free by blast
  show "\<forall>c. test_name c \<longrightarrow> good_comp c" using test_store.names by blast
qed (simp_all add: mem_inv_def kv_wf_def mem_view_def volume_ok_def ex_test_volume_def ex_volume_def ex_instance_def volume_ints_ok_def
    int_ok_def replicas_of_def test_name_def good_comp_def)

end
