(* ===== verification/Time.thy ===== *)
theory Time
  imports GoStd "HOL-Library.Signed_Division"
begin

text \<open>
  Package \<open>time\<close> as the manager uses it, and \<open>util/time.go\<close>.  An instant is the number of
  nanoseconds since the Unix epoch; a location is a fixed offset in seconds east of UTC.
  \<open>parse_layout\<close> follows \<open>time.Parse\<close> on the layout \<open>RFC3339\<close> (with or without the zone
  element), element by element: a failure names the layout element and the text it was
  matched against, which \<open>ParseLocalTime\<close> inspects.  \<open>format_seconds\<close> is \<open>Format\<close> with
  that layout in UTC.  The lemmas show that what is formatted parses back to the same second.
\<close>

section \<open>Calendar\<close>

text \<open>Days since the epoch of a civil date and back, counting years from March so that the
  leap day is the last day of a year; an era is 400 years.\<close>

definition is_leap :: "int \<Rightarrow> bool" where
  "is_leap y \<longleftrightarrow> y mod 4 = 0 \<and> (y mod 100 \<noteq> 0 \<or> y mod 400 = 0)"

definition days_in :: "int \<Rightarrow> int \<Rightarrow> int" where
  "days_in m y = (if m = 2 then (if is_leap y then 29 else 28)
     else if m \<in> {4, 6, 9, 11} then 30 else 31)"

definition days_from_civil :: "int \<Rightarrow> int \<Rightarrow> int \<Rightarrow> int" where
  "days_from_civil y m d =
     (let y' = (if m \<le> 2 then y - 1 else y);
          era = y' div 400;
          yoe = y' mod 400;
          mp = (if m \<le> 2 then m + 9 else m - 3);
          doy = (153 * mp + 2) div 5 + d - 1;
          doe = yoe * 365 + yoe div 4 - yoe div 100 + doy
      in era * 146097 + doe - 719468)"

definition civil_from_days :: "int \<Rightarrow> int \<times> int \<times> int" where
  "civil_from_days z0 =
     (let z = z0 + 719468;
          era = z div 146097;
          doe = z mod 146097;
          yoe = (doe - doe div 1460 + doe div 36524 - doe div 146096) div 365;
          doy = doe - (365 * yoe + yoe div 4 - yoe div 100);
          mp = (5 * doy + 2) div 153;
          d = doy - (153 * mp + 2) div 5 + 1;
          m = (if mp < 10 then mp + 3 else mp - 9)
      in (yoe + era * 400 + (if m \<le> 2 then 1 else 0), m, d))"

section \<open>Parsing and formatting\<close>

record ParseError =
  LayoutElem :: string
  ValueElem :: string

type_synonym 'a parsed = "ParseError + 'a \<times> string"

definition bad :: "string \<Rightarrow> string \<Rightarrow> ParseError + 'a" where
  "bad elem v = Inl \<lparr>LayoutElem = elem, ValueElem = v\<rparr>"

definition digit_val :: "char \<Rightarrow> int" where
  "digit_val c = int (of_char c - 48)"

text \<open>\<open>getnum\<close>: two digits, or one where the element is not fixed.\<close>

fun getnum :: "string \<Rightarrow> bool \<Rightarrow> string \<Rightarrow> int parsed" where
  "getnum elem fixed (a # b # s) =
     (if is_digit a \<and> is_digit b then Inr (10 * digit_val a + digit_val b, s)
      else if is_digit a \<and> \<not> fixed then Inr (digit_val a, b # s)
      else bad elem (a # b # s))"
| "getnum elem fixed s =
     (if \<not> fixed \<and> s \<noteq> [] \<and> is_digit (hd s) then Inr (digit_val (hd s), tl s) else bad elem s)"

definition lit :: "string \<Rightarrow> string \<Rightarrow> unit parsed" where
  "lit p s = (if HasPrefix s p then Inr ((), drop (length p) s) else bad p s)"

definition getyear :: "string \<Rightarrow> int parsed" where
  "getyear s = (if length s < 4 \<or> list_ex (\<lambda>c. \<not> is_digit c) (take 4 s) then bad ''2006'' s
     else Inr (foldl (\<lambda>n c. 10 * n + digit_val c) 0 (take 4 s), drop 4 s))"

text \<open>A fraction of a second may follow the seconds although the layout has none.\<close>

definition fraction :: "string \<Rightarrow> int \<times> string" where
  "fraction s = (if HasPrefix s ''.'' \<and> tl s \<noteq> [] \<and> is_digit (hd (tl s))
     then (let ds = takeWhile is_digit (tl s)
           in (foldl (\<lambda>n c. 10 * n + digit_val c) 0 (take 9 (ds @ replicate 9 (CHR ''0''))),
               dropWhile is_digit (tl s)))
     else (0, s))"

definition bindP :: "'a parsed \<Rightarrow> ('a \<Rightarrow> string \<Rightarrow> 'b parsed) \<Rightarrow> 'b parsed" where
  "bindP p k = (case p of Inl e \<Rightarrow> Inl e | Inr (a, s) \<Rightarrow> k a s)"

definition ranged :: "string \<Rightarrow> int \<Rightarrow> int \<Rightarrow> int parsed \<Rightarrow> int parsed" where
  "ranged elem lo hi p = bindP p (\<lambda>n s. if lo \<le> n \<and> n < hi then Inr (n, s) else bad elem s)"

definition zone :: "string \<Rightarrow> int parsed" where
  "zone s = (if HasPrefix s ''Z'' then Inr (0, tl s)
     else if length s < 6 \<or> s ! 3 \<noteq> CHR '':'' then bad ''Z07:00'' s
     else if list_ex (\<lambda>c. \<not> is_digit c) [s ! 1, s ! 2, s ! 4, s ! 5] then bad ''Z07:00'' s
     else (let off = 3600 * (10 * digit_val (s ! 1) + digit_val (s ! 2)) +
                     60 * (10 * digit_val (s ! 4) + digit_val (s ! 5))
           in if s ! 0 = CHR ''+'' then Inr (off, drop 6 s)
              else if s ! 0 = CHR ''-'' then Inr (- off, drop 6 s)
              else bad ''Z07:00'' s))"

definition civil_seconds :: "int \<Rightarrow> int \<Rightarrow> int \<Rightarrow> int \<Rightarrow> int \<Rightarrow> int \<Rightarrow> int" where
  "civil_seconds y mo d h mi s = 86400 * days_from_civil y mo d + 3600 * h + 60 * mi + s"

definition parse_layout :: "bool \<Rightarrow> int \<Rightarrow> string \<Rightarrow> ParseError + int" where
  "parse_layout zoned loc s =
     (case bindP (getyear s) (\<lambda>y s.
        bindP (lit ''-'' s) (\<lambda>_ s. bindP (ranged ''01'' 1 13 (getnum ''01'' True s)) (\<lambda>mo s.
        bindP (lit ''-'' s) (\<lambda>_ s. bindP (getnum ''02'' True s) (\<lambda>d s.
        bindP (lit ''T'' s) (\<lambda>_ s. bindP (ranged ''15'' 0 24 (getnum ''15'' False s)) (\<lambda>h s.
        bindP (lit '':'' s) (\<lambda>_ s. bindP (ranged ''04'' 0 60 (getnum ''04'' True s)) (\<lambda>mi s.
        bindP (lit '':'' s) (\<lambda>_ s. bindP (ranged ''05'' 0 60 (getnum ''05'' True s)) (\<lambda>sec s.
        (let (ns, s) = fraction s in
         bindP (if zoned then zone s else Inr (loc, s)) (\<lambda>off s.
           if s \<noteq> [] then bad [] s
           else if d < 1 \<or> days_in mo y < d then bad [] s
           else Inr (1000000000 * (civil_seconds y mo d h mi sec - off) + ns, s)))))))))))))) of
        Inl e \<Rightarrow> Inl e
      | Inr (t, s) \<Rightarrow> Inr t)"

definition two_digits :: "int \<Rightarrow> string" where
  "two_digits n = [digit (nat (n div 10)), digit (nat (n mod 10))]"

definition four_digits :: "int \<Rightarrow> string" where
  "four_digits n = two_digits (n div 100) @ two_digits (n mod 100)"

definition format_seconds :: "int \<Rightarrow> string" where
  "format_seconds t =
     (let (y, mo, d) = civil_from_days (t div 86400); r = t mod 86400
      in four_digits y @ ''-'' @ two_digits mo @ ''-'' @ two_digits d @ ''T'' @
         two_digits (r div 3600) @ '':'' @ two_digits (r div 60 mod 60) @ '':'' @ two_digits (r mod 60))"

section \<open>util/time.go\<close>

definition ParseTimeZ :: "string \<Rightarrow> ParseError + int" where
  "ParseTimeZ s = parse_layout True 0 s"

definition ParseLocalTime :: "string \<Rightarrow> int \<Rightarrow> ParseError + int" where
  "ParseLocalTime ts loc = (case parse_layout True loc ts of
      Inl e \<Rightarrow> if LayoutElem e = ''Z07:00'' \<and> ValueElem e = [] then parse_layout False loc ts else Inl e
    | Inr t \<Rightarrow> Inr t)"

definition FormatTimeZ :: "int \<Rightarrow> string" where
  "FormatTimeZ t = format_seconds (t div 1000000000) @ ''Z''"

text \<open>\<open>In(loc).Format\<close>: the local clock with the offset, which is \<open>Z\<close> for UTC.\<close>

definition FormatLocalTime :: "int \<Rightarrow> int \<Rightarrow> string" where
  "FormatLocalTime t loc = format_seconds (t div 1000000000 + loc) @
     (if loc = 0 then ''Z''
      else (let m = \<bar>loc\<bar> div 60
            in (if loc < 0 then ''-'' else ''+'') @ two_digits (m div 60) @ '':'' @ two_digits (m mod 60)))"

definition FromMillis :: "int \<Rightarrow> int" where
  "FromMillis t = (t sdiv 1000) * 1000000000 + t smod 1000 * 1000000"

definition zero_time :: int where
  "zero_time = 1000000000 * (86400 * days_from_civil 1 1 1)"

definition LimitToPeriod :: "int \<times> int \<Rightarrow> int \<times> int \<Rightarrow> int \<times> int" where
  "LimitToPeriod p t =
     (if fst t < fst p \<or> fst t = zero_time then fst p else fst t,
      if snd t > snd p \<or> snd t = zero_time then snd p else snd t)"

text \<open>The errors of \<open>ParsePeriod\<close>: one of the parser's, or its own.  The clock is an argument.\<close>

definition ParsePeriod :: "int \<Rightarrow> string \<Rightarrow> int \<Rightarrow> gerr + int \<times> int" where
  "ParsePeriod now s loc =
     (let perr = (\<lambda>e. Inl (Ext (''parsing time as '' @ LayoutElem e)));
          own = Inl (Errorf (''Error parsing time interval '' @ s))
      in if s = [] then Inr (0, now)
         else (case Split s (CHR ''/'') of
             [_] \<Rightarrow> (case ParseLocalTime s loc of Inl e \<Rightarrow> perr e | Inr t0 \<Rightarrow> Inr (t0, now))
           | [a, b] \<Rightarrow> (case ParseLocalTime a loc of
                Inl e \<Rightarrow> perr e
              | Inr t0 \<Rightarrow> if HasPrefix b ''P'' then own
                  else (case ParseLocalTime b loc of Inl e \<Rightarrow> perr e | Inr t1 \<Rightarrow> Inr (t0, t1)))
           | _ \<Rightarrow> own))"

section \<open>The calendar is consistent\<close>

text \<open>A day of an era is day \<open>s\<close> of four-year group \<open>q\<close> of century \<open>c\<close>; its year is
  year \<open>t\<close> of the group.\<close>

lemma era_day:
  assumes "0 \<le> doe" and "doe < (146097 :: int)"
  obtains c q s where "doe = 36524 * c + 1461 * q + s" and "0 \<le> c" "c \<le> 3" "0 \<le> q" "q \<le> 24" "0 \<le> s" "s \<le> 1460"
    and "s = 1460 \<and> q = 24 \<longrightarrow> c = 3"
proof (cases "doe = 146096")
  case True
  then show ?thesis by (intro that [of 3 24 1460]) auto
next
  case False
  let ?c = "doe div 36524" and ?r = "doe mod 36524"
  have r: "0 \<le> ?r" "?r < 36524" "doe = 36524 * ?c + ?r" by simp_all
  have c: "0 \<le> ?c" "?c \<le> 3" using assms False by linarith+
  have q: "?r = 1461 * (?r div 1461) + ?r mod 1461" "0 \<le> ?r mod 1461" "?r mod 1461 < 1461" by simp_all
  have q': "0 \<le> ?r div 1461" "?r div 1461 \<le> 24" using r by linarith+
  show ?thesis
    by (rule that [of ?c "?r div 1461" "?r mod 1461"]) (use r c q q' in linarith)+
qed

lemma era_year:
  assumes doe: "doe = 36524 * c + 1461 * q + (s :: int)" and "0 \<le> c" "c \<le> 3" "0 \<le> q" "q \<le> 24" "0 \<le> s" "s \<le> 1460"
    and last: "s = 1460 \<and> q = 24 \<longrightarrow> c = 3"
  shows "(doe - doe div 1460 + doe div 36524 - doe div 146096) div 365 =
    100 * c + 4 * q + (if s = 1460 then 3 else s div 365)"
proof -
  define e where "e = (24 * c + q + s) div 1460"
  have "doe = 1460 * (25 * c + q) + (24 * c + q + s)" using doe by simp
  then have A: "doe div 1460 = 25 * c + q + e" by (simp add: e_def)
  have e: "e = 0 \<or> e = 1" "e = 1 \<Longrightarrow> 1364 \<le> s" "s = 1460 \<Longrightarrow> e = 1" using assms unfolding e_def by linarith+
  have BC: "doe div 36524 - doe div 146096 = c"
  proof (cases "s = 1460 \<and> q = 24")
    case True
    then show ?thesis using doe last by simp
  next
    case False
    then have "1461 * q + s < 36524" using assms by linarith
    then have "doe div 36524 = c" "doe div 146096 = 0"
      using assms by (auto intro!: int_div_pos_eq [of _ _ _ "1461 * q + s"])
    then show ?thesis by simp
  qed
  have "doe - doe div 1460 + doe div 36524 - doe div 146096 = 365 * (100 * c + 4 * q) + (s - e)"
    using A BC doe by simp
  moreover have "(s - e) div 365 = (if s = 1460 then 3 else s div 365)"
  proof (cases "1364 \<le> s \<and> s < 1460")
    case True
    have "s div 365 = 3" using True by (intro int_div_pos_eq [of _ _ _ "s - 1095"]) auto
    moreover have "(s - 1) div 365 = 3" using True by (intro int_div_pos_eq [of _ _ _ "s - 1096"]) auto
    ultimately show ?thesis using e True by auto
  next
    case False
    then have "s = 1460 \<and> e = 1 \<or> s \<noteq> 1460 \<and> e = 0" using e assms(7) by linarith
    then show ?thesis by auto
  qed
  ultimately show ?thesis by simp
qed

lemma era_year_div:
  assumes "0 \<le> t" "t \<le> (3 :: int)" "0 \<le> q" "q \<le> 24"
  shows "(100 * c + 4 * q + t) div 4 = 25 * c + q" and "(100 * c + 4 * q + t) div 100 = c"
  using assms by (intro int_div_pos_eq [of _ _ _ t] int_div_pos_eq [of _ _ _ "4 * q + t"]; simp)+

lemma month_day:
  assumes "0 \<le> doy" and "doy \<le> (365 :: int)" and "mp = (5 * doy + 2) div 153"
  shows "0 \<le> mp" "mp \<le> 11" "1 \<le> doy - (153 * mp + 2) div 5 + 1"
    "doy - (153 * mp + 2) div 5 + 1 \<le> (if mp = 11 then (if doy = 365 then 29 else 28) else if mp \<in> {1, 3, 6, 8} then 30 else 31)"
proof -
  have mp: "153 * mp \<le> 5 * doy + 2" "5 * doy + 2 < 153 * mp + 153" using assms(3) by linarith+
  then show range: "0 \<le> mp" "mp \<le> 11" using assms by linarith+
  then have "mp \<in> {0, 1, 2, 3, 4, 5, 6, 7, 8, 9, 10, 11}" by (simp; presburger)
  then show "1 \<le> doy - (153 * mp + 2) div 5 + 1"
    "doy - (153 * mp + 2) div 5 + 1 \<le> (if mp = 11 then (if doy = 365 then 29 else 28) else if mp \<in> {1, 3, 6, 8} then 30 else 31)"
    using mp assms(1,2) by auto
qed

lemma civil_from_days_eq:
  obtains era c q s t where "z = 146097 * era + 36524 * c + 1461 * q + s - 719468"
    "0 \<le> c" "c \<le> 3" "0 \<le> q" "q \<le> 24" "0 \<le> s" "s \<le> 1460" "s = 1460 \<and> q = 24 \<longrightarrow> c = 3"
    "t = (if s = 1460 then 3 else s div 365)"
    "civil_from_days z =
       (let doy = s - 365 * t; mp = (5 * doy + 2) div 153; m = (if mp < 10 then mp + 3 else mp - 9)
        in (100 * c + 4 * q + t + 400 * era + (if m \<le> 2 then 1 else 0), m, doy - (153 * mp + 2) div 5 + 1))"
proof -
  let ?era = "(z + 719468) div 146097" and ?doe = "(z + 719468) mod 146097"
  have "0 \<le> ?doe" "?doe < 146097" by simp_all
  then obtain c q s where *: "?doe = 36524 * c + 1461 * q + s" "0 \<le> c" "c \<le> 3" "0 \<le> q" "q \<le> 24"
      "0 \<le> s" "s \<le> 1460" "s = 1460 \<and> q = 24 \<longrightarrow> c = 3"
    by (rule era_day) blast
  define t where "t = (if s = 1460 then 3 else s div 365)"
  have t: "0 \<le> t" "t \<le> 3" using *(6,7) by (auto simp: t_def)
  define yoe where "yoe = 100 * c + 4 * q + t"
  have y: "(?doe - ?doe div 1460 + ?doe div 36524 - ?doe div 146096) div 365 = yoe"
    unfolding yoe_def t_def by (rule era_year) (use * in auto)
  have "yoe div 4 = 25 * c + q" "yoe div 100 = c"
    unfolding yoe_def by (rule era_year_div [OF t *(4,5)])+
  then have d: "?doe - (365 * yoe + yoe div 4 - yoe div 100) = s - 365 * t"
    using *(1) by (simp add: yoe_def)
  have z: "z = 146097 * ?era + 36524 * c + 1461 * q + s - 719468"
    using *(1) div_mult_mod_eq [of "z + 719468" 146097] by linarith
  show ?thesis
    by (rule that [OF z *(2-8) t_def]) (simp only: civil_from_days_def Let_def y d, simp only: yoe_def mult.commute)
qed

theorem days_from_civil_from_days:
  assumes "civil_from_days z = (y, m, d)"
  shows "days_from_civil y m d = z" and "1 \<le> m" "m \<le> 12" "1 \<le> d" "d \<le> days_in m y"
proof -
  obtain era c q s t where *: "z = 146097 * era + 36524 * c + 1461 * q + s - 719468"
    "0 \<le> c" "c \<le> 3" "0 \<le> q" "q \<le> 24" "0 \<le> s" "s \<le> 1460" "s = 1460 \<and> q = 24 \<longrightarrow> c = 3"
    "t = (if s = 1460 then 3 else s div 365)"
    "civil_from_days z =
       (let doy = s - 365 * t; mp = (5 * doy + 2) div 153; m = (if mp < 10 then mp + 3 else mp - 9)
        in (100 * c + 4 * q + t + 400 * era + (if m \<le> 2 then 1 else 0), m, doy - (153 * mp + 2) div 5 + 1))"
    by (rule civil_from_days_eq [of z]) blast
  define doy mp yoe where "doy = s - 365 * t" and "mp = (5 * doy + 2) div 153" and "yoe = 100 * c + 4 * q + t"
  have t: "0 \<le> t" "t \<le> 3" using *(6,7,9) by auto
  have doy: "0 \<le> doy" "doy \<le> 365" "doy = 365 \<Longrightarrow> s = 1460"
    using *(6,7,9) unfolding doy_def by (auto split: if_splits)
  note md = month_day [OF doy(1,2) mp_def]
  have m: "m = (if mp < 10 then mp + 3 else mp - 9)" and d: "d = doy - (153 * mp + 2) div 5 + 1"
    and y: "y = yoe + 400 * era + (if m \<le> 2 then 1 else 0)"
    using assms *(10) unfolding Let_def doy_def [symmetric] mp_def [symmetric] yoe_def [symmetric] by auto
  show m12: "1 \<le> m" "m \<le> 12" using m md(1,2) by auto
  show "1 \<le> d" using md(3) d by simp
  have mp': "(if m \<le> 2 then m + 9 else m - 3) = mp" "m \<le> 2 \<longleftrightarrow> 10 \<le> mp" using m md(1,2) by auto
  have y': "(if m \<le> 2 then y - 1 else y) = yoe + 400 * era" using y by simp
  have yoe: "0 \<le> yoe" "yoe < 400" using *(2-5) t unfolding yoe_def by linarith+
  have ye: "yoe div 4 = 25 * c + q" "yoe div 100 = c"
    unfolding yoe_def by (rule era_year_div [OF t *(4,5)])+
  show "days_from_civil y m d = z"
    using yoe ye unfolding days_from_civil_def Let_def mp'(1) y' d
    by (simp add: div_pos_pos_trivial mod_pos_pos_trivial) (simp add: yoe_def *(1) doy_def)
  have leap: "is_leap y" if "mp = 11" "doy = 365"
  proof -
    have "s = 1460" "t = 3" using doy(3) that *(9) by auto
    then have "y = 4 * (25 * c + q + 1 + 100 * era)" "y = (4 * q + 4) + 100 * (c + 4 * era)"
      using y mp'(2) that by (auto simp: yoe_def)
    then have y4: "y mod 4 = 0" and y100: "y mod 100 = (4 * q + 4) mod 100"
      by (metis mod_mult_self1_is_0, metis mod_mult_self2)
    show ?thesis
    proof (cases "q = 24")
      case True
      then have "y = 400 * (1 + era)" using *(8) \<open>s = 1460\<close> \<open>y = 4 * _\<close> by simp
      then show ?thesis using y4 by (simp add: is_leap_def)
    next
      case False
      then show ?thesis using y4 y100 *(4,5) by (simp add: is_leap_def)
    qed
  qed
  show "d \<le> days_in m y"
    using md(4) m leap d md(1,2) unfolding days_in_def by (auto split: if_splits)
qed

section \<open>Formatting and parsing back\<close>

lemma digit_val_digit: "n < 10 \<Longrightarrow> digit_val (digit n) = int n"
  by (simp add: digit_val_def digit_def)

lemma getnum_two_digits: "0 \<le> n \<Longrightarrow> n < 100 \<Longrightarrow> getnum e f (two_digits n @ s) = Inr (n, s)"
  by (simp add: two_digits_def is_digit_digit digit_val_digit nat_less_iff pos_imp_zdiv_nonneg_iff)

lemma getyear_four_digits:
  assumes "0 \<le> y" and "y < 10000"
  shows "getyear (four_digits y @ s) = Inr (y, s)"
proof -
  have "y = 1000 * (y div 100 div 10) + 100 * (y div 100 mod 10) + 10 * (y mod 100 div 10) + y mod 100 mod 10"
    by presburger
  then show ?thesis
    using assms by (simp add: getyear_def four_digits_def two_digits_def is_digit_digit digit_val_digit nat_less_iff
        pos_imp_zdiv_nonneg_iff)
qed

lemma lit_append [simp]: "lit p (p @ s) = Inr ((), s)"
  by (simp add: lit_def)

lemma bindP_Inr [simp]: "bindP (Inr (a, s)) k = k a s"
  by (simp add: bindP_def)

lemma ranged_Inr: "lo \<le> n \<Longrightarrow> n < hi \<Longrightarrow> ranged e lo hi (Inr (n, s)) = Inr (n, s)"
  by (simp add: ranged_def)

lemma parse_fields:
  assumes "0 \<le> y" "y < 10000" "1 \<le> mo" "mo \<le> 12" "1 \<le> d" "d \<le> days_in mo y"
    "0 \<le> h" "h < 24" "0 \<le> mi" "mi < 60" "0 \<le> s" "s < 60"
  shows "parse_layout True 0 (four_digits y @ ''-'' @ two_digits mo @ ''-'' @ two_digits d @ ''T'' @
    two_digits h @ '':'' @ two_digits mi @ '':'' @ two_digits s @ ''Z'') =
    Inr (1000000000 * civil_seconds y mo d h mi s)"
proof -
  have d: "d < 100" using assms(6) by (auto simp: days_in_def split: if_splits)
  have z: "fraction ''Z'' = (0, ''Z'')" "zone ''Z'' = Inr (0, [])"
    by (simp_all add: fraction_def zone_def HasPrefix_def)
  show ?thesis
    using assms d unfolding parse_layout_def
    by (simp add: getyear_four_digits getnum_two_digits ranged_Inr z
        del: getnum.simps append_Cons append.simps)
qed

theorem parse_format_seconds:
  assumes "civil_from_days (t div 86400) = (y, mo, d)" and y: "0 \<le> y" "y < 10000"
  shows "parse_layout True 0 (format_seconds t @ ''Z'') = Inr (1000000000 * t)"
proof -
  note c = days_from_civil_from_days [OF assms(1)]
  define r where "r = t mod 86400"
  have r: "0 \<le> r" "r < 86400" by (simp_all add: r_def)
  have h: "0 \<le> r div 3600" "r div 3600 < 24" using r by linarith+
  have e: "3600 * (r div 3600) + 60 * (r div 60 mod 60) + r mod 60 = r"
  proof -
    have "r div 60 div 60 = r div 3600" by (simp add: div_mult2_eq [symmetric])
    then show ?thesis using div_mult_mod_eq [of r 60] div_mult_mod_eq [of "r div 60" 60] by linarith
  qed
  have "t = 86400 * (t div 86400) + r" by (simp add: r_def)
  then have "civil_seconds y mo d (r div 3600) (r div 60 mod 60) (r mod 60) = t"
    using e by (simp add: civil_seconds_def c(1))
  moreover have "format_seconds t @ ''Z'' = four_digits y @ ''-'' @ two_digits mo @ ''-'' @ two_digits d @ ''T'' @
      two_digits (r div 3600) @ '':'' @ two_digits (r div 60 mod 60) @ '':'' @ two_digits (r mod 60) @ ''Z''"
    by (simp only: format_seconds_def assms(1) Let_def prod.case r_def append_assoc)
  ultimately show ?thesis
    using parse_fields [OF y c(2-5) h, of "r div 60 mod 60" "r mod 60"] by simp
qed

section \<open>Properties\<close>

text \<open>C36: a time stamp the manager writes (when a replica went bad, when a volume was created)
  reads back as the same instant to the second, for every instant of the years 0 to 9999.\<close>

theorem ParseTimeZ_FormatTimeZ:
  assumes "0 \<le> fst (civil_from_days (t div 1000000000 div 86400))"
    and "fst (civil_from_days (t div 1000000000 div 86400)) < 10000"
  shows "ParseTimeZ (FormatTimeZ t) = Inr (t - t mod 1000000000)"
proof -
  define u where "u = t div 1000000000"
  obtain y mo d where c: "civil_from_days (u div 86400) = (y, mo, d)" by (metis prod_cases3)
  have "0 \<le> y" "y < 10000" using assms unfolding u_def [symmetric] c by simp_all
  note parse_format_seconds [OF c this]
  moreover have "1000000000 * u = t - t mod 1000000000" unfolding u_def by (rule minus_mod_eq_mult_div [symmetric])
  ultimately show ?thesis unfolding ParseTimeZ_def FormatTimeZ_def u_def [symmetric] by simp
qed

theorem ParseTimeZ_FormatTimeZ_witness:
  "fst (civil_from_days (1500000000123456789 div 1000000000 div 86400)) = 2017 \<and>
   ParseTimeZ (FormatTimeZ 1500000000123456789) = Inr 1500000000000000000"
proof
  show y: "fst (civil_from_days (1500000000123456789 div 1000000000 div 86400)) = 2017"
    by code_simp
  have "ParseTimeZ (FormatTimeZ 1500000000123456789) = Inr (1500000000123456789 - 1500000000123456789 mod 1000000000)"
    by (rule ParseTimeZ_FormatTimeZ; subst y; simp)
  then show "ParseTimeZ (FormatTimeZ 1500000000123456789) = Inr 1500000000000000000" by simp
qed

text \<open>\<open>FromMillis\<close> is exact: the instant it returns is that many milliseconds from the
  epoch, for times before the epoch too, where Go's quotient and remainder round towards zero.\<close>

theorem FromMillis_exact: "FromMillis t = t * 1000000"
proof -
  have "t sdiv 1000 * 1000 + t smod 1000 = t" by (rule sdiv_mult_smod_eq)
  then have "(t sdiv 1000 * 1000 + t smod 1000) * 1000000 = t * 1000000" by simp
  then show ?thesis by (simp add: FromMillis_def distrib_right)
qed

text \<open>A period limited to another one lies within it, whatever the two periods are, an end
  that is not set takes the limit, and limiting again changes nothing.\<close>

theorem LimitToPeriod_within:
  "fst p \<le> fst (LimitToPeriod p t) \<and> snd (LimitToPeriod p t) \<le> snd p \<and>
   LimitToPeriod p (zero_time, zero_time) = p \<and>
   LimitToPeriod p (LimitToPeriod p t) = LimitToPeriod p t"
  by (auto simp: LimitToPeriod_def prod_eq_iff)

end
