(* ===== verification/Util.thy ===== *)
theory Util
  imports Types Time
begin

text \<open>
  Package \<open>util\<close>.  What the manager takes from its surroundings (the clock, files, the
  docker host's devices, child processes, random UUIDs) is the record \<open>Env\<close>, a parameter of
  the definitions that use it; \<open>env_Exec\<close> is \<open>exec.Command(...).CombinedOutput()\<close> raced
  against a timer, \<open>env_Proc\<close> a process whose output is read through a pipe.  Sizes are 64-bit words with Go's signed remainder.
\<close>

section \<open>The surroundings\<close>

datatype ExecResult = Done string "gerr option" | TimedOut

text \<open>A child process whose standard output is read through a pipe: the error of setting it up or
  starting it, or its output, the JSON document the output consists of (None if it is none),
  what it wrote to standard error, and the error of waiting for it.\<close>

record ProcResult =
  pr_start :: "gerr option"
  pr_stdout :: string
  pr_json :: "json option"
  pr_stderr :: string
  pr_wait :: "gerr option"

record 'w Env =
  env_Now :: "'w \<Rightarrow> int \<times> 'w"
  env_Sleep :: "int \<Rightarrow> 'w \<Rightarrow> 'w"
  env_UUID :: "'w \<Rightarrow> string \<times> 'w"
  env_Stat :: "string \<Rightarrow> ('w, bool) op"
  env_HttpGet :: "string \<Rightarrow> ('w, unit) op"
  env_Exec :: "int \<Rightarrow> string \<Rightarrow> string list \<Rightarrow> 'w \<Rightarrow> ExecResult \<times> 'w"
  env_Proc :: "string list \<Rightarrow> 'w \<Rightarrow> ProcResult \<times> 'w"
  env_InterfaceAddrs :: "('w, (bool \<times> bool \<times> bool \<times> string) list) op"

text \<open>A call that cannot fail.\<close>

definition st :: "('w \<Rightarrow> 'a \<times> 'w) \<Rightarrow> ('a \<Rightarrow> ('w, 'b) op) \<Rightarrow> ('w, 'b) op" where
  "st f k w = (let (a, w') = f w in k a w')"

lemma wp_st [wp_simps]: "wp (st f k) Q E w = wp (k (fst (f w))) Q E (snd (f w))"
  by (simp add: st_def wp_def split: prod.split)

lemma keeps_st [keeps_intros]:
  "(\<And>w. I w \<Longrightarrow> I (snd (f w))) \<Longrightarrow> (\<And>a. keeps I (k a)) \<Longrightarrow> keeps I (st f k)"
  by (simp add: keeps_def st_def split: prod.split) (metis snd_conv)

section \<open>util.go\<close>

abbreviation VolumeStackPrefix :: string where "VolumeStackPrefix \<equiv> ''volume-''"
abbreviation ControllerServiceName :: string where "ControllerServiceName \<equiv> ''controller''"
abbreviation Second :: int where "Second \<equiv> 1000000000"
abbreviation Minute :: int where "Minute \<equiv> 60 * Second"
abbreviation cmdTimeout :: int where "cmdTimeout \<equiv> Minute"

definition CopyVolumeProperties :: "VolumeInfo \<Rightarrow> VolumeInfo" where
  "CopyVolumeProperties volume0 = volume0\<lparr>v_Controller := None, v_Replicas := None, v_State := VolumeStateNone\<rparr>"

text \<open>\<open>md5hex\<close> is the hexadecimal MD5 digest.  None is the slice bounds panic.\<close>

definition VolumeStackName :: "(string \<Rightarrow> string) \<Rightarrow> string \<Rightarrow> string option" where
  "VolumeStackName md5hex volumeName =
     (let nameNoUnderscores = map (\<lambda>c. if c = CHR ''_'' then CHR ''-'' else c) volumeName;
          stackName = VolumeStackPrefix @ nameNoUnderscores
      in if length stackName > 63 then
           (let hash = md5hex nameNoUnderscores;
                leftover = 63 - int (length VolumeStackPrefix + length hash + 1)
            in if leftover < 0 \<or> int (length nameNoUnderscores) < leftover then None
               else Some (VolumeStackPrefix @ take (nat leftover) nameNoUnderscores @ ''-'' @ hash))
         else Some stackName)"

definition ControllerAddress :: "(string \<Rightarrow> string) \<Rightarrow> string \<Rightarrow> string option" where
  "ControllerAddress md5hex volumeName =
     map_option (\<lambda>s. ControllerServiceName @ ''.'' @ s @ ''.rancher.internal'') (VolumeStackName md5hex volumeName)"

definition ReplicaAddress :: "string \<Rightarrow> string \<Rightarrow> string" where
  "ReplicaAddress name volumeName = name @ ''.rancher.internal''"

definition ReplicaName :: "(string \<Rightarrow> string) \<Rightarrow> string \<Rightarrow> string \<Rightarrow> string option" where
  "ReplicaName md5hex address volumeName =
     (let s = TrimSuffix (TrimPrefix address ''tcp://'') '':9502'';
          s = TrimSuffix s ''.rancher.internal''
      in map_option (\<lambda>stack. TrimSuffix s (''.'' @ stack)) (VolumeStackName md5hex volumeName))"

datatype anySize = SizeInt64 int64 | SizeInt int | SizeString string | SizeOther

text \<open>\<open>RAMInBytes\<close> is the parser of docker/go-units.\<close>

definition ConvertSize :: "(string \<Rightarrow> gerr + int64) \<Rightarrow> anySize \<Rightarrow> gerr + int64" where
  "ConvertSize RAMInBytes sz = (case sz of
      SizeInt64 n \<Rightarrow> Inr n
    | SizeInt n \<Rightarrow> Inr (word_of_int n)
    | SizeString s \<Rightarrow>
        if s = [] then Inr 0
        else (case RAMInBytes s of
            Inl e \<Rightarrow> Inl (wrap (''error parsing size '' @ s) e)
          | Inr n \<Rightarrow> Inr n)
    | SizeOther \<Rightarrow> Inl (Errorf ''could not parse size''))"

text \<open>Go's remainder of signed integers.\<close>

definition rem64 :: "int64 \<Rightarrow> int64 \<Rightarrow> int64" where
  "rem64 a b = word_of_int (sint a smod sint b)"

definition quo64 :: "int64 \<Rightarrow> int64 \<Rightarrow> int64" where
  "quo64 a b = word_of_int (sint a sdiv sint b)"

definition RoundUpSize :: "int64 \<Rightarrow> int64" where
  "RoundUpSize sz =
     (if sint sz \<le> 0 then 4096
      else (let r = rem64 sz 4096
            in if r = 0 then sz else sz - r + 4096))"

text \<open>The retry loop, with a bound on the number of rounds; None when the rounds are used up.\<close>

fun Backoff_loop :: "nat \<Rightarrow> 'w Env \<Rightarrow> int \<Rightarrow> int \<Rightarrow> int \<Rightarrow> string \<Rightarrow> ('w, bool) op \<Rightarrow> 'w \<Rightarrow> (unit res \<times> 'w) option" where
  "Backoff_loop 0 env startTime waitTime maxDuration timeoutMessage f w = None"
| "Backoff_loop (Suc n) env startTime waitTime maxDuration timeoutMessage f w =
     (let (now, w) = env_Now env w in
      if now - startTime > maxDuration then Some (Err (Errorf timeoutMessage), w)
      else (case f w of
          (Panic m, w) \<Rightarrow> Some (Panic m, w)
        | (Err e, w) \<Rightarrow> Some (Err e, w)
        | (Ok done, w) \<Rightarrow>
            if done then Some (Ok (), w)
            else (let w = env_Sleep env waitTime w; waitTime = 2 * waitTime
                  in Backoff_loop n env startTime (if waitTime > 2 * Second then 2 * Second else waitTime)
                       maxDuration timeoutMessage f w)))"

definition Backoff :: "nat \<Rightarrow> 'w Env \<Rightarrow> int \<Rightarrow> string \<Rightarrow> ('w, bool) op \<Rightarrow> 'w \<Rightarrow> (unit res \<times> 'w) option" where
  "Backoff n env maxDuration timeoutMessage f w =
     (let (startTime, w) = env_Now env w
      in Backoff_loop n env startTime 150000000 maxDuration timeoutMessage f w)"

definition RandomID :: "'w Env \<Rightarrow> (string \<Rightarrow> ('w, 'a) op) \<Rightarrow> ('w, 'a) op" where
  "RandomID env k = st (env_UUID env) (\<lambda>u.
     if length u < 18 then panic ''slice bounds out of range'' else k (take 18 u))"

fun WaitForDevice :: "'w Env \<Rightarrow> string \<Rightarrow> nat \<Rightarrow> ('w, unit) op" where
  "WaitForDevice env dev 0 = fail (Errorf (''timeout waiting for '' @ dev))"
| "WaitForDevice env dev (Suc n) = attempt (env_Stat env dev) (\<lambda>r. case r of
      Inr isDevice \<Rightarrow> if isDevice then ret () else fail (Errorf (''Invalid mode for '' @ dev))
    | Inl _ \<Rightarrow> st (\<lambda>w. ((), env_Sleep env Second w)) (\<lambda>_. WaitForDevice env dev n))"

fun WaitForAPI :: "'w Env \<Rightarrow> string \<Rightarrow> nat \<Rightarrow> ('w, unit) op" where
  "WaitForAPI env url 0 = fail (Errorf (''timeout waiting for '' @ url))"
| "WaitForAPI env url (Suc n) = attempt (env_HttpGet env url) (\<lambda>r. case r of
      Inr _ \<Rightarrow> ret ()
    | Inl _ \<Rightarrow> st (\<lambda>w. ((), env_Sleep env Second w)) (\<lambda>_. WaitForAPI env url n))"

text \<open>An interface address: whether it is an IP network, a loopback, an IPv4 address, and its text.\<close>

definition GetLocalIPs :: "'w Env \<Rightarrow> ('w, string list) op" where
  "GetLocalIPs env = tryE (env_InterfaceAddrs env) id (\<lambda>addrs.
     ret (map (\<lambda>(_, _, _, s). s) (filter (\<lambda>(ipnet, loopback, v4, s). ipnet \<and> \<not> loopback \<and> v4) addrs)))"

definition Now :: "'w Env \<Rightarrow> 'w \<Rightarrow> string \<times> 'w" where
  "Now env w = (let (t, w) = env_Now env w in (FormatTimeZ t, w))"

text \<open>A time is the number of its nanoseconds: its location, which decides how it
  is printed and not which instant it is, is not kept.\<close>

definition ParseTime :: "string \<Rightarrow> ParseError + int" where
  "ParseTime t = parse_layout True 0 t"

definition ExecuteWithTimeout :: "'w Env \<Rightarrow> int \<Rightarrow> string \<Rightarrow> string list \<Rightarrow> ('w, string) op" where
  "ExecuteWithTimeout env timeout binary args = st (env_Exec env cmdTimeout binary args) (\<lambda>r. case r of
      TimedOut \<Rightarrow> fail (Errorf (''Timeout executing: '' @ binary))
    | Done output (Some e) \<Rightarrow> fail (Errorf (''Failed to execute: '' @ binary))
    | Done output None \<Rightarrow> ret output)"

definition Execute :: "'w Env \<Rightarrow> string \<Rightarrow> string list \<Rightarrow> ('w, string) op" where
  "Execute env binary args = ExecuteWithTimeout env cmdTimeout binary args"

section \<open>cmd.go\<close>

text \<open>\<open>CmdOutLines\<close>: the lines that arrive on the first channel and the error that arrives on the
  second one (\<open>bufio.ScanLines\<close>: no line after the last newline, a carriage return is dropped).\<close>

definition scan_lines :: "string \<Rightarrow> string list" where
  "scan_lines s =
     (let ls = Split s (CHR 0x0A);
          ls = (if last ls = [] then butlast ls else ls)
      in map (\<lambda>l. TrimSuffix l [CHR 0x0D]) ls)"

definition CmdOutLines :: "'w Env \<Rightarrow> string list \<Rightarrow> 'w \<Rightarrow> (string list \<times> gerr option) \<times> 'w" where
  "CmdOutLines env cmd w = (let (r, w') = env_Proc env cmd w in
     (case pr_start r of
        Some e \<Rightarrow> (([], Some (wrap ''error starting cmd'' e)), w')
      | None \<Rightarrow> ((scan_lines (pr_stdout r), pr_wait r), w')))"

section \<open>Sizes\<close>

lemma sint64_of_int: "- (2 ^ 63) \<le> i \<Longrightarrow> i < 2 ^ 63 \<Longrightarrow> sint (word_of_int i :: int64) = i"
  by (simp add: signed_take_bit_int_eq_self sint_sbintrunc')

lemma rem64_pos:
  assumes "0 < sint x"
  shows "rem64 x 4096 = word_of_int (sint x mod 4096)"
  using assms by (simp add: rem64_def signed_modulo_int_def signed_divide_int_def minus_div_mult_eq_mod)

lemma RoundUpSize_sint:
  assumes "0 < sint x"
  shows "RoundUpSize x = word_of_int (if 4096 dvd sint x then sint x else sint x - sint x mod 4096 + 4096)"
proof -
  have m: "0 \<le> sint x mod 4096" "sint x mod 4096 < 4096" by simp_all
  then have "sint (word_of_int (sint x mod 4096) :: int64) = sint x mod 4096" by (intro sint64_of_int) auto
  then have "word_of_int (sint x mod 4096) = (0 :: int64) \<longleftrightarrow> 4096 dvd sint x"
    by (metis dvd_eq_mod_eq_0 sint_0 word_of_int_0)
  moreover have "x - word_of_int (sint x mod 4096) + 4096 = (word_of_int (sint x - sint x mod 4096 + 4096) :: int64)"
    by simp
  ultimately show ?thesis using assms by (simp add: RoundUpSize_def rem64_pos)
qed

section \<open>Properties\<close>

text \<open>C37: for every size that leaves room below \<open>2^63\<close>, \<open>RoundUpSize\<close> returns the least
  positive multiple of 4096 that is not smaller than the size.\<close>

theorem RoundUpSize_least:
  assumes "sint x \<le> 2 ^ 63 - 4096"
  shows "4096 dvd sint (RoundUpSize x) \<and> 0 < sint (RoundUpSize x) \<and> sint x \<le> sint (RoundUpSize x) \<and>
    (\<forall>n. 4096 dvd n \<longrightarrow> 0 < n \<longrightarrow> sint x \<le> n \<longrightarrow> sint (RoundUpSize x) \<le> n)"
proof (cases "0 < sint x")
  case True
  define r where "r = (if 4096 dvd sint x then sint x else sint x - sint x mod 4096 + 4096)"
  have m: "0 \<le> sint x mod 4096" "sint x mod 4096 < 4096" by simp_all
  have bounds: "sint x \<le> r" "r < sint x + 4096" unfolding r_def using m by (auto simp: dvd_eq_mod_eq_0)
  have dvd: "4096 dvd r" unfolding r_def by (auto simp: minus_mod_eq_mult_div)
  have "r < 2 ^ 63"
  proof (rule ccontr)
    assume "\<not> r < 2 ^ 63"
    then have "2 ^ 63 \<le> r" "r < 2 ^ 63 + (0 :: int)" using bounds assms by auto
    then show False by simp
  qed
  then have sint: "sint (RoundUpSize x) = r"
    using RoundUpSize_sint [OF True] bounds True unfolding r_def [symmetric] by (simp add: sint64_of_int)
  have "r \<le> n" if "4096 dvd n" "sint x \<le> n" for n
  proof (rule ccontr)
    assume "\<not> r \<le> n"
    then have "0 < r - n" "r - n < 4096" using bounds that by auto
    moreover have "4096 dvd r - n" using dvd that by simp
    ultimately show False by (auto dest: zdvd_imp_le)
  qed
  then show ?thesis using sint dvd bounds True by auto
next
  case False
  then have "RoundUpSize x = 4096" by (simp add: RoundUpSize_def)
  then show ?thesis using False by (auto dest: zdvd_imp_le)
qed

theorem RoundUpSize_least_witness:
  "4096 dvd sint (RoundUpSize 5000) \<and> 5000 \<le> sint (RoundUpSize 5000) \<and> sint (RoundUpSize 5000) \<le> 8192"
proof -
  have "sint (5000 :: int64) = 5000" by simp
  then show ?thesis using RoundUpSize_least [of 5000] by (auto dest: spec [of _ 8192])
qed

text \<open>Within 4095 bytes of the largest 64-bit size the rounding wraps around: the size that
  comes out is the most negative one.\<close>

theorem RoundUpSize_wraps:
  assumes "2 ^ 63 - 4096 < sint x"
  shows "sint (RoundUpSize x) = - (2 ^ 63)"
proof -
  have x: "sint x < 2 ^ 63" using sint64_bounds by blast
  have "sint x mod 4096 = (sint x - (2 ^ 63 - 4096)) mod 4096" by (simp add: mod_diff_right_eq [symmetric])
  also have "\<dots> = sint x - (2 ^ 63 - 4096)" using assms x by (intro mod_pos_pos_trivial) auto
  finally have m: "sint x mod 4096 = sint x - (2 ^ 63 - 4096)" .
  then have nd: "\<not> 4096 dvd sint x" using assms by (auto simp: dvd_eq_mod_eq_0)
  have "0 < sint x" using assms by simp
  then have "RoundUpSize x = word_of_int (2 ^ 63)" using RoundUpSize_sint nd m by simp
  then show ?thesis by simp
qed

text \<open>A size that came out of the rounding is not changed by it again.\<close>

lemma RoundUpSize_multiple: "0 < sint x \<Longrightarrow> 4096 dvd sint x \<Longrightarrow> RoundUpSize x = x"
  by (simp add: RoundUpSize_sint)

lemma RoundUpSize_again:
  assumes "0 < sint (RoundUpSize x)"
  shows "RoundUpSize (RoundUpSize x) = RoundUpSize x"
proof (rule RoundUpSize_multiple [OF assms])
  show "4096 dvd sint (RoundUpSize x)"
  proof (cases "0 < sint x")
    case True
    let ?y = "sint x - sint x mod 4096 + 4096"
    have le: "sint x \<le> 2 ^ 63 - 4096" using RoundUpSize_wraps [of x] assms by fastforce
    have d: "4096 dvd ?y" by (auto simp: minus_mod_eq_mult_div)
    have y: "?y < 2 ^ 63" if "\<not> 4096 dvd sint x"
    proof -
      have "0 < sint x mod 4096" using that by (simp add: dvd_eq_mod_eq_0 order_le_less)
      then show ?thesis using le by simp
    qed
    have "0 \<le> ?y" using True by (smt (verit) pos_mod_bound)
    then have "sint (word_of_int ?y :: int64) = ?y" if "\<not> 4096 dvd sint x" using y [OF that] by (intro sint64_of_int) simp_all
    then show ?thesis using d unfolding RoundUpSize_sint [OF True] by (cases "4096 dvd sint x") (simp_all del: of_int_add of_int_diff)
  qed (simp add: RoundUpSize_def)
qed

text \<open>A stack name is never longer than the 63 characters a host name allows, starts with
  the volume prefix, and cutting the name to fit never runs out of range; the digest is 32
  characters.\<close>

theorem VolumeStackName_fits:
  assumes "\<forall>s. length (md5hex s) = 32"
  shows "\<exists>n. VolumeStackName md5hex v = Some n \<and> length n \<le> 63 \<and> HasPrefix n VolumeStackPrefix"
  using assms by (auto simp: VolumeStackName_def Let_def HasPrefix_def)

text \<open>The timeout a caller passes to \<open>ExecuteWithTimeout\<close> has no effect: every command is
  given one minute (the purge of snapshots asks for fifteen).\<close>

theorem ExecuteWithTimeout_ignores_timeout:
  "ExecuteWithTimeout env timeout binary args = Execute env binary args"
  by (simp add: ExecuteWithTimeout_def Execute_def)

subsection \<open>The retry loop ends\<close>

text \<open>A clock that a sleep advances by at least its duration and that nothing turns back.\<close>

definition clock_ok :: "'w Env \<Rightarrow> ('w, bool) op \<Rightarrow> bool" where
  "clock_ok env f \<longleftrightarrow>
     (\<forall>w d. 0 \<le> d \<longrightarrow> fst (env_Now env w) + d \<le> fst (env_Now env (env_Sleep env d w))) \<and>
     (\<forall>w. fst (env_Now env w) \<le> fst (env_Now env (snd (env_Now env w)))) \<and>
     (\<forall>w. fst (env_Now env w) \<le> fst (env_Now env (snd (f w))))"

lemma Backoff_loop_ends:
  assumes "clock_ok env f"
    and "startTime + maxDuration < fst (env_Now env w) + int n * 150000000" and "150000000 \<le> waitTime"
  shows "Backoff_loop (Suc n) env startTime waitTime maxDuration msg f w \<noteq> None"
  using assms(2,3)
proof (induction n arbitrary: w waitTime)
  case 0
  then show ?case by (auto split: prod.split)
next
  case (Suc n)
  obtain now w1 where now: "env_Now env w = (now, w1)" by fastforce
  show ?case
  proof (cases "\<exists>w2. f w1 = (Ok False, w2) \<and> now - startTime \<le> maxDuration")
    case False
    then show ?thesis using now by (auto split: res.split prod.split)
  next
    case True
    then obtain w2 where w2: "f w1 = (Ok False, w2)" "now - startTime \<le> maxDuration" by auto
    let ?wt = "if 2 * waitTime > 2 * Second then 2 * Second else 2 * waitTime"
    have "now \<le> fst (env_Now env w1)" using assms(1) now unfolding clock_ok_def by (metis fst_conv snd_conv)
    also have "\<dots> \<le> fst (env_Now env w2)" using assms(1) w2(1) unfolding clock_ok_def by (metis snd_conv)
    also have "\<dots> + waitTime \<le> fst (env_Now env (env_Sleep env waitTime w2))"
      using assms(1) Suc.prems(2) unfolding clock_ok_def by simp
    finally have le: "now + waitTime \<le> fst (env_Now env (env_Sleep env waitTime w2))" by simp
    have "Backoff_loop (Suc n) env startTime ?wt maxDuration msg f (env_Sleep env waitTime w2) \<noteq> None"
      by (rule Suc.IH) (use le now Suc.prems in auto)
    moreover have "Backoff_loop (Suc (Suc n)) env startTime waitTime maxDuration msg f w =
        Backoff_loop (Suc n) env startTime ?wt maxDuration msg f (env_Sleep env waitTime w2)"
      using now w2 by (subst Backoff_loop.simps) (simp add: Let_def del: Backoff_loop.simps)
    ultimately show ?thesis by simp
  qed
qed

text \<open>The rounds of the loop that end with another try: the clock is not past the duration, the
  function answers that it is not done, and the wait doubles up to two seconds.\<close>

inductive polling :: "'w Env \<Rightarrow> int \<Rightarrow> int \<Rightarrow> ('w, bool) op \<Rightarrow> int \<Rightarrow> 'w \<Rightarrow> 'w \<Rightarrow> bool"
  for env :: "'w Env" and startTime maxDuration :: int and f :: "('w, bool) op" where
  polling_here: "polling env startTime maxDuration f waitTime w w"
| polling_again: "\<lbrakk>env_Now env w = (now, w1); now - startTime \<le> maxDuration; f w1 = (Ok False, w2);
      polling env startTime maxDuration f (min (2 * waitTime) (2 * Second)) (env_Sleep env waitTime w2) w'\<rbrakk>
    \<Longrightarrow> polling env startTime maxDuration f waitTime w w'"

text \<open>The round that ends the loop.\<close>

definition last_round :: "'w Env \<Rightarrow> int \<Rightarrow> int \<Rightarrow> string \<Rightarrow> ('w, bool) op \<Rightarrow> 'w \<Rightarrow> unit res \<Rightarrow> 'w \<Rightarrow> bool" where
  "last_round env startTime maxDuration msg f w r w' \<longleftrightarrow>
     (let (now, w1) = env_Now env w in
      if now - startTime > maxDuration then r = Err (Errorf msg) \<and> w' = w1
      else r = Ok () \<and> f w1 = (Ok True, w') \<or> (\<exists>e. r = Err e \<and> f w1 = (Err e, w')) \<or> (\<exists>m. r = Panic m \<and> f w1 = (Panic m, w')))"

lemma Backoff_loop_polls:
  assumes "Backoff_loop n env startTime waitTime maxDuration msg f w = Some (r, w')"
  shows "\<exists>w2. polling env startTime maxDuration f waitTime w w2 \<and> last_round env startTime maxDuration msg f w2 r w'"
  using assms
proof (induction n arbitrary: w waitTime)
  case (Suc n)
  obtain now w1 where now: "env_Now env w = (now, w1)" by fastforce
  show ?case
  proof (cases "\<exists>w2. f w1 = (Ok False, w2) \<and> now - startTime \<le> maxDuration")
    case False
    then have "last_round env startTime maxDuration msg f w r w'"
      using now Suc.prems by (auto simp: last_round_def split: res.splits prod.splits if_splits)
    then show ?thesis by (blast intro: polling_here)
  next
    case True
    then obtain w2 where w2: "f w1 = (Ok False, w2)" "now - startTime \<le> maxDuration" by auto
    have "Backoff_loop n env startTime (min (2 * waitTime) (2 * Second)) maxDuration msg f (env_Sleep env waitTime w2) = Some (r, w')"
      using Suc.prems now w2 by (auto simp: Let_def min_def split: if_splits)
    then show ?thesis using polling_again [where f = f, OF now w2(2,1)] Suc.IH by blast
  qed
qed simp

text \<open>C38: \<open>Backoff\<close> polls until the function is done or fails or the time is over.  Since every round
  sleeps at least 150 milliseconds, it has returned after one more round than fits into the given
  duration, whatever the function it retries does, provided the clock runs; in every round but
  the last the time was not over and the function answered that it is not done, with the waits
  doubling from 150 milliseconds to two seconds; the last round found the time over
  and returns the time-out error, or found the function done and returns nothing, or returns
  the function's own error.\<close>

theorem Backoff_polls:
  assumes "clock_ok env f" and "maxDuration < int n * 150000000"
  shows "\<exists>r w' w2. Backoff (Suc n) env maxDuration msg f w = Some (r, w') \<and>
    (let (startTime, w1) = env_Now env w in
     polling env startTime maxDuration f 150000000 w1 w2 \<and> last_round env startTime maxDuration msg f w2 r w')"
proof -
  obtain t w1 where t: "env_Now env w = (t, w1)" by fastforce
  then have "t \<le> fst (env_Now env w1)" using assms(1) unfolding clock_ok_def by (metis fst_conv snd_conv)
  then have "Backoff_loop (Suc n) env t 150000000 maxDuration msg f w1 \<noteq> None"
    by (intro Backoff_loop_ends) (use assms in auto)
  then obtain r w' where b: "Backoff_loop (Suc n) env t 150000000 maxDuration msg f w1 = Some (r, w')" by auto
  from Backoff_loop_polls [OF b] show ?thesis using t b by (auto simp: Backoff_def simp del: Backoff_loop.simps)
qed

text \<open>Surroundings with a clock and nothing else.\<close>

definition clock_env :: "int Env" where
  "clock_env = \<lparr>env_Now = (\<lambda>w. (w, w)), env_Sleep = (\<lambda>d w. w + d), env_UUID = (\<lambda>w. (replicate 36 (CHR ''0''), w)),
     env_Stat = (\<lambda>_. fail (Ext ''no such file'')), env_HttpGet = (\<lambda>_. fail (Ext ''refused'')),
     env_Exec = (\<lambda>_ _ _ w. (TimedOut, w)),
     env_Proc = (\<lambda>_ w. (\<lparr>pr_start = Some (Ext ''not found''), pr_stdout = [], pr_json = None, pr_stderr = [], pr_wait = None\<rparr>, w)),
     env_InterfaceAddrs = ret []\<rparr>"

theorem Backoff_polls_witness:
  "\<exists>r w' w2. Backoff (Suc 7) clock_env Second ''timeout'' (\<lambda>w. (Ok (w \<ge> 400000000), w)) 0 = Some (r, w') \<and>
    polling clock_env 0 Second (\<lambda>w. (Ok (w \<ge> 400000000), w)) 150000000 0 w2 \<and>
    last_round clock_env 0 Second ''timeout'' (\<lambda>w. (Ok (w \<ge> 400000000), w)) w2 r w' \<and> r = Ok () \<and> w' = 450000000"
proof -
  have "\<exists>r w' w2. Backoff (Suc 7) clock_env Second ''timeout'' (\<lambda>w. (Ok (w \<ge> 400000000), w)) 0 = Some (r, w') \<and>
      (let (startTime, w1) = env_Now clock_env 0 in
       polling clock_env startTime Second (\<lambda>w. (Ok (w \<ge> 400000000), w)) 150000000 w1 w2 \<and>
       last_round clock_env startTime Second ''timeout'' (\<lambda>w. (Ok (w \<ge> 400000000), w)) w2 r w')"
    by (rule Backoff_polls) (simp_all add: clock_ok_def clock_env_def)
  moreover have "Backoff (Suc 7) clock_env Second ''timeout'' (\<lambda>w. (Ok (w \<ge> 400000000), w)) 0 = Some (Ok (), 450000000)"
    by (simp add: Backoff_def clock_env_def numeral_eq_Suc)
  ultimately show ?thesis by (auto simp: clock_env_def)
qed

end
