(* ===== verification/Scheduler.thy ===== *)
theory Scheduler
  imports Util
begin

text \<open>
  Package \<open>scheduler\<close>.  \<open>ScheduleOps\<close> is the interface the orchestrator gives to the
  scheduler; the HTTP client that reaches the managers of other hosts is the record
  \<open>HttpClient\<close> (its base64 is \<open>encoding/json\<close>'s for byte slices).  The lemmas give the order in
  which hosts are tried, what a request guarantees of the instance it returns, and that a
  request for another host is refused without effect.
\<close>

record 'w ScheduleOps =
  ops_ListHosts :: "('w, HostInfo gomap) op"
  ops_GetHost :: "string \<Rightarrow> ('w, HostInfo option) op"
  ops_GetCurrentHostID :: string
  ops_ProcessSchedule :: "ScheduleItem \<Rightarrow> ('w, InstanceInfo option) op"

text \<open>A response: its status and its body, None where it is no JSON document.\<close>

record HttpResp =
  hr_StatusCode :: int
  hr_Body :: "json option"

record 'w HttpClient =
  hc_Do :: "string \<Rightarrow> string \<Rightarrow> json \<Rightarrow> ('w, HttpResp) op"
  hc_base64 :: "json \<Rightarrow> string"

record ScheduleInput =
  in_Spec :: ScheduleSpec
  in_Item :: ScheduleItem

record ScheduleOutput =
  out_Instance :: InstanceInfo

definition enc_ScheduleInput :: "(json \<Rightarrow> string) \<Rightarrow> ScheduleInput \<Rightarrow> json" where
  "enc_ScheduleInput base64 i = JObj
     [(''Spec'', JObj [(''HostID'', JStr (ss_HostID (in_Spec i)))]),
      (''Item'', JObj
        [(''Action'', JStr (it_Action (in_Item i))),
         (''Instance'', JObj
           [(''ID'', JStr (si_ID (it_Instance (in_Item i)))),
            (''Type'', JStr (si_Type (it_Instance (in_Item i)))),
            (''HostID'', JStr (si_HostID (it_Instance (in_Item i)))),
            (''VolumeName'', JStr (si_VolumeName (it_Instance (in_Item i)))),
            (''Name'', JStr (si_Name (it_Instance (in_Item i))))]),
         (''Data'', JObj
           [(''Orchestrator'', JStr (sd_Orchestrator (it_Data (in_Item i)))),
            (''Data'', enc_ptr (\<lambda>d. JStr (base64 d)) (sd_Data (it_Data (in_Item i))))])])]"

definition enc_ScheduleOutput :: "ScheduleOutput \<Rightarrow> json" where
  "enc_ScheduleOutput i = JObj [(''Instance'', JObj (instance_members (out_Instance i)))]"

definition dec_InstanceInfo :: "json \<Rightarrow> InstanceInfo option" where
  "dec_InstanceInfo j = (case j of
     JNull \<Rightarrow> Some zero_InstanceInfo
   | JObj ms \<Rightarrow> dec_instance_members ms
   | _ \<Rightarrow> None)"

definition dec_ScheduleOutput :: "json \<Rightarrow> ScheduleOutput option" where
  "dec_ScheduleOutput j = (case j of
     JNull \<Rightarrow> Some \<lparr>out_Instance = zero_InstanceInfo\<rparr>
   | JObj ms \<Rightarrow> do {
       i \<leftarrow> (case map_of ms ''Instance'' of None \<Rightarrow> Some zero_InstanceInfo | Some j \<Rightarrow> dec_InstanceInfo j);
       Some \<lparr>out_Instance = i\<rparr> }
   | _ \<Rightarrow> None)"

section \<open>client.go\<close>

record schedulerClient =
  sc_hostID :: string
  sc_address :: string

definition newSchedulerClient :: "HostInfo \<Rightarrow> schedulerClient" where
  "newSchedulerClient host = \<lparr>sc_hostID = h_UUID host, sc_address = ''http://'' @ h_Address host @ ''/v1''\<rparr>"

definition client_do :: "'w HttpClient \<Rightarrow> schedulerClient \<Rightarrow> string \<Rightarrow> string \<Rightarrow> json \<Rightarrow> (json \<Rightarrow> 'a option) \<Rightarrow> ('w, 'a) op" where
  "client_do http c method pth req dec =
     tryE (hc_Do http method (sc_address c @ pth) req) id (\<lambda>httpResp.
       if hr_StatusCode httpResp \<ge> 300 then fail (Errorf ''Bad response'')
       else (case hr_Body httpResp of
           None \<Rightarrow> fail (Ext ''json'')
         | Some b \<Rightarrow> (case dec b of None \<Rightarrow> fail (Ext ''json'') | Some a \<Rightarrow> ret a)))"

definition client_post :: "'w HttpClient \<Rightarrow> schedulerClient \<Rightarrow> string \<Rightarrow> json \<Rightarrow> (json \<Rightarrow> 'a option) \<Rightarrow> ('w, 'a) op" where
  "client_post http c pth req dec = client_do http c ''POST'' pth req dec"

definition client_Schedule :: "'w HttpClient \<Rightarrow> schedulerClient \<Rightarrow> ScheduleItem \<Rightarrow> ('w, InstanceInfo) op" where
  "client_Schedule http c item =
     (let input = \<lparr>in_Spec = \<lparr>ss_HostID = sc_hostID c\<rparr>, in_Item = item\<rparr> in
      tryE (client_post http c ''/schedule'' (enc_ScheduleInput (hc_base64 http) input) dec_ScheduleOutput)
        (wrap ''schedule failure'') (\<lambda>output.
      if i_ID (out_Instance output) = [] then fail (Errorf ''Invalid response with empty instance ID'')
      else ret (out_Instance output)))"

section \<open>scheduler.go\<close>

record 'w OrcScheduler =
  sch_ops :: "'w ScheduleOps"
  sch_http :: "'w HttpClient"

definition randomHostID :: "HostInfo gomap \<Rightarrow> string" where
  "randomHostID m = (case m of [] \<Rightarrow> [] | (k, _) # _ \<Rightarrow> k)"

definition Process :: "'w OrcScheduler \<Rightarrow> ScheduleSpec \<Rightarrow> ScheduleItem \<Rightarrow> ('w, InstanceInfo) op" where
  "Process s spec item =
     (if ops_GetCurrentHostID (sch_ops s) \<noteq> ss_HostID spec
      then fail (Errorf (''wrong host routing, should be at '' @ ss_HostID spec))
      else tryE (ops_ProcessSchedule (sch_ops s) item) (wrap ''fail to process schedule request'') (\<lambda>i.
        case i of
          None \<Rightarrow> fail (Errorf ''missing key fields from schedule response'')
        | Some inst \<Rightarrow>
            if i_ID inst = [] \<or> i_Type inst = InstanceTypeNone
            then fail (Errorf ''missing key fields from schedule response'')
            else ret inst))"

text \<open>A host that is not registered is nil and no error; building a client for it panics.\<close>

definition ScheduleProcess :: "'w OrcScheduler \<Rightarrow> ScheduleSpec \<Rightarrow> ScheduleItem \<Rightarrow> ('w, InstanceInfo) op" where
  "ScheduleProcess s spec item =
     (if ops_GetCurrentHostID (sch_ops s) = ss_HostID spec then Process s spec item
      else tryE (ops_GetHost (sch_ops s) (ss_HostID spec)) (wrap (''cannot find host '' @ ss_HostID spec)) (\<lambda>h.
        case h of
          None \<Rightarrow> panic ''nil pointer dereference''
        | Some host \<Rightarrow>
            tryE (client_Schedule (sch_http s) (newSchedulerClient host) item)
              (wrap (''Fail to schedule on host '' @ h_UUID host)) ret))"

text \<open>Sorting the hosts: the error is the unsupported policy met at the first host.\<close>

fun Schedule_lists :: "SchedulePolicy option \<Rightarrow> string list \<Rightarrow> string list \<Rightarrow> string list \<Rightarrow> gerr + string list \<times> string list" where
  "Schedule_lists policy normal low [] = Inr (normal, low)"
| "Schedule_lists policy normal low (i # ids) = (case policy of
      None \<Rightarrow> Schedule_lists policy (normal @ [i]) low ids
    | Some p \<Rightarrow>
        if sp_Binding p = SchedulePolicyBindingSoftAntiAffinity then
          (if map_of (sp_HostIDMap p) i \<noteq> None then Schedule_lists policy normal (low @ [i]) ids
           else Schedule_lists policy (normal @ [i]) low ids)
        else Inl (Errorf (''Unsupported schedule policy binding '' @ sp_Binding p)))"

fun Schedule_try :: "'w OrcScheduler \<Rightarrow> ScheduleItem \<Rightarrow> string list \<Rightarrow> ('w, InstanceInfo) op" where
  "Schedule_try s item [] = fail (Errorf ''unable to find suitable host for scheduling'')"
| "Schedule_try s item (i # ids) = attempt (ScheduleProcess s \<lparr>ss_HostID = i\<rparr> item) (\<lambda>r. case r of
      Inr inst \<Rightarrow> ret inst
    | Inl _ \<Rightarrow> Schedule_try s item ids)"

definition Schedule :: "'w OrcScheduler \<Rightarrow> ScheduleItem \<Rightarrow> SchedulePolicy option \<Rightarrow> ('w, InstanceInfo) op" where
  "Schedule s item policy =
     (if si_ID (it_Instance item) = [] \<or> si_Type (it_Instance item) = InstanceTypeNone
      then fail (Errorf ''instance ID and type required for scheduling'')
      else if si_HostID (it_Instance item) \<noteq> []
      then ScheduleProcess s \<lparr>ss_HostID = si_HostID (it_Instance item)\<rparr> item
      else tryE (ops_ListHosts (sch_ops s)) (wrap ''fail to schedule'') (\<lambda>hosts.
        case Schedule_lists policy [] [] (map fst hosts) of
          Inl e \<Rightarrow> fail e
        | Inr (normalPriorityList, lowPriorityList) \<Rightarrow>
            Schedule_try s item (normalPriorityList @ lowPriorityList)))"

section \<open>The order of the hosts\<close>

lemma Schedule_lists_soft:
  "sp_Binding p = SchedulePolicyBindingSoftAntiAffinity \<Longrightarrow>
   Schedule_lists (Some p) normal low ids =
     Inr (normal @ filter (\<lambda>i. map_of (sp_HostIDMap p) i = None) ids,
          low @ filter (\<lambda>i. map_of (sp_HostIDMap p) i \<noteq> None) ids)"
  by (induction ids arbitrary: normal low) auto

lemma Schedule_lists_none: "Schedule_lists None normal low ids = Inr (normal @ ids, low)"
  by (induction ids arbitrary: normal) auto

text \<open>Hosts that were asked one after the other and all refused.\<close>

inductive refused :: "'w OrcScheduler \<Rightarrow> ScheduleItem \<Rightarrow> string list \<Rightarrow> 'w \<Rightarrow> 'w \<Rightarrow> bool" for s item where
  none: "refused s item [] w w"
| step: "\<lbrakk>ScheduleProcess s \<lparr>ss_HostID = i\<rparr> item w = (Err e, w1); refused s item ids w1 w2\<rbrakk> \<Longrightarrow>
    refused s item (i # ids) w w2"

inductive_simps refused_Nil [simp]: "refused s item [] w w'"
inductive_simps refused_Cons: "refused s item (i # ids) w w'"

lemma Schedule_try_Ok:
  "Schedule_try s item ids w = (Ok inst, w') \<longleftrightarrow>
   (\<exists>pre i post w1. ids = pre @ i # post \<and> refused s item pre w w1 \<and>
      ScheduleProcess s \<lparr>ss_HostID = i\<rparr> item w1 = (Ok inst, w'))"
proof (induction ids arbitrary: w)
  case Nil
  then show ?case by (simp add: fail_def)
next
  case (Cons i ids)
  have split: "(\<exists>pre j post w1. i # ids = pre @ j # post \<and> P pre j post w1) \<longleftrightarrow>
      (\<exists>w1. P [] i ids w1) \<or> (\<exists>pre j post w1. ids = pre @ j # post \<and> P (i # pre) j post w1)" for P
    by (auto simp: Cons_eq_append_conv)
  obtain r w1 where r: "ScheduleProcess s \<lparr>ss_HostID = i\<rparr> item w = (r, w1)" by fastforce
  show ?case
    unfolding split using r
    by (cases r) (auto simp: attempt_def ret_def refused_Cons Cons.IH)
qed

lemma Schedule_try_Err:
  "Schedule_try s item ids w = (Err e, w') \<longleftrightarrow>
   refused s item ids w w' \<and> e = Errorf ''unable to find suitable host for scheduling''"
proof (induction ids arbitrary: w)
  case Nil
  then show ?case by (auto simp: fail_def)
next
  case (Cons i ids)
  obtain r w1 where r: "ScheduleProcess s \<lparr>ss_HostID = i\<rparr> item w = (r, w1)" by fastforce
  then show ?case by (cases r) (auto simp: attempt_def ret_def refused_Cons Cons.IH)
qed

section \<open>What a request returns\<close>

lemma Process_keys:
  "wp (Process s spec item) (\<lambda>inst _. i_ID inst \<noteq> [] \<and> i_Type inst \<noteq> InstanceTypeNone) (\<lambda>_ _. True) w \<or>
   (\<exists>m w'. Process s spec item w = (Panic m, w'))"
  by (cases "ops_ProcessSchedule (sch_ops s) item w"; cases "fst (ops_ProcessSchedule (sch_ops s) item w)")
    (auto simp: Process_def wp_def tryE_def fail_def ret_def split: option.splits)

lemma ScheduleProcess_id:
  "ScheduleProcess s spec item w = (Ok inst, w') \<Longrightarrow> i_ID inst \<noteq> []"
  by (auto simp: ScheduleProcess_def Process_def client_Schedule_def tryE_Ok_iff ret_def fail_def panic_def Let_def
      split: if_splits option.splits)

section \<open>Properties\<close>

text \<open>C32: replicas are spread over hosts first.  When a request with a soft anti-affinity
  policy and no host of its own succeeds, the host that took it is a registered one; every
  host before it in the order was asked and refused; and a host that already carries a replica
  took it only if every host that carries none was asked before and refused.\<close>

theorem Schedule_soft_anti_affinity:
  assumes "sp_Binding p = SchedulePolicyBindingSoftAntiAffinity" and "si_HostID (it_Instance item) = []"
    and "Schedule s item (Some p) w = (Ok inst, w')"
  shows "\<exists>hosts w1 pre i w2. ops_ListHosts (sch_ops s) w = (Ok hosts, w1) \<and> i \<in> fst ` set hosts \<and>
    refused s item pre w1 w2 \<and> ScheduleProcess s \<lparr>ss_HostID = i\<rparr> item w2 = (Ok inst, w') \<and>
    (map_of (sp_HostIDMap p) i \<noteq> None \<longrightarrow> (\<forall>h \<in> fst ` set hosts. map_of (sp_HostIDMap p) h = None \<longrightarrow> h \<in> set pre))"
proof -
  obtain hosts w1 where h: "ops_ListHosts (sch_ops s) w = (Ok hosts, w1)" and t:
      "Schedule_try s item (filter (\<lambda>i. map_of (sp_HostIDMap p) i = None) (map fst hosts) @
         filter (\<lambda>i. map_of (sp_HostIDMap p) i \<noteq> None) (map fst hosts)) w1 = (Ok inst, w')"
    using assms by (auto simp: Schedule_def tryE_Ok_iff Schedule_lists_soft fail_def split: if_splits)
  let ?N = "filter (\<lambda>i. map_of (sp_HostIDMap p) i = None) (map fst hosts)"
  let ?L = "filter (\<lambda>i. map_of (sp_HostIDMap p) i \<noteq> None) (map fst hosts)"
  obtain pre i post w2 where *: "?N @ ?L = pre @ i # post" "refused s item pre w1 w2"
      "ScheduleProcess s \<lparr>ss_HostID = i\<rparr> item w2 = (Ok inst, w')"
    using t unfolding Schedule_try_Ok by blast
  have "i \<in> set (?N @ ?L)" unfolding *(1) by simp
  then have i: "i \<in> fst ` set hosts" by auto
  have "set ?N \<subseteq> set pre" if "map_of (sp_HostIDMap p) i \<noteq> None"
  proof -
    obtain us where "?N @ us = pre \<and> ?L = us @ i # post \<or> ?N = pre @ us \<and> us @ ?L = i # post"
      using *(1) unfolding append_eq_append_conv2 by blast
    then show ?thesis
    proof
      assume "?N @ us = pre \<and> ?L = us @ i # post"
      then show ?thesis by (metis Un_upper1 set_append)
    next
      assume "?N = pre @ us \<and> us @ ?L = i # post"
      moreover have "i \<notin> set ?N" using that by simp
      ultimately show ?thesis by (cases us) (auto simp: Cons_eq_append_conv)
    qed
  qed
  then show ?thesis using h i *(2,3) by (intro exI conjI) auto
qed

text \<open>Two hosts, the second of which cannot be reached.\<close>

definition ex_sched :: "nat OrcScheduler" where
  "ex_sched = \<lparr>sch_ops = \<lparr>
       ops_ListHosts = ret [(''h1'', \<lparr>h_UUID = ''h1'', h_Name = ''a'', h_Address = ''10.0.0.1:9500''\<rparr>),
         (''h2'', \<lparr>h_UUID = ''h2'', h_Name = ''b'', h_Address = ''10.0.0.2:9500''\<rparr>)],
       ops_GetHost = (\<lambda>h. ret (Some \<lparr>h_UUID = h, h_Name = ''b'', h_Address = ''10.0.0.2:9500''\<rparr>)),
       ops_GetCurrentHostID = ''h1'',
       ops_ProcessSchedule = (\<lambda>i w. (Ok (Some (zero_InstanceInfo\<lparr>i_ID := si_ID (it_Instance i),
          i_Type := si_Type (it_Instance i), i_HostID := ''h1''\<rparr>)), w + 1))\<rparr>,
     sch_http = \<lparr>hc_Do = (\<lambda>_ _ _. fail (Ext ''connection refused'')), hc_base64 = (\<lambda>_. [])\<rparr>\<rparr>"

definition ex_item :: "string \<Rightarrow> ScheduleItem" where
  "ex_item host = \<lparr>it_Action = ''create-replica'', it_Instance = \<lparr>si_ID = ''r1'', si_Type = ''replica'', si_HostID = host,
     si_VolumeName = ''vol1'', si_Name = []\<rparr>, it_Data = \<lparr>sd_Orchestrator = ''docker'', sd_Data = None\<rparr>\<rparr>"

definition ex_policy :: SchedulePolicy where
  "ex_policy = \<lparr>sp_Binding = SchedulePolicyBindingSoftAntiAffinity, sp_HostIDMap = [(''h1'', ())]\<rparr>"

definition ex_inst :: InstanceInfo where
  "ex_inst = zero_InstanceInfo\<lparr>i_ID := ''r1'', i_Type := ''replica'', i_HostID := ''h1''\<rparr>"

lemmas ex_run = ex_sched_def ex_item_def ex_policy_def ex_inst_def Schedule_def ScheduleProcess_def Process_def
  client_Schedule_def client_post_def client_do_def newSchedulerClient_def zero_InstanceInfo_def
  tryE_def attempt_def fail_def ret_def Let_def

lemma ex_Schedule: "Schedule ex_sched (ex_item []) (Some ex_policy) 0 = (Ok ex_inst, 1)"
  by (simp add: ex_run)

theorem Schedule_soft_anti_affinity_witness:
  "\<exists>hosts w1 pre i w2. ops_ListHosts (sch_ops ex_sched) 0 = (Ok hosts, w1) \<and> i \<in> fst ` set hosts \<and>
    refused ex_sched (ex_item []) pre w1 w2 \<and> ScheduleProcess ex_sched \<lparr>ss_HostID = i\<rparr> (ex_item []) w2 = (Ok ex_inst, 1) \<and>
    (map_of (sp_HostIDMap ex_policy) i \<noteq> None \<longrightarrow>
      (\<forall>h \<in> fst ` set hosts. map_of (sp_HostIDMap ex_policy) h = None \<longrightarrow> h \<in> set pre))"
  by (rule Schedule_soft_anti_affinity [OF _ _ ex_Schedule]) (simp_all add: ex_policy_def ex_item_def)

text \<open>C33: a request that is placed by the soft anti-affinity policy, as every new replica is, fails
  exactly when the hosts cannot be listed or when every listed host was asked and refused: first
  the hosts that carry no replica of the volume, then those that do.\<close>

theorem Schedule_asks_every_host:
  assumes "si_ID (it_Instance item) \<noteq> []" and "si_Type (it_Instance item) \<noteq> InstanceTypeNone"
    and "si_HostID (it_Instance item) = []" and "sp_Binding p = SchedulePolicyBindingSoftAntiAffinity"
  shows "Schedule s item (Some p) w = (Err e, w') \<longleftrightarrow>
    (\<exists>e0. ops_ListHosts (sch_ops s) w = (Err e0, w') \<and> e = wrap ''fail to schedule'' e0) \<or>
    (\<exists>hosts w1. ops_ListHosts (sch_ops s) w = (Ok hosts, w1) \<and>
       refused s item (filter (\<lambda>h. map_of (sp_HostIDMap p) h = None) (map fst hosts) @
         filter (\<lambda>h. map_of (sp_HostIDMap p) h \<noteq> None) (map fst hosts)) w1 w' \<and>
       e = Errorf ''unable to find suitable host for scheduling'')"
proof -
  obtain r w1 where r: "ops_ListHosts (sch_ops s) w = (r, w1)" by fastforce
  show ?thesis
    using assms r by (cases r) (auto simp: Schedule_def tryE_def Schedule_lists_soft Schedule_try_Err)
qed

definition ex_refusing :: "nat OrcScheduler" where
  "ex_refusing = ex_sched\<lparr>sch_ops := (sch_ops ex_sched)\<lparr>ops_ProcessSchedule := (\<lambda>_. fail (Ext ''no space''))\<rparr>\<rparr>"

theorem Schedule_asks_every_host_witness:
  "refused ex_refusing (ex_item []) [''h2'', ''h1''] 0 0"
proof -
  have hosts: "ops_ListHosts (sch_ops ex_refusing) 0 = (Ok [(''h1'', \<lparr>h_UUID = ''h1'', h_Name = ''a'', h_Address = ''10.0.0.1:9500''\<rparr>),
      (''h2'', \<lparr>h_UUID = ''h2'', h_Name = ''b'', h_Address = ''10.0.0.2:9500''\<rparr>)], 0)"
    by (simp add: ex_refusing_def ex_run)
  have "Schedule ex_refusing (ex_item []) (Some ex_policy) 0 =
      (Err (Errorf ''unable to find suitable host for scheduling''), 0)"
    by (simp add: ex_refusing_def ex_run)
  then show ?thesis
    using Schedule_asks_every_host [of "ex_item []" ex_policy ex_refusing 0 "Errorf ''unable to find suitable host for scheduling''" 0] hosts
    by (simp add: ex_item_def ex_policy_def)
qed

text \<open>An action is carried out only on the host it is addressed to: a request addressed to
  another host is refused and changes nothing; an instance that comes back has an ID and a type.\<close>

theorem Process_guards:
  "(ops_GetCurrentHostID (sch_ops s) \<noteq> ss_HostID spec \<longrightarrow>
      Process s spec item w = (Err (Errorf (''wrong host routing, should be at '' @ ss_HostID spec)), w)) \<and>
   (\<forall>inst w'. Process s spec item w = (Ok inst, w') \<longrightarrow> i_ID inst \<noteq> [] \<and> i_Type inst \<noteq> InstanceTypeNone \<and>
      ops_ProcessSchedule (sch_ops s) item w = (Ok (Some inst), w'))"
  by (auto simp: Process_def fail_def ret_def tryE_Ok_iff split: if_splits option.splits)

end
