(* ===== verification/Docker.thy ===== *)
theory Docker
  imports KVStore Scheduler
begin

text \<open>
  Package \<open>orch/docker\<close>: the orchestrator that keeps volumes in the store and runs their
  controllers and replicas as containers.  The docker engine's client is the parameter
  \<open>DockerClient\<close>, files and environment variables are \<open>HostEnv\<close>.  \<open>dockerOrc\<close> is the
  struct, without the scheduler, which is built from the orchestrator itself
  (\<open>docker_sched\<close>).  A pointer result that the code returns as nil without an error is an
  option.
\<close>

section \<open>The docker engine and the host\<close>

record ContainerConfig =
  cc_Image :: string
  cc_Cmd :: "string list"
  cc_Volumes :: "string list"
  cc_Binds :: "string list"
  cc_Privileged :: bool
  cc_NetworkMode :: string

record ContainerJSON =
  cj_ID :: string
  cj_Name :: string
  cj_Running :: bool
  cj_IPAddress :: string
  cj_Networks :: "string gomap"

record 'w DockerClient =
  cli_ContainerList :: "('w, unit) op"
  cli_ContainerCreate :: "ContainerConfig \<Rightarrow> string \<Rightarrow> ('w, string) op"
  cli_ContainerInspect :: "string \<Rightarrow> ('w, ContainerJSON) op"
  cli_ContainerStart :: "string \<Rightarrow> ('w, unit) op"
  cli_ContainerStop :: "string \<Rightarrow> int \<Rightarrow> ('w, unit) op"
  cli_ContainerRemove :: "string \<Rightarrow> bool \<Rightarrow> ('w, unit) op"

record 'w HostEnv =
  he_Hostname :: "('w, string) op"
  he_ReadFile :: "string \<Rightarrow> ('w, string) op"
  he_MkdirAll :: "string \<Rightarrow> ('w, unit) op"
  he_WriteFile :: "string \<Rightarrow> string \<Rightarrow> ('w, unit) op"
  he_Getenv :: "string \<Rightarrow> 'w \<Rightarrow> string \<times> 'w"

record 'w dockerOrc =
  do_EngineImage :: string
  do_Network :: string
  do_IP :: string
  do_currentHost :: HostInfo
  do_kv :: "'w KVStore"
  do_cli :: "'w DockerClient"
  do_env :: "'w Env"
  do_http :: "'w HttpClient"

record dockerOrcConfig =
  cfg_servers :: "string list"
  cfg_prefix :: string
  cfg_image :: string
  cfg_network :: string

section \<open>docker.go\<close>

abbreviation cfgDirectory :: string where "cfgDirectory \<equiv> ''/var/lib/rancher/longhorn/''"
abbreviation hostUUIDFile :: string where "hostUUIDFile \<equiv> ''/var/lib/rancher/longhorn/.physical_host_uuid''"

definition getCurrentHost :: "'w Env \<Rightarrow> 'w HostEnv \<Rightarrow> string \<Rightarrow> ('w, HostInfo) op" where
  "getCurrentHost env henv address =
     tryE (he_Hostname henv) id (\<lambda>name.
     attempt (he_ReadFile henv hostUUIDFile) (\<lambda>r. case r of
       Inr uuid \<Rightarrow> ret \<lparr>h_UUID = uuid, h_Name = name, h_Address = address\<rparr>
     | Inl _ \<Rightarrow> st (env_UUID env) (\<lambda>uuid.
         tryE (he_MkdirAll henv cfgDirectory) (\<lambda>_. Errorf ''Fail to create configuration directory'') (\<lambda>_.
         tryE (he_WriteFile henv hostUUIDFile uuid) (\<lambda>_. Errorf ''Fail to write host uuid file'') (\<lambda>_.
         ret \<lparr>h_UUID = uuid, h_Name = name, h_Address = address\<rparr>)))))"

text \<open>The network and the IP address that \<open>updateNetwork\<close> stores in the struct.\<close>

definition updateNetwork :: "'w DockerClient \<Rightarrow> 'w HostEnv \<Rightarrow> string \<Rightarrow> ('w, string \<times> string) op" where
  "updateNetwork cli henv userSpecifiedNetwork =
     st (he_Getenv henv ''HOSTNAME'') (\<lambda>containerID.
     tryE (cli_ContainerInspect cli containerID)
       (\<lambda>_. Errorf ''cannot find manager container, may not be running inside container'') (\<lambda>inspectJSON.
     let networks = cj_Networks inspectJSON in
     if networks = [] then fail (Errorf ''cannot find manager container's network'')
     else if userSpecifiedNetwork \<noteq> [] then
       (case map_of networks userSpecifiedNetwork of
          None \<Rightarrow> fail (Errorf (''user specified network '' @ userSpecifiedNetwork @ '' doesn't exist''))
        | Some ip \<Rightarrow> ret (userSpecifiedNetwork, ip))
     else if length networks > 1 then fail (Errorf (''found multiple networks for container '' @ containerID))
     else ret (hd networks)))"

definition Register :: "'w KVStore \<Rightarrow> 'w Env \<Rightarrow> 'w HostEnv \<Rightarrow> string \<Rightarrow> ('w, HostInfo) op" where
  "Register kv env henv address =
     tryE (getCurrentHost env henv address) id (\<lambda>currentHost.
     tryE (SetHost kv currentHost) id (\<lambda>_. ret currentHost))"

text \<open>\<open>mkBackend\<close> is \<open>NewETCDBackend\<close> on the servers, \<open>mkClient\<close> is docker's \<open>NewEnvClient\<close>.\<close>

definition newDocker ::
  "(string list \<Rightarrow> gerr + 'w Backend) \<Rightarrow> ('w, 'w DockerClient) op \<Rightarrow> 'w Env \<Rightarrow> 'w HostEnv \<Rightarrow> 'w HttpClient \<Rightarrow>
   dockerOrcConfig \<Rightarrow> ('w, 'w dockerOrc) op" where
  "newDocker mkBackend mkClient env henv http cfg = (case mkBackend (cfg_servers cfg) of
      Inl e \<Rightarrow> fail e
    | Inr etcdBackend \<Rightarrow> (case NewKVStore (cfg_prefix cfg) (Some etcdBackend) of
        Inl e \<Rightarrow> fail e
      | Inr kvStore \<Rightarrow>
          tryE mkClient (wrap ''cannot connect to docker'') (\<lambda>cli.
          tryE (cli_ContainerList cli) (wrap ''cannot pass test to get container list'') (\<lambda>_.
          tryE (updateNetwork cli henv (cfg_network cfg)) (wrap ''fail to detect dedicated container network'')
            (\<lambda>(network, ip).
          tryE (Register kvStore env henv (ip @ '':9500'')) id (\<lambda>currentHost.
          ret \<lparr>do_EngineImage = cfg_image cfg, do_Network = network, do_IP = ip, do_currentHost = currentHost,
            do_kv = kvStore, do_cli = cli, do_env = env, do_http = http\<rparr>))))))"

definition New ::
  "(string list \<Rightarrow> gerr + 'w Backend) \<Rightarrow> ('w, 'w DockerClient) op \<Rightarrow> 'w Env \<Rightarrow> 'w HostEnv \<Rightarrow> 'w HttpClient \<Rightarrow>
   dockerOrcConfig \<Rightarrow> ('w, 'w dockerOrc) op" where
  "New mkBackend mkClient env henv http flags =
     (if cfg_servers flags = [] then fail (Errorf ''Unspecified etcd servers'')
      else newDocker mkBackend mkClient env henv http flags)"

definition docker_GetHost :: "'w dockerOrc \<Rightarrow> string \<Rightarrow> ('w, HostInfo option) op" where
  "docker_GetHost d i = GetHost (do_kv d) i"

definition docker_ListHosts :: "'w dockerOrc \<Rightarrow> ('w, HostInfo gomap) op" where
  "docker_ListHosts d = ListHosts (do_kv d)"

definition GetCurrentHostID :: "'w dockerOrc \<Rightarrow> string" where
  "GetCurrentHostID d = h_UUID (do_currentHost d)"

definition GetAddress :: "'w dockerOrc \<Rightarrow> string \<Rightarrow> ('w, string) op" where
  "GetAddress d hostID =
     (if hostID = h_UUID (do_currentHost d) then ret (h_Address (do_currentHost d))
      else tryE (docker_GetHost d hostID) id (\<lambda>h. case h of
          None \<Rightarrow> panic ''nil pointer dereference''
        | Some host \<Rightarrow> ret (h_Address host)))"

definition docker_CreateVolume :: "'w dockerOrc \<Rightarrow> VolumeInfo \<Rightarrow> ('w, VolumeInfo) op" where
  "docker_CreateVolume d volume = attempt (GetVolumeBase (do_kv d) (v_Name volume)) (\<lambda>r. case r of
      Inr (Some v) \<Rightarrow> fail (Errorf (''volume '' @ v_Name volume @ '' already exists''))
    | _ \<Rightarrow> tryE (SetVolumeBase (do_kv d) volume) (wrap ''fail to create new volume metadata'') (\<lambda>_. ret volume))"

definition docker_DeleteVolume :: "'w dockerOrc \<Rightarrow> string \<Rightarrow> ('w, unit) op" where
  "docker_DeleteVolume d volumeName = DeleteVolume (do_kv d) volumeName"

definition docker_GetVolume :: "'w dockerOrc \<Rightarrow> string \<Rightarrow> ('w, VolumeInfo option) op" where
  "docker_GetVolume d volumeName = GetVolume (do_kv d) volumeName"

definition UpdateVolume :: "'w dockerOrc \<Rightarrow> VolumeInfo \<Rightarrow> ('w, unit) op" where
  "UpdateVolume d volume =
     tryE (GetVolumeBase (do_kv d) (v_Name volume))
       (\<lambda>_. Errorf (''cannot update volume '' @ v_Name volume @ '' because it doesn't exists'')) (\<lambda>_.
     SetVolumeBase (do_kv d) volume)"

definition docker_ListVolumes :: "'w dockerOrc \<Rightarrow> ('w, VolumeInfo list) op" where
  "docker_ListVolumes d = ListVolumes (do_kv d)"

text \<open>The loop over the replicas stops at the first of the given name.\<close>

fun mark_first :: "string \<Rightarrow> string \<Rightarrow> ReplicaInfo gomap \<Rightarrow> ReplicaInfo gomap" where
  "mark_first name now [] = []"
| "mark_first name now ((k, r) # rs) =
     (if i_Name (r_InstanceInfo r) = name then (k, r\<lparr>r_BadTimestamp := now\<rparr>) # rs
      else (k, r) # mark_first name now rs)"

definition has_replica :: "string \<Rightarrow> ReplicaInfo gomap \<Rightarrow> bool" where
  "has_replica name rs = list_ex (\<lambda>(k, r). i_Name (r_InstanceInfo r) = name) rs"

definition MarkBadReplica :: "'w dockerOrc \<Rightarrow> string \<Rightarrow> ReplicaInfo \<Rightarrow> ('w, unit) op" where
  "MarkBadReplica d volumeName replica =
     tryE (GetVolume (do_kv d) volumeName) (wrap ''fail to mark bad replica, cannot get volume'') (\<lambda>v. case v of
       None \<Rightarrow> panic ''nil pointer dereference''
     | Some v \<Rightarrow>
         (let name = i_Name (r_InstanceInfo replica);
              update = (\<lambda>v. tryE (UpdateVolume d v) (wrap ''fail to mark bad replica, cannot update volume'') ret)
          in if has_replica name (replicas_of v)
             then st (Now (do_env d)) (\<lambda>now. update (v\<lparr>v_Replicas := map_option (mark_first name now) (v_Replicas v)\<rparr>))
             else update v))"

definition docker_GetSettings :: "'w dockerOrc \<Rightarrow> ('w, SettingsInfo option) op" where
  "docker_GetSettings d = tryE (GetSettings (do_kv d)) id (\<lambda>settings. case settings of
      None \<Rightarrow> ret (Some \<lparr>s_BackupTarget = [], s_EngineImage = do_EngineImage d\<rparr>)
    | Some s \<Rightarrow> ret (Some s))"

definition docker_SetSettings :: "'w dockerOrc \<Rightarrow> SettingsInfo \<Rightarrow> ('w, unit) op" where
  "docker_SetSettings d settings = SetSettings (do_kv d) settings"

section \<open>instance.go: containers\<close>

abbreviation OrcName :: string where "OrcName \<equiv> ''docker''"
abbreviation ContainerStopTimeout :: int where "ContainerStopTimeout \<equiv> Minute"
abbreviation WaitDeviceTimeout :: nat where "WaitDeviceTimeout \<equiv> 30"
abbreviation WaitAPITimeout :: nat where "WaitAPITimeout \<equiv> 30"

record dockerScheduleData =
  ds_InstanceName :: string
  ds_VolumeName :: string
  ds_VolumeSize :: string
  ds_EngineImage :: string
  ds_ReplicaURLs :: "string list option"

definition enc_dockerScheduleData :: "dockerScheduleData \<Rightarrow> json" where
  "enc_dockerScheduleData x = JObj
     [(''InstanceName'', JStr (ds_InstanceName x)), (''VolumeName'', JStr (ds_VolumeName x)),
      (''VolumeSize'', JStr (ds_VolumeSize x)), (''EngineImage'', JStr (ds_EngineImage x)),
      (''ReplicaURLs'', enc_ptr (enc_slice JStr) (ds_ReplicaURLs x))]"

definition dec_string :: "json \<Rightarrow> string option" where
  "dec_string j = (case j of JNull \<Rightarrow> Some [] | JStr s \<Rightarrow> Some s | _ \<Rightarrow> None)"

definition dec_dockerScheduleData :: "json \<Rightarrow> dockerScheduleData option" where
  "dec_dockerScheduleData j = (case (case j of JNull \<Rightarrow> Some [] | JObj ms \<Rightarrow> Some ms | _ \<Rightarrow> None) of
     None \<Rightarrow> None
   | Some ms \<Rightarrow> do {
       n \<leftarrow> get_string ms ''InstanceName'';
       v \<leftarrow> get_string ms ''VolumeName'';
       z \<leftarrow> get_string ms ''VolumeSize'';
       e \<leftarrow> get_string ms ''EngineImage'';
       u \<leftarrow> get_ptr (dec_slice dec_string) ms ''ReplicaURLs'';
       Some \<lparr>ds_InstanceName = n, ds_VolumeName = v, ds_VolumeSize = z, ds_EngineImage = e, ds_ReplicaURLs = u\<rparr> })"

definition zero_dockerScheduleData :: dockerScheduleData where
  "zero_dockerScheduleData = \<lparr>ds_InstanceName = [], ds_VolumeName = [], ds_VolumeSize = [], ds_EngineImage = [],
     ds_ReplicaURLs = None\<rparr>"

definition refreshInstanceInfo :: "'w dockerOrc \<Rightarrow> InstanceInfo \<Rightarrow> ('w, InstanceInfo) op" where
  "refreshInstanceInfo d inst =
     tryE (cli_ContainerInspect (do_cli d) (i_ID inst)) (wrap (''fail to inspect '' @ i_Type inst @ '' instance '' @ i_ID inst))
       (\<lambda>inspectJSON.
     let info = \<lparr>i_ID = cj_ID inspectJSON, i_Type = i_Type inst, i_Name = TrimPrefix (cj_Name inspectJSON) ''/'',
                 i_HostID = GetCurrentHostID d, i_Address = [], i_Running = cj_Running inspectJSON,
                 i_VolumeName = i_VolumeName inst\<rparr>;
         done = (\<lambda>info. if i_Running info \<and> i_Address info = []
                        then fail (Errorf (''BUG: Cannot find IP address of '' @ i_ID inst)) else ret info)
     in if do_Network d = [] then done (info\<lparr>i_Address := cj_IPAddress inspectJSON\<rparr>)
        else (case map_of (cj_Networks inspectJSON) (do_Network d) of
            None \<Rightarrow> panic ''nil pointer dereference''
          | Some ip \<Rightarrow> done (info\<lparr>i_Address := ip\<rparr>)))"

definition startContainer :: "'w dockerOrc \<Rightarrow> string \<Rightarrow> ('w, unit) op" where
  "startContainer d i = cli_ContainerStart (do_cli d) i"

definition startInstance :: "'w dockerOrc \<Rightarrow> InstanceInfo \<Rightarrow> ('w, InstanceInfo) op" where
  "startInstance d inst =
     tryE (startContainer d (i_ID inst)) (wrap (''fail to start instance '' @ i_ID inst)) (\<lambda>_.
     refreshInstanceInfo d inst)"

definition stopInstance :: "'w dockerOrc \<Rightarrow> InstanceInfo \<Rightarrow> ('w, InstanceInfo) op" where
  "stopInstance d inst =
     tryE (cli_ContainerStop (do_cli d) (i_ID inst) ContainerStopTimeout) (wrap (''fail to start instance '' @ i_ID inst)) (\<lambda>_.
     refreshInstanceInfo d inst)"

definition stopContainer :: "'w dockerOrc \<Rightarrow> string \<Rightarrow> ('w, unit) op" where
  "stopContainer d i = cli_ContainerStop (do_cli d) i ContainerStopTimeout"

definition removeContainer :: "'w dockerOrc \<Rightarrow> string \<Rightarrow> ('w, unit) op" where
  "removeContainer d i = cli_ContainerRemove (do_cli d) i True"

definition removeInstance :: "'w dockerOrc \<Rightarrow> InstanceInfo \<Rightarrow> ('w, InstanceInfo) op" where
  "removeInstance d inst =
     tryE (removeContainer d (i_ID inst)) (wrap (''Fail to remove instance '' @ i_ID inst)) (\<lambda>_. ret inst)"

definition getDeviceName :: "string \<Rightarrow> string" where
  "getDeviceName volumeName = filepath_Join ''/dev/longhorn/'' volumeName"

text \<open>\<open>createController\<close> with its deferred function: when the method fails with an instance at
  hand, the container is removed (whatever that returns) and the error is returned; when
  starting the container fails there is no instance at hand.\<close>

definition createController :: "'w dockerOrc \<Rightarrow> dockerScheduleData \<Rightarrow> ('w, InstanceInfo) op" where
  "createController d sdata =
     (let cmd = [''launch'', ''controller'', ''--listen'', ''0.0.0.0:9501'', ''--frontend'', ''tgt''] @
                concat (map (\<lambda>url. [''--replica'', url]) (case ds_ReplicaURLs sdata of None \<Rightarrow> [] | Some us \<Rightarrow> us)) @
                [ds_VolumeName sdata] in
      tryE (cli_ContainerCreate (do_cli d) \<lparr>cc_Image = ds_EngineImage sdata, cc_Cmd = cmd, cc_Volumes = [],
              cc_Binds = [''/dev:/host/dev'', ''/proc:/host/proc''], cc_Privileged = True,
              cc_NetworkMode = do_Network d\<rparr> (ds_InstanceName sdata))
        (wrap ''fail to create controller container'') (\<lambda>cid.
      tryE (startInstance d \<lparr>i_ID = cid, i_Type = InstanceTypeController, i_Name = ds_InstanceName sdata,
              i_HostID = GetCurrentHostID d, i_Address = [], i_Running = False, i_VolumeName = ds_VolumeName sdata\<rparr>)
        (wrap ''fail to start controller container'') (\<lambda>inst.
      let url = ''http://'' @ i_Address inst @ '':9501/v1'';
          cleanup = (\<lambda>e. attempt (removeInstance d inst) (\<lambda>_. fail e)) in
      attempt (WaitForAPI (do_env d) url WaitAPITimeout) (\<lambda>r. case r of
        Inl e \<Rightarrow> cleanup (wrap (''fail to wait for api endpoint at '' @ url) e)
      | Inr _ \<Rightarrow> attempt (WaitForDevice (do_env d) (getDeviceName (ds_VolumeName sdata)) WaitDeviceTimeout) (\<lambda>r. case r of
          Inl e \<Rightarrow> cleanup (wrap (''fail to create controller for '' @ i_VolumeName inst) e)
        | Inr _ \<Rightarrow> ret inst)))))"

definition createReplica :: "'w dockerOrc \<Rightarrow> dockerScheduleData \<Rightarrow> ('w, InstanceInfo) op" where
  "createReplica d sdata =
     (let cmd = [''launch'', ''replica'', ''--listen'', ''0.0.0.0:9502'', ''--size'', ds_VolumeSize sdata, ''/volume''] in
      tryE (cli_ContainerCreate (do_cli d) \<lparr>cc_Image = ds_EngineImage sdata, cc_Cmd = cmd, cc_Volumes = [''/volume''],
              cc_Binds = [], cc_Privileged = True, cc_NetworkMode = do_Network d\<rparr> (ds_InstanceName sdata))
        (wrap (''fail to create replica for '' @ ds_VolumeName sdata)) (\<lambda>cid.
      let input = \<lparr>i_ID = cid, i_Type = InstanceTypeReplica, i_Name = ds_InstanceName sdata,
                   i_HostID = GetCurrentHostID d, i_Address = [], i_Running = False, i_VolumeName = ds_VolumeName sdata\<rparr> in
      attempt (refreshInstanceInfo d input) (\<lambda>r. case r of
        Inl e \<Rightarrow> attempt (removeInstance d input) (\<lambda>_. fail (wrap (''fail to create replica for '' @ i_VolumeName input) e))
      | Inr inst \<Rightarrow> ret inst)))"

section \<open>instance.go: metadata\<close>

definition instance_complete :: "InstanceInfo \<Rightarrow> bool" where
  "instance_complete i \<longleftrightarrow> i_ID i \<noteq> [] \<and> i_Name i \<noteq> [] \<and> i_HostID i \<noteq> [] \<and> i_Type i \<noteq> InstanceTypeNone \<and> i_VolumeName i \<noteq> []"

definition updateInstanceMetadata :: "'w dockerOrc \<Rightarrow> InstanceInfo \<Rightarrow> ('w, unit) op" where
  "updateInstanceMetadata d inst =
     (if \<not> instance_complete inst then fail (Errorf ''invalid instance to update metadata'')
      else if i_Type inst = InstanceTypeController then
        tryE (GetVolumeController (do_kv d) (i_VolumeName inst))
          (\<lambda>_. Errorf (''unable to update instance metadata: cannot get controller for volume '' @ i_VolumeName inst)) (\<lambda>c.
        if (case c of None \<Rightarrow> False | Some c \<Rightarrow> i_ID (c_InstanceInfo c) \<noteq> i_ID inst \<or> i_HostID (c_InstanceInfo c) \<noteq> i_HostID inst)
        then fail (Errorf ''unable to update instance metadata: metadata conflict'')
        else tryE (SetVolumeController (do_kv d) \<lparr>c_InstanceInfo = inst\<rparr>) (wrap ''fail to update controller metadata'') ret)
      else if i_Type inst = InstanceTypeReplica then
        tryE (GetVolumeReplica (do_kv d) (i_VolumeName inst) (i_Name inst))
          (wrap (''unable to update instance metadata: cannot get replica '' @ i_Name inst)) (\<lambda>r.
        case r of
          Some replica \<Rightarrow>
            if i_ID (r_InstanceInfo replica) \<noteq> i_ID inst \<or> i_HostID (r_InstanceInfo replica) \<noteq> i_HostID inst
            then fail (Errorf (''unable to update instance metadata: replica '' @ i_Name inst @ '' metadata conflict''))
            else tryE (SetVolumeReplica (do_kv d) (replica\<lparr>r_InstanceInfo := inst\<rparr>)) (wrap ''fail to update replica metadata'') ret
        | None \<Rightarrow> tryE (SetVolumeReplica (do_kv d) \<lparr>r_InstanceInfo = inst, r_Mode = [], r_BadTimestamp = []\<rparr>)
                    (wrap ''fail to update replica metadata'') ret)
      else ret ())"

definition removeInstanceMetadata :: "'w dockerOrc \<Rightarrow> InstanceInfo \<Rightarrow> ('w, unit) op" where
  "removeInstanceMetadata d inst =
     (if \<not> instance_complete inst then fail (Errorf ''invalid instance to update metadata for'')
      else if i_Type inst = InstanceTypeController then
        tryE (GetVolumeController (do_kv d) (i_VolumeName inst))
          (\<lambda>_. Errorf (''unable to remove instance metadata: cannot get controller for volume '' @ i_VolumeName inst)) (\<lambda>c.
        case c of
          None \<Rightarrow> fail (Errorf (''unable to remove instance metadata: unable to find controller for volume '' @ i_VolumeName inst))
        | Some c \<Rightarrow>
            if i_ID (c_InstanceInfo c) \<noteq> i_ID inst \<or> i_HostID (c_InstanceInfo c) \<noteq> i_HostID inst
            then fail (Errorf ''unable to remove instance metadata: metadata conflict'')
            else tryE (DeleteVolumeController (do_kv d) (i_VolumeName inst)) (wrap ''unable to remove instance metadata'') ret)
      else if i_Type inst = InstanceTypeReplica then
        tryE (GetVolumeReplica (do_kv d) (i_VolumeName inst) (i_Name inst))
          (wrap (''unable to remove instance metadata: cannot get replica '' @ i_Name inst)) (\<lambda>r.
        case r of
          None \<Rightarrow> fail (Errorf ''unable to remove instance metadata: unable to find replica'')
        | Some replica \<Rightarrow>
            if i_ID (r_InstanceInfo replica) \<noteq> i_ID inst \<or> i_HostID (r_InstanceInfo replica) \<noteq> i_HostID inst
            then fail (Errorf ''unable to remove instance metadata: metadata conflict'')
            else tryE (DeleteVolumeReplica (do_kv d) (i_VolumeName (r_InstanceInfo replica)) (i_Name (r_InstanceInfo replica)))
                   (wrap ''unable to remove instance metadata'') ret)
      else ret ())"

section \<open>instance.go: scheduled actions\<close>

definition ProcessSchedule_data :: "ScheduleItem \<Rightarrow> dockerScheduleData option" where
  "ProcessSchedule_data item = (case sd_Data (it_Data item) of
      None \<Rightarrow> Some zero_dockerScheduleData
    | Some j \<Rightarrow> dec_dockerScheduleData j)"

definition ProcessSchedule_action :: "'w dockerOrc \<Rightarrow> ScheduleItem \<Rightarrow> dockerScheduleData \<Rightarrow> InstanceInfo \<Rightarrow> ('w, InstanceInfo) op option" where
  "ProcessSchedule_action d item sdata input =
     (if it_Action item = ScheduleActionCreateController then Some (createController d sdata)
      else if it_Action item = ScheduleActionCreateReplica then Some (createReplica d sdata)
      else if it_Action item = ScheduleActionStartInstance then Some (startInstance d input)
      else if it_Action item = ScheduleActionStopInstance then Some (stopInstance d input)
      else if it_Action item = ScheduleActionDeleteInstance then Some (removeInstance d input)
      else None)"

definition ProcessSchedule :: "'w dockerOrc \<Rightarrow> ScheduleItem \<Rightarrow> ('w, InstanceInfo option) op" where
  "ProcessSchedule d item =
     (if sd_Orchestrator (it_Data item) \<noteq> OrcName
      then fail (Errorf (''received request for the wrong orchestrator '' @ sd_Orchestrator (it_Data item)))
      else (case ProcessSchedule_data item of
        None \<Rightarrow> fail (Wrap (Ext ''json'') ''fail to parse schedule data'')
      | Some sdata \<Rightarrow>
        if si_ID (it_Instance item) = [] then fail (Errorf ''empty instance ID'')
        else (let input = \<lparr>i_ID = si_ID (it_Instance item), i_Type = si_Type (it_Instance item),
                    i_Name = si_Name (it_Instance item), i_HostID = si_HostID (it_Instance item), i_Address = [],
                    i_Running = False, i_VolumeName = si_VolumeName (it_Instance item)\<rparr> in
          case ProcessSchedule_action d item sdata input of
            None \<Rightarrow> fail (Errorf (''cannot find specified action '' @ it_Action item))
          | Some action \<Rightarrow>
              tryE action (wrap ''failed to process schedule'') (\<lambda>inst.
              attempt (if it_Action item = ScheduleActionDeleteInstance then removeInstanceMetadata d inst
                       else updateInstanceMetadata d inst) (\<lambda>r. case r of
                Inr _ \<Rightarrow> ret (Some inst)
              | Inl e \<Rightarrow>
                  let err = fail (wrap ''failed to update instance metadata'' e) in
                  if it_Action item = ScheduleActionCreateController \<or> it_Action item = ScheduleActionCreateReplica
                  then attempt (removeInstance d inst) (\<lambda>_. err) else err)))))"

definition docker_ops :: "'w dockerOrc \<Rightarrow> 'w ScheduleOps" where
  "docker_ops d = \<lparr>ops_ListHosts = docker_ListHosts d, ops_GetHost = docker_GetHost d,
     ops_GetCurrentHostID = GetCurrentHostID d, ops_ProcessSchedule = ProcessSchedule d\<rparr>"

definition docker_sched :: "'w dockerOrc \<Rightarrow> 'w OrcScheduler" where
  "docker_sched d = \<lparr>sch_ops = docker_ops d, sch_http = do_http d\<rparr>"

section \<open>instance.go: the orchestrator's operations\<close>

fun controller_urls :: "ReplicaInfo gomap \<Rightarrow> string list \<Rightarrow> gerr + string list" where
  "controller_urls rs [] = Inr []"
| "controller_urls rs (name # names) = (case map_of rs name of
      None \<Rightarrow> Inl (Errorf (''cannot find replica '' @ name))
    | Some replica \<Rightarrow>
        if i_Address (r_InstanceInfo replica) = [] then Inl (Errorf (''invalid empty address of replica '' @ name))
        else (case controller_urls rs names of
            Inl e \<Rightarrow> Inl e
          | Inr urls \<Rightarrow> Inr ((''tcp://'' @ i_Address (r_InstanceInfo replica) @ '':9502'') # urls)))"

text \<open>A volume that does not exist: \<open>errors.Wrapf\<close> on the nil error gives nil, so both
  results are nil.\<close>

definition prepareCreateController :: "'w dockerOrc \<Rightarrow> string \<Rightarrow> string \<Rightarrow> string list \<Rightarrow> ('w, ScheduleData option) op" where
  "prepareCreateController d volumeName controllerName replicaNames =
     tryE (GetVolume (do_kv d) volumeName) (wrap ''unable to create controller'') (\<lambda>v. case v of
       None \<Rightarrow> (case errors_Wrapf None (''unable to find volume '' @ volumeName) of None \<Rightarrow> ret None | Some e \<Rightarrow> fail e)
     | Some volume \<Rightarrow> (case controller_urls (replicas_of volume) replicaNames of
         Inl e \<Rightarrow> fail e
       | Inr urls \<Rightarrow> ret (Some \<lparr>sd_Orchestrator = OrcName, sd_Data = Some (enc_dockerScheduleData
           \<lparr>ds_InstanceName = controllerName, ds_VolumeName = volumeName, ds_VolumeSize = [],
            ds_EngineImage = v_EngineImage volume, ds_ReplicaURLs = Some urls\<rparr>)\<rparr>)))"

definition CreateController :: "'w dockerOrc \<Rightarrow> string \<Rightarrow> string \<Rightarrow> ReplicaInfo gomap \<Rightarrow> ('w, ControllerInfo) op" where
  "CreateController d volumeName controllerName replicas =
     tryE (prepareCreateController d volumeName controllerName (map fst replicas))
       (wrap (''Fail to create controller for '' @ volumeName)) (\<lambda>sdata. case sdata of
         None \<Rightarrow> panic ''nil pointer dereference''
       | Some sdata \<Rightarrow>
           tryE (Schedule (docker_sched d)
             \<lparr>it_Action = ScheduleActionCreateController,
              it_Instance = \<lparr>si_ID = controllerName, si_Type = InstanceTypeController, si_HostID = GetCurrentHostID d,
                si_VolumeName = volumeName, si_Name = []\<rparr>, it_Data = sdata\<rparr> None)
             (wrap (''Fail to create controller for '' @ volumeName)) (\<lambda>inst. ret \<lparr>c_InstanceInfo = inst\<rparr>))"

definition prepareCreateReplicaPolicy :: "VolumeInfo \<Rightarrow> SchedulePolicy" where
  "prepareCreateReplicaPolicy volume = \<lparr>sp_Binding = SchedulePolicyBindingSoftAntiAffinity,
     sp_HostIDMap = foldl (\<lambda>m (k, r). if r_BadTimestamp r = [] then AList.update (i_HostID (r_InstanceInfo r)) () m else m)
       [] (replicas_of volume)\<rparr>"

definition prepareCreateReplica :: "VolumeInfo \<Rightarrow> string \<Rightarrow> gerr + ScheduleData" where
  "prepareCreateReplica volume replicaName =
     (if v_Size volume = 0 then Inl (Errorf ''invalid volume size 0'')
      else Inr \<lparr>sd_Orchestrator = OrcName, sd_Data = Some (enc_dockerScheduleData
        \<lparr>ds_InstanceName = replicaName, ds_VolumeName = v_Name volume, ds_VolumeSize = FormatInt (sint (v_Size volume)),
         ds_EngineImage = v_EngineImage volume, ds_ReplicaURLs = None\<rparr>)\<rparr>)"

definition CreateReplica :: "'w dockerOrc \<Rightarrow> string \<Rightarrow> string \<Rightarrow> ('w, ReplicaInfo option) op" where
  "CreateReplica d volumeName replicaName =
     tryE (GetVolume (do_kv d) volumeName) (wrap ''unable to create replica'') (\<lambda>v. case v of
       None \<Rightarrow> (case errors_Wrapf None (''unable to find volume '' @ volumeName) of None \<Rightarrow> ret None | Some e \<Rightarrow> fail e)
     | Some volume \<Rightarrow> (case prepareCreateReplica volume replicaName of
         Inl e \<Rightarrow> fail (wrap (''Fail to create replica for '' @ volumeName) e)
       | Inr sdata \<Rightarrow>
           tryE (Schedule (docker_sched d)
             \<lparr>it_Action = ScheduleActionCreateReplica,
              it_Instance = \<lparr>si_ID = replicaName, si_Type = InstanceTypeReplica, si_HostID = [],
                si_VolumeName = volumeName, si_Name = []\<rparr>, it_Data = sdata\<rparr> (Some (prepareCreateReplicaPolicy volume)))
             (wrap (''Fail to create replica for '' @ volumeName))
             (\<lambda>inst. ret (Some \<lparr>r_InstanceInfo = inst, r_Mode = [], r_BadTimestamp = []\<rparr>))))"

definition getScheduleInstanceFromInstance :: "InstanceInfo \<Rightarrow> gerr + ScheduleInstance" where
  "getScheduleInstanceFromInstance inst =
     (if i_ID inst = [] \<or> i_HostID inst = [] \<or> i_Type inst = InstanceTypeNone \<or> i_VolumeName inst = [] \<or> i_Name inst = []
      then Inl (Errorf ''Invalid instance info for schedule'')
      else Inr \<lparr>si_ID = i_ID inst, si_Type = i_Type inst, si_HostID = i_HostID inst, si_VolumeName = i_VolumeName inst,
        si_Name = i_Name inst\<rparr>)"

definition StartInstance :: "'w dockerOrc \<Rightarrow> InstanceInfo \<Rightarrow> ('w, InstanceInfo) op" where
  "StartInstance d inst = (case getScheduleInstanceFromInstance inst of
      Inl e \<Rightarrow> fail (wrap ''fail to start instance'' e)
    | Inr si \<Rightarrow> tryE (Schedule (docker_sched d) \<lparr>it_Action = ScheduleActionStartInstance, it_Instance = si,
          it_Data = \<lparr>sd_Orchestrator = OrcName, sd_Data = None\<rparr>\<rparr> None)
        (wrap (''Fail to start instance '' @ i_ID inst)) ret)"

definition StopInstance :: "'w dockerOrc \<Rightarrow> InstanceInfo \<Rightarrow> ('w, InstanceInfo) op" where
  "StopInstance d inst = (case getScheduleInstanceFromInstance inst of
      Inl e \<Rightarrow> fail (wrap ''fail to stop instance'' e)
    | Inr si \<Rightarrow> tryE (Schedule (docker_sched d) \<lparr>it_Action = ScheduleActionStopInstance, it_Instance = si,
          it_Data = \<lparr>sd_Orchestrator = OrcName, sd_Data = None\<rparr>\<rparr> None)
        (wrap (''Fail to stop instance '' @ i_ID inst)) ret)"

definition RemoveInstance :: "'w dockerOrc \<Rightarrow> InstanceInfo \<Rightarrow> ('w, InstanceInfo) op" where
  "RemoveInstance d inst = (case getScheduleInstanceFromInstance inst of
      Inl e \<Rightarrow> fail (wrap ''fail to remove instance'' e)
    | Inr si \<Rightarrow> tryE (Schedule (docker_sched d) \<lparr>it_Action = ScheduleActionDeleteInstance, it_Instance = si,
          it_Data = \<lparr>sd_Orchestrator = OrcName, sd_Data = None\<rparr>\<rparr> None)
        (wrap (''Fail to remove instance '' @ i_ID inst)) ret)"

end
