(* ===== verification/DockerStore.thy ===== *)
theory DockerStore
  imports Docker Store
begin

text \<open>
  The docker orchestrator against the abstract store.  The locale \<open>docker_host\<close> joins the
  backend's laws with what the orchestrator relies on in the docker engine: its calls return
  (no panic), leave the store alone, and report a container under a name that is a legal key
  component and on the configured network.  The lemmas say which record a scheduled action
  writes, that it never takes over the record of another instance, and that a failed action
  leaves the records as they were when the store is available.
\<close>

section \<open>Specifications\<close>

definition calm :: "('w \<Rightarrow> tree) \<Rightarrow> ('w \<Rightarrow> bool) \<Rightarrow> ('w \<Rightarrow> bool) \<Rightarrow> 'w \<Rightarrow> 'w \<Rightarrow> bool" where
  "calm view binv up w w' \<longleftrightarrow> stays binv up w w' \<and> view w' = view w"

lemma calm_refl: "binv w \<Longrightarrow> calm view binv up w w"
  by (simp add: calm_def stays_def)

lemma calm_trans [trans]: "calm view binv up w w' \<Longrightarrow> calm view binv up w' w'' \<Longrightarrow> calm view binv up w w''"
  by (auto simp: calm_def stays_def)

lemma calm_binv: "calm view binv up w w' \<Longrightarrow> binv w'"
  by (simp add: calm_def stays_def)

text \<open>Operations that leave the store alone, and what they return.\<close>

definition quietly :: "('w \<Rightarrow> tree) \<Rightarrow> ('w \<Rightarrow> bool) \<Rightarrow> ('w \<Rightarrow> bool) \<Rightarrow> ('w, 'a) op \<Rightarrow> ('a \<Rightarrow> bool) \<Rightarrow> bool" where
  "quietly view binv up m Q \<longleftrightarrow>
     (\<forall>w. binv w \<longrightarrow> wp m (\<lambda>a w'. calm view binv up w w' \<and> Q a) (\<lambda>_. calm view binv up w) w)"

named_theorems quiet_intros "rules for operations that leave the store alone"

lemma quietlyD: "quietly view binv up m Q \<Longrightarrow> calm view binv up w0 w \<Longrightarrow>
    wp m (\<lambda>a w'. calm view binv up w0 w' \<and> Q a) (\<lambda>_. calm view binv up w0) w"
  unfolding quietly_def
  by (rule wp_mono [of m "\<lambda>a w'. calm view binv up w w' \<and> Q a" "\<lambda>_. calm view binv up w"])
    (auto dest: calm_binv calm_trans)

lemma quietly_weaken: "quietly view binv up m P \<Longrightarrow> (\<And>a. P a \<Longrightarrow> Q a) \<Longrightarrow> quietly view binv up m Q"
  by (auto simp: quietly_def elim!: wp_mono)

lemma quietly_both:
  "quietly view binv up m P \<Longrightarrow> quietly view binv up m Q \<Longrightarrow> quietly view binv up m (\<lambda>a. P a \<and> Q a)"
  by (auto simp: quietly_def wp_def split: res.splits prod.splits)

lemma quietly_ret [quiet_intros]: "Q a \<Longrightarrow> quietly view binv up (ret a) Q"
  by (simp add: quietly_def wp_simps calm_refl)

lemma quietly_fail [quiet_intros]: "quietly view binv up (fail e) Q"
  by (simp add: quietly_def wp_simps calm_refl)

lemma quietly_tryE:
  "quietly view binv up m P \<Longrightarrow> (\<And>a. P a \<Longrightarrow> quietly view binv up (k a) Q) \<Longrightarrow> quietly view binv up (tryE m h k) Q"
  unfolding quietly_def [of _ _ _ "tryE m h k"] wp_tryE
  by (intro allI impI wp_mono [OF quietlyD]) (auto intro: calm_refl quietlyD)

lemma quietly_attempt:
  "quietly view binv up m P \<Longrightarrow> (\<And>a. P a \<Longrightarrow> quietly view binv up (k (Inr a)) Q) \<Longrightarrow>
   (\<And>e. quietly view binv up (k (Inl e)) Q) \<Longrightarrow> quietly view binv up (attempt m k) Q"
  unfolding quietly_def [of _ _ _ "attempt m k"] wp_attempt
  by (intro allI impI wp_mono [OF quietlyD]) (auto intro: calm_refl quietlyD)

lemma quietly_st:
  "(\<And>w. binv w \<Longrightarrow> calm view binv up w (snd (f w))) \<Longrightarrow> (\<And>a. quietly view binv up (k a) Q) \<Longrightarrow>
   quietly view binv up (st f k) Q"
  unfolding quietly_def [of _ _ _ "st f k"] wp_st by (intro allI impI quietlyD) auto

lemma quietly_if [quiet_intros]:
  "(c \<Longrightarrow> quietly view binv up m Q) \<Longrightarrow> (\<not> c \<Longrightarrow> quietly view binv up n Q) \<Longrightarrow> quietly view binv up (if c then m else n) Q"
  by simp

definition other_instance :: "InstanceInfo \<Rightarrow> InstanceInfo \<Rightarrow> bool" where
  "other_instance i j \<longleftrightarrow> i_ID i \<noteq> i_ID j \<or> i_HostID i \<noteq> i_HostID j"

text \<open>The instance recorded under the name of an instance.\<close>

definition recorded :: "InstanceInfo \<Rightarrow> kv_abs \<Rightarrow> InstanceInfo option" where
  "recorded inst a =
     (if i_Type inst = InstanceTypeController then map_option c_InstanceInfo (a_ctrl a (i_VolumeName inst))
      else if i_Type inst = InstanceTypeReplica
      then map_option r_InstanceInfo (a_reps a (i_VolumeName inst) (i_Name inst)) else None)"

text \<open>Recording an instance keeps the mode and the bad time stamp of a replica.\<close>

definition record_instance :: "InstanceInfo \<Rightarrow> kv_abs \<Rightarrow> kv_abs" where
  "record_instance inst a =
     (if i_Type inst = InstanceTypeController
      then a\<lparr>a_ctrl := (a_ctrl a)(i_VolumeName inst \<mapsto> \<lparr>c_InstanceInfo = inst\<rparr>)\<rparr>
      else if i_Type inst = InstanceTypeReplica
      then a\<lparr>a_reps := (a_reps a)(i_VolumeName inst := (a_reps a (i_VolumeName inst))(i_Name inst \<mapsto>
        (case a_reps a (i_VolumeName inst) (i_Name inst) of
           None \<Rightarrow> \<lparr>r_InstanceInfo = inst, r_Mode = [], r_BadTimestamp = []\<rparr>
         | Some r \<Rightarrow> r\<lparr>r_InstanceInfo := inst\<rparr>)))\<rparr>
      else a)"

definition forget_instance :: "InstanceInfo \<Rightarrow> kv_abs \<Rightarrow> kv_abs" where
  "forget_instance inst a =
     (if i_Type inst = InstanceTypeController then a\<lparr>a_ctrl := (a_ctrl a)(i_VolumeName inst := None)\<rparr>
      else if i_Type inst = InstanceTypeReplica
      then a\<lparr>a_reps := (a_reps a)(i_VolumeName inst := (a_reps a (i_VolumeName inst))(i_Name inst := None))\<rparr>
      else a)"

text \<open>The record of an instance was written, or removed, and it was not that of another container.\<close>

definition recorded_once :: "bool \<Rightarrow> InstanceInfo \<Rightarrow> kv_abs \<Rightarrow> kv_abs \<Rightarrow> bool" where
  "recorded_once del i a a' \<longleftrightarrow> instance_complete i \<and> a' = (if del then forget_instance i a else record_instance i a) \<and>
     \<not> (\<exists>j. recorded i a = Some j \<and> other_instance j i)"

text \<open>An instance as \<open>refreshInstanceInfo\<close> reports it.\<close>

definition fresh :: "'w dockerOrc \<Rightarrow> (string \<Rightarrow> bool) \<Rightarrow> string \<Rightarrow> string \<Rightarrow> InstanceInfo \<Rightarrow> bool" where
  "fresh d ok vol ty i \<longleftrightarrow> i_VolumeName i = vol \<and> i_Type i = ty \<and> i_HostID i = GetCurrentHostID d \<and>
     ok (i_Name i) \<and> (i_Running i \<longrightarrow> i_Address i \<noteq> [])"

text \<open>A scheduled item that names its volume and its instance by legal key components.\<close>

definition item_ok :: "(string \<Rightarrow> bool) \<Rightarrow> ScheduleItem \<Rightarrow> bool" where
  "item_ok ok item \<longleftrightarrow> ok (si_VolumeName (it_Instance item)) \<and>
     (si_Name (it_Instance item) = [] \<or> ok (si_Name (it_Instance item))) \<and>
     (\<forall>sdata. ProcessSchedule_data item = Some sdata \<longrightarrow>
        it_Action item \<in> {ScheduleActionCreateController, ScheduleActionCreateReplica} \<longrightarrow> ok (ds_VolumeName sdata))"

section \<open>The orchestrator's surroundings\<close>

locale docker_host = kv_backend b view binv up pre ok
  for b :: "'w Backend" and view binv up pre ok +
  fixes d :: "'w dockerOrc"
  assumes kv: "do_kv d = \<lparr>kv_Prefix = path pre, kv_b = b\<rparr>"
    and create: "quietly view binv up (cli_ContainerCreate (do_cli d) cfg n) (\<lambda>_. True)"
    and inspect: "quietly view binv up (cli_ContainerInspect (do_cli d) i) (\<lambda>j. ok (TrimPrefix (cj_Name j) ''/'') \<and>
         (do_Network d = [] \<or> map_of (cj_Networks j) (do_Network d) \<noteq> None))"
    and start: "quietly view binv up (cli_ContainerStart (do_cli d) i) (\<lambda>_. True)"
    and stop: "quietly view binv up (cli_ContainerStop (do_cli d) i t) (\<lambda>_. True)"
    and remove: "quietly view binv up (cli_ContainerRemove (do_cli d) i v) (\<lambda>_. True)"
    and stat: "quietly view binv up (env_Stat (do_env d) f) (\<lambda>_. True)"
    and http_get: "quietly view binv up (env_HttpGet (do_env d) u) (\<lambda>_. True)"
    and now: "binv w \<Longrightarrow> calm view binv up w (snd (env_Now (do_env d) w))"
    and sleep: "binv w \<Longrightarrow> calm view binv up w (env_Sleep (do_env d) t w)"
begin

abbreviation still where "still \<equiv> calm view binv up"
abbreviation quiet where "quiet \<equiv> quietly view binv up"

lemma s_kv [simp]: "do_kv d = s"
  by (rule kv)

lemma still_wfs: "still w w' \<Longrightarrow> wfs w \<Longrightarrow> wfs w' \<and> abst w' = abst w"
  by (simp add: calm_def stays_def)

lemma WaitForAPI_quiet: "quiet (WaitForAPI (do_env d) u n) (\<lambda>_. True)"
  by (induction n) (auto intro!: quiet_intros quietly_attempt [OF http_get] quietly_st sleep)

lemma WaitForDevice_quiet: "quiet (WaitForDevice (do_env d) f n) (\<lambda>_. True)"
  by (induction n) (auto intro!: quiet_intros quietly_attempt [OF stat] quietly_st sleep)

lemma refreshInstanceInfo_quiet: "quiet (refreshInstanceInfo d inst) (fresh d ok (i_VolumeName inst) (i_Type inst))"
  unfolding refreshInstanceInfo_def Let_def
  by (rule quietly_tryE [OF inspect]) (auto simp: fresh_def intro!: quiet_intros)

lemma startInstance_quiet: "quiet (startInstance d inst) (fresh d ok (i_VolumeName inst) (i_Type inst))"
  unfolding startInstance_def startContainer_def
  by (rule quietly_tryE [OF start refreshInstanceInfo_quiet])

lemma stopInstance_quiet: "quiet (stopInstance d inst) (fresh d ok (i_VolumeName inst) (i_Type inst))"
  unfolding stopInstance_def by (rule quietly_tryE [OF stop refreshInstanceInfo_quiet])

lemma removeInstance_quiet: "quiet (removeInstance d inst) (\<lambda>i. i = inst)"
  unfolding removeInstance_def removeContainer_def by (rule quietly_tryE [OF remove]) (simp add: quiet_intros)

lemma createController_quiet: "quiet (createController d sdata) (fresh d ok (ds_VolumeName sdata) InstanceTypeController)"
  unfolding createController_def Let_def
  by (rule quietly_tryE [OF create], rule quietly_tryE [OF startInstance_quiet])
    (auto intro!: quietly_attempt [OF WaitForAPI_quiet] quietly_attempt [OF WaitForDevice_quiet]
      quietly_attempt [OF removeInstance_quiet] quiet_intros)

lemma createReplica_quiet: "quiet (createReplica d sdata) (fresh d ok (ds_VolumeName sdata) InstanceTypeReplica)"
  unfolding createReplica_def Let_def
  by (rule quietly_tryE [OF create], rule quietly_attempt [OF refreshInstanceInfo_quiet])
    (auto intro!: quietly_attempt [OF removeInstance_quiet] quiet_intros)

subsection \<open>Instance records\<close>

text \<open>A record is written only where there is none or where it is the instance's own; the store
  changes only then, or when it is not available.\<close>

lemma updateInstanceMetadata_wp:
  assumes "wfs w" and "ok (i_VolumeName inst)" and "ok (i_Name inst)"
  shows "wp (updateInstanceMetadata d inst)
    (\<lambda>_ w'. stays binv up w w' \<and> kv_wf pre (view w') \<and> abst w' = record_instance inst (abst w) \<and>
       instance_complete inst \<and> \<not> (\<exists>i. recorded inst (abst w) = Some i \<and> other_instance i inst))
    (\<lambda>_ w'. wfs w' \<and> (\<not> up w \<or> view w' = view w \<and> up w' \<and>
       (\<not> instance_complete inst \<or> (\<exists>i. recorded inst (abst w) = Some i \<and> other_instance i inst))) \<and>
       (abst w' = abst w \<or> instance_complete inst \<and> \<not> (\<exists>i. recorded inst (abst w) = Some i \<and> other_instance i inst) \<and>
          abst w' = record_instance inst (abst w))) w"
proof -
  have c: "wp (SetVolumeController s \<lparr>c_InstanceInfo = inst\<rparr>)
      (\<lambda>_ w'. stays binv up w w' \<and> kv_wf pre (view w') \<and>
         abst w' = (abst w1)\<lparr>a_ctrl := (a_ctrl (abst w1))(i_VolumeName inst \<mapsto> \<lparr>c_InstanceInfo = inst\<rparr>)\<rparr>)
      (\<lambda>_ w'. wfs w' \<and> \<not> up w \<and> (abst w' = abst w1 \<or>
         abst w' = (abst w1)\<lparr>a_ctrl := (a_ctrl (abst w1))(i_VolumeName inst \<mapsto> \<lparr>c_InstanceInfo = inst\<rparr>)\<rparr>)) w1"
      if "stays binv up w w1" "view w1 = view w" for w1
    by (rule wp_mono [OF SetVolumeController_either]) (use that assms in \<open>auto simp: stays_def\<close>)
  have r: "wp (SetVolumeReplica s x)
      (\<lambda>_ w'. stays binv up w w' \<and> kv_wf pre (view w') \<and> abst w' = (abst w1)\<lparr>a_reps := (a_reps (abst w1))(i_VolumeName inst :=
         (a_reps (abst w1) (i_VolumeName inst))(i_Name inst \<mapsto> x))\<rparr>)
      (\<lambda>_ w'. wfs w' \<and> \<not> up w \<and> (abst w' = abst w1 \<or> abst w' = (abst w1)\<lparr>a_reps := (a_reps (abst w1))(i_VolumeName inst :=
         (a_reps (abst w1) (i_VolumeName inst))(i_Name inst \<mapsto> x))\<rparr>)) w1"
      if "stays binv up w w1" "view w1 = view w" "r_InstanceInfo x = inst" for w1 x
    by (rule wp_mono [OF SetVolumeReplica_either]) (use that assms in \<open>auto simp: stays_def\<close>)
  show ?thesis
  proof (cases "instance_complete inst")
    case False
    then show ?thesis using assms by (simp add: updateInstanceMetadata_def wp_simps)
  next
    case complete: True
    consider (ctrl) "i_Type inst = InstanceTypeController" | (rep) "i_Type inst = InstanceTypeReplica"
      | (other) "i_Type inst \<noteq> InstanceTypeController" "i_Type inst \<noteq> InstanceTypeReplica" by blast
    then show ?thesis
    proof cases
      case ctrl
      show ?thesis
        using complete ctrl unfolding updateInstanceMetadata_def
        by (simp add: wp_simps, intro wp_mono [OF GetVolumeController_wp [OF assms(1,2)]])
          (use assms in \<open>auto simp: wp_simps recorded_def other_instance_def record_instance_def stays_def split: option.splits
            intro!: wp_mono [OF c [unfolded stays_def]]\<close>)
    next
      case rep
      show ?thesis
        using complete rep unfolding updateInstanceMetadata_def
        by (simp add: wp_simps, intro wp_mono [OF GetVolumeReplica_wp [OF assms]])
          (use assms in \<open>auto simp: wp_simps recorded_def other_instance_def record_instance_def stays_def split: option.splits
            intro!: wp_mono [OF r [unfolded stays_def]]\<close>)
    next
      case other
      then show ?thesis
        using complete assms by (simp add: updateInstanceMetadata_def wp_simps recorded_def record_instance_def stays_refl)
    qed
  qed
qed

lemma a_reps_volume: "wfs w \<Longrightarrow> a_reps (abst w) v r = Some x \<Longrightarrow> i_VolumeName (r_InstanceInfo x) = v"
  using kv_wfD(5) [of pre "view w" v r] by (cases "view w (rep_key pre v r)") (auto simp: abs_of_def)

lemma removeInstanceMetadata_wp:
  assumes "wfs w" and "ok (i_VolumeName inst)" and "instance_complete inst \<Longrightarrow> ok (i_Name inst)"
  shows "wp (removeInstanceMetadata d inst)
    (\<lambda>_ w'. stays binv up w w' \<and> kv_wf pre (view w') \<and> abst w' = forget_instance inst (abst w) \<and>
       instance_complete inst \<and> \<not> (\<exists>i. recorded inst (abst w) = Some i \<and> other_instance i inst))
    (\<lambda>_ w'. wfs w' \<and> (\<not> up w \<or> view w' = view w \<and> up w') \<and>
       (abst w' = abst w \<or> instance_complete inst \<and> \<not> (\<exists>i. recorded inst (abst w) = Some i \<and> other_instance i inst) \<and>
          abst w' = forget_instance inst (abst w))) w"
proof (cases "instance_complete inst")
  case False
  then show ?thesis using assms by (simp add: removeInstanceMetadata_def wp_simps)
next
  case complete: True
  have nm: "ok (i_Name inst)" using assms complete by blast
  have c: "wp (DeleteVolumeController s (i_VolumeName inst))
      (\<lambda>_ w'. stays binv up w w' \<and> kv_wf pre (view w') \<and>
         abst w' = (abst w1)\<lparr>a_ctrl := (a_ctrl (abst w1))(i_VolumeName inst := None)\<rparr>)
      (\<lambda>_ w'. wfs w' \<and> \<not> up w \<and> (abst w' = abst w1 \<or>
         abst w' = (abst w1)\<lparr>a_ctrl := (a_ctrl (abst w1))(i_VolumeName inst := None)\<rparr>)) w1"
      if "stays binv up w w1" "view w1 = view w" for w1
    by (rule wp_mono [OF DeleteVolumeController_either]) (use that assms in \<open>auto simp: stays_def\<close>)
  have r: "wp (DeleteVolumeReplica s (i_VolumeName inst) (i_Name inst))
      (\<lambda>_ w'. stays binv up w w' \<and> kv_wf pre (view w') \<and> abst w' = (abst w1)\<lparr>a_reps := (a_reps (abst w1))(i_VolumeName inst :=
         (a_reps (abst w1) (i_VolumeName inst))(i_Name inst := None))\<rparr>)
      (\<lambda>_ w'. wfs w' \<and> \<not> up w \<and> (abst w' = abst w1 \<or> abst w' = (abst w1)\<lparr>a_reps := (a_reps (abst w1))(i_VolumeName inst :=
         (a_reps (abst w1) (i_VolumeName inst))(i_Name inst := None))\<rparr>)) w1" if "stays binv up w w1" "view w1 = view w" for w1
    by (rule wp_mono [OF DeleteVolumeReplica_either]) (use that assms nm in \<open>auto simp: stays_def\<close>)
  consider (ctrl) "i_Type inst = InstanceTypeController" | (rep) "i_Type inst = InstanceTypeReplica"
    | (other) "i_Type inst \<noteq> InstanceTypeController" "i_Type inst \<noteq> InstanceTypeReplica" by blast
  then show ?thesis
  proof cases
    case ctrl
    show ?thesis
      using complete ctrl unfolding removeInstanceMetadata_def
      by (simp add: wp_simps, intro wp_mono [OF GetVolumeController_wp [OF assms(1,2)]])
        (use assms in \<open>auto simp: wp_simps recorded_def other_instance_def forget_instance_def stays_def split: option.splits
          intro!: wp_mono [OF c [unfolded stays_def]]\<close>)
  next
    case rep
    show ?thesis
      using complete rep unfolding removeInstanceMetadata_def
      by (simp add: wp_simps, intro wp_mono [OF GetVolumeReplica_wp [OF assms(1,2) nm]])
        (use assms in \<open>auto simp: wp_simps recorded_def other_instance_def forget_instance_def stays_def
          a_reps_name a_reps_volume split: option.splits intro!: wp_mono [OF r [unfolded stays_def]]\<close>)
  next
    case other
    then show ?thesis
      using complete assms by (simp add: removeInstanceMetadata_def wp_simps recorded_def forget_instance_def stays_refl)
  qed
qed

subsection \<open>Scheduled actions\<close>

lemma ProcessSchedule_action_quiet:
  assumes "item_ok ok item" and "ProcessSchedule_data item = Some sdata"
    and "ProcessSchedule_action d item sdata input = Some action"
    and "i_VolumeName input = si_VolumeName (it_Instance item)" and "i_Name input = si_Name (it_Instance item)"
  shows "quiet action (\<lambda>i. ok (i_VolumeName i) \<and> (if it_Action item = ScheduleActionDeleteInstance
    then i_Name i = [] \<or> ok (i_Name i) else ok (i_Name i)))"
proof -
  have "\<And>vol ty i. fresh d ok vol ty i \<Longrightarrow> i_VolumeName i = vol \<and> ok (i_Name i)" by (simp add: fresh_def)
  then show ?thesis
    using assms unfolding ProcessSchedule_action_def item_ok_def
    by (auto split: if_splits intro!: quietly_weaken [OF createController_quiet] quietly_weaken [OF createReplica_quiet]
        quietly_weaken [OF startInstance_quiet] quietly_weaken [OF stopInstance_quiet] quietly_weaken [OF removeInstance_quiet])
qed

text \<open>After the action: the record is written or removed; when that fails the container is
  removed again where the action had created it.\<close>

lemma ProcessSchedule_record_wp:
  assumes "wfs w" and "ok (i_VolumeName inst)"
    and "if del then i_Name inst = [] \<or> ok (i_Name inst) else ok (i_Name inst)"
  shows "wp (attempt (if del then removeInstanceMetadata d inst else updateInstanceMetadata d inst) (\<lambda>r. case r of
      Inr _ \<Rightarrow> ret (Some inst)
    | Inl e \<Rightarrow> if created then attempt (removeInstance d inst) (\<lambda>_. fail (h e)) else fail (h e)))
    (\<lambda>r w'. stays binv up w w' \<and> kv_wf pre (view w') \<and> r = Some inst \<and> recorded_once del inst (abst w) (abst w'))
    (\<lambda>_ w'. wfs w' \<and> (\<not> up w \<or> view w' = view w \<and> up w') \<and> (abst w' = abst w \<or> recorded_once del inst (abst w) (abst w'))) w"
proof -
  have clean: "wp (if created then attempt (removeInstance d inst) (\<lambda>_. fail (h e)) else fail (h e)) Q
      (\<lambda>_ w'. wfs w' \<and> (\<not> up w \<or> view w' = view w \<and> up w') \<and> (abst w' = abst w \<or> recorded_once del inst (abst w) (abst w'))) w1"
    if "wfs w1" "\<not> up w \<or> view w1 = view w \<and> up w1" "abst w1 = abst w \<or> recorded_once del inst (abst w) (abst w1)" for e w1 Q
  proof -
    have "wp (removeInstance d inst) (\<lambda>_. still w1) (\<lambda>_. still w1) w1"
      by (rule wp_mono [OF quietlyD [OF removeInstance_quiet calm_refl]]) (use that in auto)
    then show ?thesis
      using that by (auto simp: wp_simps calm_def stays_def elim!: wp_mono)
  qed
  show ?thesis
  proof (cases del)
    case True
    show ?thesis
      unfolding wp_attempt sum.case wp_ret if_P [OF True]
      by (rule wp_mono [OF removeInstanceMetadata_wp [OF assms(1,2)]])
        (use assms(3) True in \<open>force simp: instance_complete_def\<close>, simp add: True recorded_once_def, rule clean,
         auto simp: True recorded_once_def)
  next
    case False
    show ?thesis
      unfolding wp_attempt sum.case wp_ret if_not_P [OF False]
      by (rule wp_mono [OF updateInstanceMetadata_wp [OF assms(1,2)]])
        (use assms(3) False in force, simp add: False recorded_once_def, rule clean, auto simp: False recorded_once_def)
  qed
qed

text \<open>The action on the container may promise more of the instance (\<open>P\<close>).\<close>

lemma ProcessSchedule_either:
  assumes w: "wfs w"
    and q: "\<And>sdata action. \<lbrakk>ProcessSchedule_data item = Some sdata;
      ProcessSchedule_action d item sdata \<lparr>i_ID = si_ID (it_Instance item), i_Type = si_Type (it_Instance item),
        i_Name = si_Name (it_Instance item), i_HostID = si_HostID (it_Instance item), i_Address = [],
        i_Running = False, i_VolumeName = si_VolumeName (it_Instance item)\<rparr> = Some action\<rbrakk> \<Longrightarrow>
      wp action (\<lambda>i w'. still w w' \<and> P i) (\<lambda>_. still w) w"
    and P: "\<And>i. P i \<Longrightarrow> ok (i_VolumeName i) \<and> (if it_Action item = ScheduleActionDeleteInstance
        then i_Name i = [] \<or> ok (i_Name i) else ok (i_Name i))"
  shows "wp (ProcessSchedule d item)
    (\<lambda>r w'. stays binv up w w' \<and> kv_wf pre (view w') \<and> (\<exists>i. r = Some i \<and> P i \<and>
       recorded_once (it_Action item = ScheduleActionDeleteInstance) i (abst w) (abst w')))
    (\<lambda>_ w'. wfs w' \<and> (\<not> up w \<or> view w' = view w \<and> up w') \<and> (abst w' = abst w \<or>
       (\<exists>i. P i \<and> recorded_once (it_Action item = ScheduleActionDeleteInstance) i (abst w) (abst w')))) w"
proof (cases "ProcessSchedule_data item")
  case None
  then show ?thesis using w by (simp add: ProcessSchedule_def wp_simps)
next
  case (Some sdata)
  let ?input = "\<lparr>i_ID = si_ID (it_Instance item), i_Type = si_Type (it_Instance item),
      i_Name = si_Name (it_Instance item), i_HostID = si_HostID (it_Instance item), i_Address = [],
      i_Running = False, i_VolumeName = si_VolumeName (it_Instance item)\<rparr>"
  show ?thesis
  proof (cases "ProcessSchedule_action d item sdata ?input")
    case None
    then show ?thesis using w Some by (simp add: ProcessSchedule_def Let_def wp_simps)
  next
    case action: (Some action)
    have "wp (tryE action (wrap ''failed to process schedule'') (\<lambda>inst.
        attempt (if it_Action item = ScheduleActionDeleteInstance then removeInstanceMetadata d inst
                 else updateInstanceMetadata d inst) (\<lambda>r. case r of
          Inr _ \<Rightarrow> ret (Some inst)
        | Inl e \<Rightarrow> if it_Action item = ScheduleActionCreateController \<or> it_Action item = ScheduleActionCreateReplica
            then attempt (removeInstance d inst) (\<lambda>_. fail (wrap ''failed to update instance metadata'' e))
            else fail (wrap ''failed to update instance metadata'' e))))
      (\<lambda>r w'. stays binv up w w' \<and> kv_wf pre (view w') \<and> (\<exists>i. r = Some i \<and> P i \<and>
         recorded_once (it_Action item = ScheduleActionDeleteInstance) i (abst w) (abst w')))
      (\<lambda>_ w'. wfs w' \<and> (\<not> up w \<or> view w' = view w \<and> up w') \<and> (abst w' = abst w \<or>
         (\<exists>i. P i \<and> recorded_once (it_Action item = ScheduleActionDeleteInstance) i (abst w) (abst w')))) w"
    proof (rule wp_step [OF q [OF Some action]], goal_cases)
      case (1 inst w1)
      then have w1: "wfs w1" "view w1 = view w" "up w \<longrightarrow> up w1" "P inst" using w by (auto simp: calm_def stays_def)
      show ?case
        by (rule wp_mono [OF ProcessSchedule_record_wp [OF w1(1)]]) (use P [OF w1(4)] w1 in \<open>auto simp: stays_def\<close>)
    qed (use w in \<open>auto simp: calm_def stays_def\<close>)
    then show ?thesis
      using w Some action by (simp add: ProcessSchedule_def Let_def wp_fail)
  qed
qed

lemma ProcessSchedule_wp:
  assumes w: "wfs w" and item: "item_ok ok item"
  shows "wp (ProcessSchedule d item)
    (\<lambda>r w'. stays binv up w w' \<and> kv_wf pre (view w') \<and> (\<exists>i. r = Some i \<and> instance_complete i \<and>
       abst w' = (if it_Action item = ScheduleActionDeleteInstance then forget_instance i (abst w)
                  else record_instance i (abst w)) \<and>
       \<not> (\<exists>j. recorded i (abst w) = Some j \<and> other_instance j i)))
    (\<lambda>_ w'. wfs w' \<and> (\<not> up w \<or> view w' = view w \<and> up w')) w"
  by (rule wp_mono [OF ProcessSchedule_either [OF w, OF quietlyD [OF ProcessSchedule_action_quiet [OF item] calm_refl]]])
    (use w in \<open>auto simp: recorded_once_def\<close>)

subsection \<open>Volumes\<close>

lemma SetVolumeBase_after:
  assumes "binv w1" and "view w1 = view w" and "wfs w" and "ok (v_Name v)" and "volume_ints_ok v"
  shows "wp (SetVolumeBase s v)
    (\<lambda>_ w'. binv w' \<and> (up w1 \<longrightarrow> up w') \<and> kv_wf pre (view w') \<and>
       abst w' = (abst w)\<lparr>a_base := (a_base (abst w))(v_Name v \<mapsto> v\<lparr>v_Controller := None, v_Replicas := None\<rparr>)\<rparr>)
    (\<lambda>_ w'. wfs w' \<and> \<not> up w1) w1"
  by (rule wp_mono [OF SetVolumeBase_wp]) (use assms in \<open>auto simp: stays_def\<close>)

lemma CreateVolume_wp:
  assumes "wfs w" and "ok (v_Name v)" and "volume_ints_ok v"
  shows "wp (docker_CreateVolume d v)
    (\<lambda>r w'. r = v \<and> stays binv up w w' \<and> kv_wf pre (view w') \<and> (up w \<longrightarrow> a_base (abst w) (v_Name v) = None) \<and>
       abst w' = (abst w)\<lparr>a_base := (a_base (abst w))(v_Name v \<mapsto> v\<lparr>v_Controller := None, v_Replicas := None\<rparr>)\<rparr>)
    (\<lambda>_ w'. wfs w' \<and> (\<not> up w \<or> view w' = view w \<and> a_base (abst w) (v_Name v) \<noteq> None)) w"
  unfolding docker_CreateVolume_def wp_attempt sum.case s_kv
  by (rule wp_mono [OF GetVolumeBase_wp [OF assms(1,2)]])
      (use assms in \<open>auto simp: wp_simps stays_def split: option.splits intro!: wp_mono [OF SetVolumeBase_after [OF _ _ assms]]\<close>)

lemma UpdateVolume_wp:
  assumes "wfs w" and "ok (v_Name v)" and "volume_ints_ok v"
  shows "wp (UpdateVolume d v)
    (\<lambda>_ w'. stays binv up w w' \<and> kv_wf pre (view w') \<and>
       abst w' = (abst w)\<lparr>a_base := (a_base (abst w))(v_Name v \<mapsto> v\<lparr>v_Controller := None, v_Replicas := None\<rparr>)\<rparr>)
    (\<lambda>_ w'. wfs w' \<and> \<not> up w) w"
  unfolding UpdateVolume_def wp_tryE s_kv
  by (rule wp_mono [OF GetVolumeBase_wp [OF assms(1,2)]])
      (use assms in \<open>auto simp: stays_def intro!: wp_mono [OF SetVolumeBase_after [OF _ _ assms]]\<close>)

text \<open>Marking a replica bad writes the volume's base document, which holds no replicas.\<close>

lemma a_base_ints: "wfs w \<Longrightarrow> a_base (abst w) v = Some x \<Longrightarrow> volume_ints_ok x"
  by (auto simp: abs_of_def bind_eq_Some_conv dest: dec_VolumeInfo_ints)

lemma MarkBadReplica_wp:
  assumes w: "wfs w" and v: "ok v" and there: "a_base (abst w) v \<noteq> None"
  shows "wp (MarkBadReplica d v replica)
    (\<lambda>_ w'. stays binv up w w' \<and> kv_wf pre (view w') \<and> abst w' = abst w) (\<lambda>_ w'. wfs w' \<and> \<not> up w) w"
proof -
  obtain x where x: "a_base (abst w) v = Some x" using there by auto
  have xn: "v_Name x = v" "volume_ints_ok x" "v_Controller x = None" "v_Replicas x = None"
    using a_base_ints [OF w x] kv_wfD(3) [of pre "view w" v] w x by (auto simp: abs_of_def bind_eq_Some_conv)
  have upd: "wp (UpdateVolume d vol)
      (\<lambda>_ w'. stays binv up w w' \<and> kv_wf pre (view w') \<and> abst w' = abst w) (\<lambda>_ w'. wfs w' \<and> \<not> up w) w1"
    if "still w w1" "vol\<lparr>v_Controller := None, v_Replicas := None\<rparr> = x" for vol w1
  proof -
    have n: "v_Name vol = v" "volume_ints_ok vol"
      using that(2) xn by (auto simp: volume_ints_ok_def)
    have w1: "wfs w1" "abst w1 = abst w" using still_wfs [OF that(1) w] by auto
    have "(abst w)\<lparr>a_base := (a_base (abst w))(v \<mapsto> x)\<rparr> = abst w" using x by (simp add: map_upd_triv)
    then show ?thesis
      using w1 n that(2) v
      by (intro wp_mono [OF UpdateVolume_wp]) (use that(1) in \<open>auto simp: calm_def stays_def\<close>)
  qed
  have "wp (GetVolume s v) (\<lambda>r w'. still w w' \<and> (\<exists>vol. r = Some vol \<and> vol\<lparr>v_Controller := None, v_Replicas := None\<rparr> = x))
      (\<lambda>_ w'. wfs w' \<and> \<not> up w) w"
    by (rule wp_mono [OF GetVolume_wp [OF w v]])
      (use x w in \<open>auto simp: vol_matches_def calm_def split: option.splits\<close>)
  then show ?thesis
    unfolding MarkBadReplica_def wp_tryE s_kv
  proof (rule wp_mono, elim conjE exE)
    fix r w1 vol
    assume *: "still w w1" "r = Some vol" "vol\<lparr>v_Controller := None, v_Replicas := None\<rparr> = x"
    have "still w (snd (Now (do_env d) w1))"
      using *(1) now [OF calm_binv [OF *(1)]] calm_trans by (fastforce simp: Now_def split: prod.split)
    then show "wp (case r of None \<Rightarrow> panic ''nil pointer dereference''
        | Some va \<Rightarrow> let name = i_Name (r_InstanceInfo replica);
              update = \<lambda>va. tryE (UpdateVolume d va) (wrap ''fail to mark bad replica, cannot update volume'') ret
            in if has_replica name (replicas_of va)
               then st (Now (do_env d)) (\<lambda>now. update (va\<lparr>v_Replicas := map_option (mark_first name now) (v_Replicas va)\<rparr>))
               else update va)
      (\<lambda>_ w'. stays binv up w w' \<and> kv_wf pre (view w') \<and> abst w' = abst w) (\<lambda>_ w'. wfs w' \<and> \<not> up w) w1"
      using *(2,3) upd [OF *(1)] upd by (simp add: Let_def wp_if wp_st wp_tryE_ret)
  qed auto
qed

end

section \<open>A reference host\<close>

text \<open>A docker engine and a clock beside the reference etcd, in one world.\<close>

record dock_ref = etcd_ref +
  dr_containers :: "(string \<times> ContainerJSON) list"
  dr_clock :: int

text \<open>The lengths of the strings in a document, and an ID longer than any that is recorded or in use.\<close>

definition doc_len :: "json \<Rightarrow> nat" where
  "doc_len j = (case j of JObj ms \<Rightarrow> sum_list (map (\<lambda>(k, x). case x of JStr s \<Rightarrow> length s | _ \<Rightarrow> 0) ms) | _ \<Rightarrow> 0)"

definition dr_fresh :: "'a dock_ref_scheme \<Rightarrow> string" where
  "dr_fresh w = replicate (Suc (sum_list (map (\<lambda>(k, n). case n of File j \<Rightarrow> doc_len j | Dir \<Rightarrow> 0) (er_nodes w)) +
     sum_list (map (\<lambda>(i, c). length i) (dr_containers w)))) (CHR ''c'')"

definition dr_create :: "ContainerConfig \<Rightarrow> string \<Rightarrow> ('a dock_ref_scheme, string) op" where
  "dr_create cfg n w =
     (if list_ex (\<lambda>(_, c). cj_Name c = ''/'' @ n) (dr_containers w) then (Err (Ext ''name in use''), w)
      else (let i = dr_fresh w in
        (Ok i, w\<lparr>dr_containers := (i, \<lparr>cj_ID = i, cj_Name = ''/'' @ n, cj_Running = False,
           cj_IPAddress = [], cj_Networks = [(''net'', [])]\<rparr>) # dr_containers w\<rparr>)))"

definition dr_inspect :: "string \<Rightarrow> ('a dock_ref_scheme, ContainerJSON) op" where
  "dr_inspect i w = (case map_of (dr_containers w) i of
      None \<Rightarrow> (Err (Ext ''no such container''), w)
    | Some c \<Rightarrow> if cj_ID c = i \<and> etcd_name (TrimPrefix (cj_Name c) ''/'') \<and> map_of (cj_Networks c) ''net'' \<noteq> None then (Ok c, w)
        else (Err (Ext ''invalid''), w))"

definition dr_set :: "(ContainerJSON \<Rightarrow> ContainerJSON) \<Rightarrow> string \<Rightarrow> ('a dock_ref_scheme, unit) op" where
  "dr_set f i w = (case map_of (dr_containers w) i of
      None \<Rightarrow> (Err (Ext ''no such container''), w)
    | Some c \<Rightarrow> (Ok (), w\<lparr>dr_containers := AList.update i (f c) (dr_containers w)\<rparr>))"

definition dr_remove :: "string \<Rightarrow> ('a dock_ref_scheme, unit) op" where
  "dr_remove i w = (case map_of (dr_containers w) i of
      None \<Rightarrow> (Err (Ext ''no such container''), w)
    | Some c \<Rightarrow> if cj_Running c then (Err (Ext ''container is running''), w)
        else (Ok (), w\<lparr>dr_containers := AList.delete i (dr_containers w)\<rparr>))"

definition dr_cli :: "'a dock_ref_scheme DockerClient" where
  "dr_cli = \<lparr>cli_ContainerList = ret (), cli_ContainerCreate = dr_create, cli_ContainerInspect = dr_inspect,
     cli_ContainerStart = dr_set (\<lambda>c. c\<lparr>cj_Running := True, cj_Networks := [(''net'', ''10.0.0.9'')]\<rparr>),
     cli_ContainerStop = (\<lambda>i _. dr_set (\<lambda>c. c\<lparr>cj_Running := False, cj_Networks := [(''net'', [])]\<rparr>) i),
     cli_ContainerRemove = (\<lambda>i _. dr_remove i)\<rparr>"

definition dr_env :: "'a dock_ref_scheme Env" where
  "dr_env = \<lparr>env_Now = (\<lambda>w. (dr_clock w, w)), env_Sleep = (\<lambda>t w. w\<lparr>dr_clock := dr_clock w + t\<rparr>),
     env_UUID = (\<lambda>w. (take 36 (replicate (length (dr_containers w)) (CHR ''1'') @ replicate 36 (CHR ''0'')), w)), env_Stat = (\<lambda>_. ret True), env_HttpGet = (\<lambda>_. ret ()),
     env_Exec = (\<lambda>_ _ _ w. (TimedOut, w)),
     env_Proc = (\<lambda>_ w. (\<lparr>pr_start = Some (Ext ''not found''), pr_stdout = [], pr_json = None, pr_stderr = [], pr_wait = None\<rparr>, w)),
     env_InterfaceAddrs = ret []\<rparr>"

definition dr_orc :: "'a dock_ref_scheme dockerOrc" where
  "dr_orc = \<lparr>do_EngineImage = ''engine'', do_Network = ''net'', do_IP = ''10.0.0.1'',
     do_currentHost = \<lparr>h_UUID = ''host1'', h_Name = ''one'', h_Address = ''10.0.0.1:9500''\<rparr>,
     do_kv = etcd_kv er_api [''longhorn''], do_cli = dr_cli, do_env = dr_env,
     do_http = \<lparr>hc_Do = (\<lambda>_ _ _. fail (Ext ''connection refused'')), hc_base64 = (\<lambda>_. [])\<rparr>\<rparr>"

abbreviation dr_view :: "'a dock_ref_scheme \<Rightarrow> tree" where
  "dr_view w \<equiv> etcd_view [''longhorn''] etcd_name (er_tree w)"
abbreviation dr_inv :: "'a dock_ref_scheme \<Rightarrow> bool" where
  "dr_inv w \<equiv> er_sane w \<and> etree_ok [''longhorn''] etcd_name (er_tree w)"

lemma dr_calm: "dr_inv w \<Longrightarrow> er_nodes w' = er_nodes w \<Longrightarrow> er_up w' = er_up w \<Longrightarrow> calm dr_view dr_inv er_up w w'"
  by (simp add: calm_def stays_def er_sane_def er_tree_def)

lemma dr_quiet:
  assumes "\<And>w. wp m (\<lambda>a w'. er_nodes w' = er_nodes w \<and> er_up w' = er_up w \<and> Q a)
    (\<lambda>_ w'. er_nodes w' = er_nodes w \<and> er_up w' = er_up w) w"
  shows "quietly dr_view dr_inv er_up m Q"
  unfolding quietly_def using dr_calm by (intro allI impI wp_mono [OF assms]) auto

interpretation dr: docker_host "etcd_backend er_api" dr_view dr_inv er_up "[''longhorn'']" etcd_name dr_orc
proof unfold_locales
  show "do_kv dr_orc = \<lparr>kv_Prefix = path [''longhorn''], kv_b = etcd_backend er_api\<rparr>"
    by (simp add: dr_orc_def etcd_kv_def)
  show "quietly dr_view dr_inv er_up (cli_ContainerCreate (do_cli dr_orc) cfg n) (\<lambda>_. True)" for cfg n
    by (rule dr_quiet) (simp add: dr_orc_def dr_cli_def dr_create_def wp_def Let_def)
  show "quietly dr_view dr_inv er_up (cli_ContainerInspect (do_cli dr_orc) i) (\<lambda>j. etcd_name (TrimPrefix (cj_Name j) ''/'') \<and>
         (do_Network dr_orc = [] \<or> map_of (cj_Networks j) (do_Network dr_orc) \<noteq> None))" for i
    by (rule dr_quiet) (simp add: dr_orc_def dr_cli_def dr_inspect_def wp_def split: option.split)
  show "quietly dr_view dr_inv er_up (cli_ContainerStart (do_cli dr_orc) i) (\<lambda>_. True)" for i
    by (rule dr_quiet) (simp add: dr_orc_def dr_cli_def dr_set_def wp_def split: option.split)
  show "quietly dr_view dr_inv er_up (cli_ContainerStop (do_cli dr_orc) i t) (\<lambda>_. True)" for i t
    by (rule dr_quiet) (simp add: dr_orc_def dr_cli_def dr_set_def wp_def split: option.split)
  show "quietly dr_view dr_inv er_up (cli_ContainerRemove (do_cli dr_orc) i v) (\<lambda>_. True)" for i v
    by (rule dr_quiet) (simp add: dr_orc_def dr_cli_def dr_remove_def wp_def split: option.split)
  show "quietly dr_view dr_inv er_up (env_Stat (do_env dr_orc) f) (\<lambda>_. True)" for f
    by (rule dr_quiet) (simp add: dr_orc_def dr_env_def wp_simps)
  show "quietly dr_view dr_inv er_up (env_HttpGet (do_env dr_orc) u) (\<lambda>_. True)" for u
    by (rule dr_quiet) (simp add: dr_orc_def dr_env_def wp_simps)
  show "calm dr_view dr_inv er_up w (snd (env_Now (do_env dr_orc) w))" if "dr_inv w" for w
    using that by (intro dr_calm) (simp_all add: dr_orc_def dr_env_def)
  show "calm dr_view dr_inv er_up w (env_Sleep (do_env dr_orc) t w)" if "dr_inv w" for w t
    using that by (intro dr_calm) (simp_all add: dr_orc_def dr_env_def)
qed

definition dr_empty :: dock_ref where
  "dr_empty = \<lparr>er_nodes = [], er_up = True, dr_containers = [], dr_clock = 0\<rparr>"

lemma dr_empty_wf: "dr_inv dr_empty" "kv_wf [''longhorn''] (dr_view dr_empty)" "er_up dr_empty"
  using ref_store.etcd_empty [of dr_empty] by (auto simp: etcd_wf_def dr_empty_def er_tree_def er_sane_def)

section \<open>Properties\<close>

text \<open>C6: a scheduled action (create, start, stop or delete an instance) carried out on this host
  touches exactly one record.  When it succeeds, the record of the instance it reports is
  written (a replica keeps its mode and its bad time stamp), or removed for a deletion, and the
  record was not that of another container; when it fails and the store is available, the
  store is unchanged; the store is well-formed in every case and nothing panics.\<close>

theorem ProcessSchedule_one_record:
  assumes "docker_host b view binv up pre ok d" and "binv w" and "kv_wf pre (view w)" and "item_ok ok item"
  shows "wp (ProcessSchedule d item)
    (\<lambda>r w'. stays binv up w w' \<and> kv_wf pre (view w') \<and> (\<exists>i. r = Some i \<and> instance_complete i \<and>
       abs_of pre (view w') = (if it_Action item = ScheduleActionDeleteInstance then forget_instance i (abs_of pre (view w))
                  else record_instance i (abs_of pre (view w))) \<and>
       \<not> (\<exists>j. recorded i (abs_of pre (view w)) = Some j \<and> other_instance j i)))
    (\<lambda>_ w'. (binv w' \<and> kv_wf pre (view w')) \<and> (\<not> up w \<or> view w' = view w \<and> up w')) w"
  using docker_host.ProcessSchedule_wp [OF assms(1) conjI [OF assms(2,3)] assms(4)] .

definition ex_create_replica :: ScheduleItem where
  "ex_create_replica = \<lparr>it_Action = ScheduleActionCreateReplica,
     it_Instance = \<lparr>si_ID = ''rep1'', si_Type = InstanceTypeReplica, si_HostID = [], si_VolumeName = ''vol1'', si_Name = []\<rparr>,
     it_Data = \<lparr>sd_Orchestrator = OrcName, sd_Data = Some (enc_dockerScheduleData
       \<lparr>ds_InstanceName = ''rep1'', ds_VolumeName = ''vol1'', ds_VolumeSize = ''8192'', ds_EngineImage = ''engine'',
        ds_ReplicaURLs = None\<rparr>)\<rparr>\<rparr>"

lemma dec_enc_dockerScheduleData: "dec_dockerScheduleData (enc_dockerScheduleData x) = Some x"
proof -
  have u: "get_ptr (dec_slice dec_string) ((k, enc_ptr (enc_slice JStr) (ds_ReplicaURLs x)) # ms) k = Some (ds_ReplicaURLs x)" for k ms
    by (rule get_ptr_enc) (auto intro!: dec_slice_enc simp: dec_string_def)
  show ?thesis by (simp add: dec_dockerScheduleData_def enc_dockerScheduleData_def json_simps u)
qed

lemma ex_create_replica_ok: "item_ok etcd_name ex_create_replica"
  by (simp add: item_ok_def ex_create_replica_def ProcessSchedule_data_def dec_enc_dockerScheduleData ex_names)

theorem ProcessSchedule_one_record_witness:
  "wp (ProcessSchedule dr_orc ex_create_replica)
    (\<lambda>r w'. stays dr_inv er_up dr_empty w' \<and> kv_wf [''longhorn''] (dr_view w') \<and> (\<exists>i. r = Some i \<and> instance_complete i \<and>
       abs_of [''longhorn''] (dr_view w') = (if it_Action ex_create_replica = ScheduleActionDeleteInstance
         then forget_instance i (abs_of [''longhorn''] (dr_view dr_empty)) else record_instance i (abs_of [''longhorn''] (dr_view dr_empty))) \<and>
       \<not> (\<exists>j. recorded i (abs_of [''longhorn''] (dr_view dr_empty)) = Some j \<and> other_instance j i)))
    (\<lambda>_ w'. (dr_inv w' \<and> kv_wf [''longhorn''] (dr_view w')) \<and>
       (\<not> er_up dr_empty \<or> dr_view w' = dr_view dr_empty \<and> er_up w')) dr_empty"
  using ProcessSchedule_one_record [OF dr.docker_host_axioms, OF dr_empty_wf(1,2) ex_create_replica_ok] .

text \<open>Creating a volume on an available store succeeds exactly when no volume of that name
  is stored, and then stores its base document and nothing else.\<close>

theorem CreateVolume_once:
  assumes "docker_host b view binv up pre ok d" and "binv w" and "kv_wf pre (view w)"
    and "ok (v_Name v)" and "volume_ints_ok v" and "up w"
  shows "if a_base (abs_of pre (view w)) (v_Name v) = None
    then \<exists>w'. docker_CreateVolume d v w = (Ok v, w') \<and> abs_of pre (view w') =
      (abs_of pre (view w))\<lparr>a_base := (a_base (abs_of pre (view w)))(v_Name v \<mapsto> v\<lparr>v_Controller := None, v_Replicas := None\<rparr>)\<rparr>
    else \<exists>e w'. docker_CreateVolume d v w = (Err e, w') \<and> view w' = view w"
proof -
  note * = docker_host.CreateVolume_wp [OF assms(1) conjI [OF assms(2,3)] assms(4,5)]
  obtain r w' where r: "docker_CreateVolume d v w = (r, w')" by fastforce
  show ?thesis using * r assms(6) by (cases r) (auto simp: wp_def)
qed

text \<open>C39: marking a replica of an existing volume bad never changes any record: the time stamp
  is set in the volume that was read, but only the volume's base document, which has no
  replicas, is written back.\<close>

theorem MarkBadReplica_no_effect:
  assumes "docker_host b view binv up pre ok d" and "binv w" and "kv_wf pre (view w)"
    and "ok v" and "a_base (abs_of pre (view w)) v \<noteq> None"
  shows "wp (MarkBadReplica d v replica)
    (\<lambda>_ w'. stays binv up w w' \<and> kv_wf pre (view w') \<and> abs_of pre (view w') = abs_of pre (view w))
    (\<lambda>_ w'. (binv w' \<and> kv_wf pre (view w')) \<and> \<not> up w) w"
  using docker_host.MarkBadReplica_wp [OF assms(1) conjI [OF assms(2,3)] assms(4,5)] .

lemma dr_volume_stored:
  obtains w :: dock_ref where "dr_inv w" "kv_wf [''longhorn''] (dr_view w)" "a_base (abs_of [''longhorn''] (dr_view w)) ''vol1'' \<noteq> None"
    "a_reps (abs_of [''longhorn''] (dr_view w)) ''vol1'' ''rep1'' \<noteq> None" "er_up w"
proof -
  have "wp (SetVolume (etcd_kv er_api [''longhorn'']) (ex_volume ''vol1''))
      (\<lambda>_ w'. stays dr_inv er_up dr_empty w' \<and> kv_wf [''longhorn''] (dr_view w') \<and>
         a_base (abs_of [''longhorn''] (dr_view w')) ''vol1'' \<noteq> None \<and>
         a_reps (abs_of [''longhorn''] (dr_view w')) ''vol1'' ''rep1'' \<noteq> None) (\<lambda>_ _. False) dr_empty"
    unfolding etcd_kv_def
    by (rule wp_mono [OF ref_store.etcd.SetVolume_wp])
      (use dr_empty_wf ex_volume_ok [of etcd_name "''vol1''"] ex_names in \<open>auto simp: ex_volume_def replicas_of_def\<close>)
  then show ?thesis using that dr_empty_wf(3) by (auto simp: stays_def elim!: wp_OkE)
qed

theorem MarkBadReplica_no_effect_witness:
  "\<exists>w :: dock_ref. a_reps (abs_of [''longhorn''] (dr_view w)) ''vol1'' ''rep1'' \<noteq> None \<and>
     wp (MarkBadReplica dr_orc ''vol1'' \<lparr>r_InstanceInfo = ex_instance ''vol1'' ''replica'' ''rep1'', r_Mode = [], r_BadTimestamp = []\<rparr>)
      (\<lambda>_ w'. stays dr_inv er_up w w' \<and> kv_wf [''longhorn''] (dr_view w') \<and>
         abs_of [''longhorn''] (dr_view w') = abs_of [''longhorn''] (dr_view w))
      (\<lambda>_ w'. (dr_inv w' \<and> kv_wf [''longhorn''] (dr_view w')) \<and> \<not> er_up w) w"
  by (rule dr_volume_stored) (blast intro: MarkBadReplica_no_effect [OF dr.docker_host_axioms, OF _ _ ex_names(1)])

end
