(* ===== verification/Queue.thy ===== *)
theory Queue
  imports Util
begin

text \<open>
  \<open>controller/queue.go\<close>: the background task queue, a goroutine that serves one request at a
  time.  A request to list or to take carries the channel for its answer (a number here);
  \<open>runQueue_step\<close> is one round of the loop with the answers it sends, \<open>runQueue_close\<close> what
  happens when the request channel is closed.  The task itself is opaque to the queue.
\<close>

record 'task BgTask =
  bt_Num :: int64
  bt_Err :: "gerr option"
  bt_Finished :: string
  bt_Started :: string
  bt_Submitted :: string
  bt_Task :: 'task

datatype 'task request = listReq nat | putReq "'task BgTask" | takeReq nat

datatype 'task answer = Listed nat "'task BgTask list" | Taken nat "'task BgTask option"

record 'task taskQueue =
  tq_queue :: "'task BgTask list"
  tq_takeReqs :: "nat list"
  tq_i :: int64

definition TaskQueue :: "'task taskQueue" where
  "TaskQueue = \<lparr>tq_queue = [], tq_takeReqs = [], tq_i = 0\<rparr>"

text \<open>\<open>now\<close> is the time stamp of a submission.\<close>

fun runQueue_step :: "string \<Rightarrow> 'task request \<Rightarrow> 'task taskQueue \<Rightarrow> 'task answer list \<times> 'task taskQueue" where
  "runQueue_step now (listReq r) tq = ([Listed r (tq_queue tq)], tq)"
| "runQueue_step now (putReq t) tq =
     (let i = tq_i tq + 1;
          t = t\<lparr>bt_Num := i, bt_Submitted := now\<rparr>;
          tq = tq\<lparr>tq_i := i\<rparr>
      in case tq_takeReqs tq of
           r # rs \<Rightarrow> ([Taken r (Some t)], tq\<lparr>tq_takeReqs := rs\<rparr>)
         | [] \<Rightarrow> ([], tq\<lparr>tq_queue := tq_queue tq @ [t]\<rparr>))"
| "runQueue_step now (takeReq r) tq = (case tq_queue tq of
      t # ts \<Rightarrow> ([Taken r (Some t)], tq\<lparr>tq_queue := ts\<rparr>)
    | [] \<Rightarrow> ([], tq\<lparr>tq_takeReqs := tq_takeReqs tq @ [r]\<rparr>))"

definition runQueue_close :: "'task taskQueue \<Rightarrow> 'task answer list" where
  "runQueue_close tq = map (\<lambda>r. Taken r None) (tq_takeReqs tq)"

text \<open>The whole loop: the answers to a sequence of time-stamped requests, then the close.\<close>

fun runQueue :: "(string \<times> 'task request) list \<Rightarrow> 'task taskQueue \<Rightarrow> 'task answer list \<times> 'task taskQueue" where
  "runQueue [] tq = ([], tq)"
| "runQueue ((now, r) # rs) tq =
     (let (as, tq) = runQueue_step now r tq; (as', tq) = runQueue rs tq in (as @ as', tq))"

section \<open>First in, first out\<close>

fun puts :: "int64 \<Rightarrow> (string \<times> 'task request) list \<Rightarrow> 'task BgTask list" where
  "puts i [] = []"
| "puts i ((now, putReq t) # rs) = t\<lparr>bt_Num := i + 1, bt_Submitted := now\<rparr> # puts (i + 1) rs"
| "puts i ((now, _) # rs) = puts i rs"

fun takers :: "(string \<times> 'task request) list \<Rightarrow> nat list" where
  "takers [] = []"
| "takers ((now, takeReq r) # rs) = r # takers rs"
| "takers ((now, _) # rs) = takers rs"

fun handed :: "'task answer list \<Rightarrow> (nat \<times> 'task BgTask) list" where
  "handed [] = []"
| "handed (Taken r (Some t) # as) = (r, t) # handed as"
| "handed (_ # as) = handed as"

lemma handed_append [simp]: "handed (as @ as') = handed as @ handed as'"
  by (induction as rule: handed.induct) auto

definition tq_inv :: "'task taskQueue \<Rightarrow> bool" where
  "tq_inv tq \<longleftrightarrow> tq_queue tq = [] \<or> tq_takeReqs tq = []"

lemma runQueue_step_inv: "tq_inv tq \<Longrightarrow> tq_inv (snd (runQueue_step now r tq))"
  by (cases r) (auto simp: tq_inv_def Let_def split: list.split)

lemma runQueue_Cons:
  assumes "runQueue ((now, r) # rs) tq = (as, tq')"
  obtains as1 tq1 as2 where "runQueue_step now r tq = (as1, tq1)" "runQueue rs tq1 = (as2, tq')" "as = as1 @ as2"
  using assms by (auto split: prod.splits)

lemma runQueue_inv: "tq_inv tq \<Longrightarrow> runQueue rs tq = (as, tq') \<Longrightarrow> tq_inv tq'"
proof (induction rs arbitrary: tq as)
  case (Cons x rs)
  obtain now r where x: "x = (now, r)" by fastforce
  show ?case
    using Cons.prems(2) unfolding x
  proof (rule runQueue_Cons)
    fix as1 tq1 as2
    assume *: "runQueue_step now r tq = (as1, tq1)" "runQueue rs tq1 = (as2, tq')"
    show ?thesis using Cons.IH [OF _ *(2)] runQueue_step_inv [OF Cons.prems(1), of now r] *(1) by simp
  qed
qed simp

text \<open>What was in the queue or came in has been handed out, in order, or is still there; the
  same of those who wait.\<close>

lemma runQueue_order:
  assumes "tq_inv tq" and "runQueue rs tq = (as, tq')"
  shows "tq_queue tq @ puts (tq_i tq) rs = map snd (handed as) @ tq_queue tq' \<and>
    tq_takeReqs tq @ takers rs = map fst (handed as) @ tq_takeReqs tq'"
  using assms
proof (induction rs arbitrary: tq as)
  case (Cons x rs)
  obtain now r where x: "x = (now, r)" by fastforce
  obtain as1 tq1 as2 where *: "runQueue_step now r tq = (as1, tq1)" "runQueue rs tq1 = (as2, tq')" "as = as1 @ as2"
    using Cons.prems(2) unfolding x by (rule runQueue_Cons)
  have "tq_inv tq1" using runQueue_step_inv [OF Cons.prems(1), of now r] *(1) by simp
  from Cons.IH [OF this *(2)] show ?case
    using Cons.prems(1) *(1,3) x by (cases r) (auto simp: tq_inv_def Let_def split: list.splits)
qed simp

lemma nth_puts: "k < length (puts i rs) \<Longrightarrow> bt_Num (puts i rs ! k) = i + of_nat (Suc k)"
  by (induction i rs arbitrary: k rule: puts.induct) (auto simp: nth_Cons split: nat.split)

section \<open>Properties\<close>

text \<open>C34: the queue is first in, first out, over every sequence of requests from a new queue:
  the tasks handed out, in the order of the answers, followed by the tasks still queued, are
  the tasks put, in that order, the k-th of them numbered k and stamped with the time it came in;
  those who take are served in the order in which they asked; and nobody waits while a task
  is queued.\<close>

theorem queue_fifo:
  assumes "runQueue rs TaskQueue = (as, tq)"
  shows "map snd (handed as) @ tq_queue tq = puts 0 rs \<and>
    map fst (handed as) @ tq_takeReqs tq = takers rs \<and>
    (tq_queue tq = [] \<or> tq_takeReqs tq = []) \<and>
    (\<forall>k < length (puts 0 rs). bt_Num (puts 0 rs ! k) = of_nat (Suc k))"
proof -
  have i: "tq_inv TaskQueue" by (simp add: tq_inv_def TaskQueue_def)
  show ?thesis
    using runQueue_order [OF i assms] runQueue_inv [OF i assms] nth_puts [of _ 0 rs]
    by (simp add: TaskQueue_def tq_inv_def)
qed

definition ex_task :: "nat BgTask" where
  "ex_task = \<lparr>bt_Num = 0, bt_Err = None, bt_Finished = [], bt_Started = [], bt_Submitted = [], bt_Task = 7\<rparr>"

definition ex_requests :: "(string \<times> nat request) list" where
  "ex_requests = [(''t0'', takeReq 5), (''t1'', putReq ex_task), (''t2'', putReq (ex_task\<lparr>bt_Task := 8\<rparr>)), (''t3'', listReq 6)]"

theorem queue_fifo_witness:
  "runQueue ex_requests TaskQueue =
     ([Taken 5 (Some (ex_task\<lparr>bt_Num := 1, bt_Submitted := ''t1''\<rparr>)),
       Listed 6 [ex_task\<lparr>bt_Num := 2, bt_Submitted := ''t2'', bt_Task := 8\<rparr>]],
      \<lparr>tq_queue = [ex_task\<lparr>bt_Num := 2, bt_Submitted := ''t2'', bt_Task := 8\<rparr>], tq_takeReqs = [], tq_i = 2\<rparr>) \<and>
   puts 0 ex_requests = [ex_task\<lparr>bt_Num := 1, bt_Submitted := ''t1''\<rparr>, ex_task\<lparr>bt_Num := 2, bt_Submitted := ''t2'', bt_Task := 8\<rparr>]"
proof
  show r: "runQueue ex_requests TaskQueue =
     ([Taken 5 (Some (ex_task\<lparr>bt_Num := 1, bt_Submitted := ''t1''\<rparr>)),
       Listed 6 [ex_task\<lparr>bt_Num := 2, bt_Submitted := ''t2'', bt_Task := 8\<rparr>]],
      \<lparr>tq_queue = [ex_task\<lparr>bt_Num := 2, bt_Submitted := ''t2'', bt_Task := 8\<rparr>], tq_takeReqs = [], tq_i = 2\<rparr>)"
    by (simp add: ex_requests_def TaskQueue_def Let_def)
  show "puts 0 ex_requests = [ex_task\<lparr>bt_Num := 1, bt_Submitted := ''t1''\<rparr>, ex_task\<lparr>bt_Num := 2, bt_Submitted := ''t2'', bt_Task := 8\<rparr>]"
    using queue_fifo [OF r] by simp
qed

text \<open>Closing the queue answers everyone who still waits with nil, so that no taker is left
  waiting, and answers nobody else.\<close>

theorem queue_close_releases:
  assumes "runQueue rs TaskQueue = (as, tq)"
  shows "takers rs = map fst (handed as) @ map (\<lambda>a. case a of Taken r None \<Rightarrow> r) (runQueue_close tq) \<and>
    handed (runQueue_close tq) = []"
proof -
  have i: "tq_inv TaskQueue" by (simp add: tq_inv_def TaskQueue_def)
  have "handed (map (\<lambda>r. Taken r None) rs) = []" for rs :: "nat list" by (induction rs) auto
  then show ?thesis
    using runQueue_order [OF i assms] by (simp add: TaskQueue_def runQueue_close_def o_def)
qed

end
