(* ===== verification/Controller.thy ===== *)
theory Controller
  imports Queue
begin

text \<open>
  Package \<open>controller\<close> (\<open>controller.go\<close>, \<open>bgtasks.go\<close>, \<open>backups.go\<close>, \<open>snapshots.go\<close>): the
  manager's side of a running controller, which it drives through the \<open>longhorn\<close> command line
  tool (run through \<open>Env\<close>).  \<open>controller\<close> is the struct's identity, name and URL;
  \<open>bgState\<close> is the pair of its last and its running background task; \<open>hold_step\<close> is one round
  of the goroutine \<open>holdControllers\<close> that keeps one controller per volume.
\<close>

section \<open>controller.go\<close>

record controller =
  co_id :: nat
  co_name :: string
  co_url :: string

definition getControllerURL :: "string \<Rightarrow> string" where
  "getControllerURL address = ''http://'' @ address @ '':9501''"

definition getReplicaURL :: "string \<Rightarrow> string" where
  "getReplicaURL address = ''tcp://'' @ address @ '':9502''"

text \<open>None is the index out of range of a URL without a colon.\<close>

definition getIPFromURL :: "string \<Rightarrow> string option" where
  "getIPFromURL url = (case Split url (CHR '':'') of
      _ # s # _ \<Rightarrow> Some (TrimPrefix s ''//'')
    | _ \<Rightarrow> None)"

text \<open>The holder's state: the controllers by volume name, and the number of controllers made
  so far.  A round answers the request with a controller or not at all, and closes a queue or
  none.\<close>

record holder =
  ho_cs :: "controller gomap"
  ho_made :: nat

definition hold_step :: "VolumeInfo \<Rightarrow> holder \<Rightarrow> (controller option \<times> controller option) \<times> holder" where
  "hold_step volume h = (case v_Controller volume of
      Some ci \<Rightarrow>
        if i_Running (c_InstanceInfo ci) then
          (let cURL = getControllerURL (i_Address (c_InstanceInfo ci));
               new = \<lparr>co_id = ho_made h, co_name = v_Name volume, co_url = cURL\<rparr>;
               made = \<lparr>ho_cs = AList.update (v_Name volume) new (ho_cs h), ho_made = ho_made h + 1\<rparr>
           in case map_of (ho_cs h) (v_Name volume) of
                None \<Rightarrow> ((Some new, None), made)
              | Some c \<Rightarrow> if co_url c \<noteq> cURL then ((Some new, None), made) else ((Some c, None), h))
        else ((None, map_of (ho_cs h) (v_Name volume)), h\<lparr>ho_cs := AList.delete (v_Name volume) (ho_cs h)\<rparr>)
    | None \<Rightarrow> ((None, map_of (ho_cs h) (v_Name volume)), h\<lparr>ho_cs := AList.delete (v_Name volume) (ho_cs h)\<rparr>))"

text \<open>\<open>Get\<close> and \<open>Cleanup\<close> send a request to the holder; \<open>Get\<close> waits for the answer.\<close>

definition ctrl_Get :: "VolumeInfo option \<Rightarrow> holder \<Rightarrow> controller option \<times> holder" where
  "ctrl_Get volume h = (case volume of
      None \<Rightarrow> (None, h)
    | Some v \<Rightarrow> (case v_Controller v of
        None \<Rightarrow> (None, h)
      | Some ci \<Rightarrow> if \<not> i_Running (c_InstanceInfo ci) then (None, h)
          else (let ((r, _), h') = hold_step v h in (r, h'))))"

definition ctrl_Cleanup :: "VolumeInfo \<Rightarrow> holder \<Rightarrow> controller option \<times> holder" where
  "ctrl_Cleanup volume h =
     (let volume = (CopyVolumeProperties volume)\<lparr>v_Controller := None\<rparr>; ((_, closed), h') = hold_step volume h
      in (closed, h'))"

definition modes :: "string gomap" where
  "modes = [(''RW'', ReplicaModeRW), (''WO'', ReplicaModeWO), (''ERR'', ReplicaModeERR)]"

definition parseReplica :: "string \<Rightarrow> ReplicaInfo res" where
  "parseReplica s = (case Fields s of
      f0 # f1 # _ \<Rightarrow>
        (let mode = (case map_of modes f1 of None \<Rightarrow> ReplicaModeERR | Some m \<Rightarrow> m)
         in case getIPFromURL f0 of
              None \<Rightarrow> Panic ''index out of range''
            | Some a \<Rightarrow> Ok \<lparr>r_InstanceInfo = zero_InstanceInfo\<lparr>i_Address := a\<rparr>, r_Mode = mode, r_BadTimestamp = []\<rparr>)
    | _ \<Rightarrow> Err (Errorf (''cannot parse line `'' @ s @ ''`'')))"

fun parseReplicas :: "string list \<Rightarrow> ReplicaInfo list \<Rightarrow> ReplicaInfo list res" where
  "parseReplicas [] replicas = Ok replicas"
| "parseReplicas (s # lines) replicas =
     (if HasPrefix s ''ADDRESS'' then parseReplicas lines replicas
      else (case parseReplica s of
          Ok r \<Rightarrow> parseReplicas lines (replicas @ [r])
        | Err e \<Rightarrow> Err (wrap (''error parsing replica status from `'' @ s @ ''`'') e)
        | Panic m \<Rightarrow> Panic m))"

definition GetReplicaStates :: "'w Env \<Rightarrow> controller \<Rightarrow> ('w, ReplicaInfo list) op" where
  "GetReplicaStates env c = st (CmdOutLines env [''longhorn'', ''--url'', co_url c, ''ls'']) (\<lambda>(lines, cliErr).
     case parseReplicas lines [] of
       Panic m \<Rightarrow> panic m
     | Err e \<Rightarrow> fail e
     | Ok replicas \<Rightarrow> (case cliErr of Some e \<Rightarrow> fail e | None \<Rightarrow> ret replicas))"

definition AddReplica :: "'w Env \<Rightarrow> controller \<Rightarrow> ReplicaInfo \<Rightarrow> ('w, unit) op" where
  "AddReplica env c replica =
     (let rURL = getReplicaURL (i_Address (r_InstanceInfo replica)) in
      tryE (Execute env ''longhorn'' [''--url'', co_url c, ''add'', rURL])
        (wrap (''failed to add replica address='' @ rURL)) (\<lambda>_. ret ()))"

definition RemoveReplica :: "'w Env \<Rightarrow> controller \<Rightarrow> ReplicaInfo \<Rightarrow> ('w, unit) op" where
  "RemoveReplica env c replica =
     (let rURL = getReplicaURL (i_Address (r_InstanceInfo replica)) in
      tryE (Execute env ''longhorn'' [''--url'', co_url c, ''rm'', rURL])
        (wrap (''failed to rm replica address='' @ rURL)) (\<lambda>_. ret ()))"

record volumeInfo =
  vi_Name :: string
  vi_ReplicaCount :: int
  vi_Endpoint :: string

definition dec_volumeInfo :: "json \<Rightarrow> volumeInfo option" where
  "dec_volumeInfo j = (case (case j of JNull \<Rightarrow> Some [] | JObj ms \<Rightarrow> Some ms | _ \<Rightarrow> None) of
     None \<Rightarrow> None
   | Some ms \<Rightarrow> do {
       n \<leftarrow> get_string ms ''name'';
       r \<leftarrow> get_int ms ''replicaCount'';
       e \<leftarrow> get_string ms ''endpoint'';
       Some \<lparr>vi_Name = n, vi_ReplicaCount = r, vi_Endpoint = e\<rparr> })"

text \<open>\<open>parse\<close> is the text-level part of \<open>json.Unmarshal\<close>: the document a text consists of.\<close>

definition ctrl_info :: "(string \<Rightarrow> json option) \<Rightarrow> 'w Env \<Rightarrow> controller \<Rightarrow> ('w, volumeInfo) op" where
  "ctrl_info parse env c =
     tryE (Execute env ''longhorn'' [''--url'', co_url c, ''info'']) (wrap ''cannot get volume info'') (\<lambda>output.
     case Option.bind (parse output) dec_volumeInfo of
       None \<Rightarrow> fail (wrap (''cannot decode volume info: '' @ output) (Ext ''json''))
     | Some i \<Rightarrow> ret i)"

definition ctrl_Endpoint :: "(string \<Rightarrow> json option) \<Rightarrow> 'w Env \<Rightarrow> controller \<Rightarrow> ('w, string) op" where
  "ctrl_Endpoint parse env c = attempt (ctrl_info parse env c) (\<lambda>r. case r of
      Inl _ \<Rightarrow> ret []
    | Inr i \<Rightarrow> ret (vi_Endpoint i))"

section \<open>snapshots.go\<close>

abbreviation VolumeHeadName :: string where "VolumeHeadName \<equiv> ''volume-head''"
abbreviation purgeTimeout :: int where "purgeTimeout \<equiv> 15 * Minute"

definition dec_SnapshotInfo :: "json \<Rightarrow> SnapshotInfo option" where
  "dec_SnapshotInfo j = (case j of JObj ms \<Rightarrow> do {
       n \<leftarrow> get_string ms ''name'';
       p \<leftarrow> get_string ms ''parent'';
       ch \<leftarrow> get_ptr (dec_slice (\<lambda>j. case j of JStr s \<Rightarrow> Some s | JNull \<Rightarrow> Some [] | _ \<Rightarrow> None)) ms ''children'';
       rm \<leftarrow> get_bool ms ''removed'';
       uc \<leftarrow> get_bool ms ''usercreated'';
       cr \<leftarrow> get_string ms ''created'';
       sz \<leftarrow> get_string ms ''size'';
       ls \<leftarrow> get_ptr (dec_map (\<lambda>j. case j of JStr s \<Rightarrow> Some s | JNull \<Rightarrow> Some [] | _ \<Rightarrow> None)) ms ''labels'';
       Some \<lparr>sn_Name = n, sn_Parent = p, sn_Children = (case ch of None \<Rightarrow> [] | Some c \<Rightarrow> c), sn_Removed = rm,
         sn_UserCreated = uc, sn_Created = cr, sn_Size = sz, sn_Labels = (case ls of None \<Rightarrow> [] | Some l \<Rightarrow> l)\<rparr> }
   | _ \<Rightarrow> None)"

text \<open>The values of the decoded map are pointers: null is nil.\<close>

definition dec_SnapshotPtr :: "json \<Rightarrow> SnapshotInfo option option" where
  "dec_SnapshotPtr j = (if j = JNull then Some None else map_option Some (dec_SnapshotInfo j))"

text \<open>\<open>labels\<close> is visited in the order of the list.\<close>

definition snap_Create :: "'w Env \<Rightarrow> controller \<Rightarrow> string \<Rightarrow> string gomap \<Rightarrow> ('w, string) op" where
  "snap_Create env c name labels =
     (let args = [''--url'', co_url c, ''snapshot'', ''create''] @
                 concat (map (\<lambda>(k, v). [''--label'', k @ ''='' @ v]) labels) @ [name] in
      tryE (Execute env ''longhorn'' args) (wrap (''error creating snapshot '' @ name)) (\<lambda>output.
      ret (TrimSpace output)))"

definition snap_list :: "'w Env \<Rightarrow> controller \<Rightarrow> ('w, SnapshotInfo option gomap) op" where
  "snap_list env c = st (env_Proc env [''longhorn'', ''--url'', co_url c, ''snapshot'', ''info'']) (\<lambda>r.
     case pr_start r of
       Some e \<Rightarrow> fail (wrap ''error starting cmd'' e)
     | None \<Rightarrow> (case Option.bind (pr_json r) (dec_map dec_SnapshotPtr) of
         None \<Rightarrow> fail (wrap ''error parsing data from cmd'' (Ext ''json''))
       | Some dt \<Rightarrow> ret (AList.delete VolumeHeadName dt)))"

definition snap_List :: "'w Env \<Rightarrow> controller \<Rightarrow> ('w, SnapshotInfo option list) op" where
  "snap_List env c = tryE (snap_list env c) id (\<lambda>dt. ret (map snd dt))"

definition snap_Get :: "'w Env \<Rightarrow> controller \<Rightarrow> string \<Rightarrow> ('w, SnapshotInfo option) op" where
  "snap_Get env c name = tryE (snap_list env c) id (\<lambda>dt. ret (Option.bind (map_of dt name) id))"

definition snap_Delete :: "'w Env \<Rightarrow> controller \<Rightarrow> string \<Rightarrow> ('w, unit) op" where
  "snap_Delete env c name =
     tryE (Execute env ''longhorn'' [''--url'', co_url c, ''snapshot'', ''rm'', name])
       (wrap (''error deleting snapshot '' @ name)) (\<lambda>_. ret ())"

definition snap_Revert :: "'w Env \<Rightarrow> controller \<Rightarrow> string \<Rightarrow> ('w, unit) op" where
  "snap_Revert env c name =
     tryE (Execute env ''longhorn'' [''--url'', co_url c, ''snapshot'', ''revert'', name])
       (wrap (''error reverting to snapshot '' @ name)) (\<lambda>_. ret ())"

text \<open>The purge queue is a channel of capacity two; \<open>pending\<close> is the number of purges in it.\<close>

definition snap_Purge :: "'w Env \<Rightarrow> controller \<Rightarrow> nat \<Rightarrow> ('w, unit) op" where
  "snap_Purge env c pending =
     (if pending \<ge> 2 then ret ()
      else tryE (ExecuteWithTimeout env purgeTimeout ''longhorn'' [''--url'', co_url c, ''snapshot'', ''purge''])
        (wrap ''error purging snapshots'') (\<lambda>_. ret ()))"

section \<open>bgtasks.go and backups.go\<close>

record 'w BackupBgTask =
  bb_Snapshot :: string
  bb_BackupTarget :: string
  bb_CleanupHook :: "('w, unit) op option"

text \<open>The \<open>Task\<close> of a background task is an interface value: a pointer to a backup task, a
  backup task itself, or something else.\<close>

datatype 'w Task = BackupPtr "'w BackupBgTask" | BackupVal "'w BackupBgTask" | OtherTask

record 'w bgState =
  bg_lastRunBgTask :: "'w Task BgTask option"
  bg_runningBgTask :: "'w Task BgTask option"

definition LatestBgTasks :: "'w bgState \<Rightarrow> 'w Task BgTask list" where
  "LatestBgTasks bg =
     (case bg_lastRunBgTask bg of None \<Rightarrow> [] | Some t \<Rightarrow> [t]) @
     (case bg_runningBgTask bg of None \<Rightarrow> [] | Some t \<Rightarrow> [t])"

definition runBackup :: "'w Env \<Rightarrow> controller \<Rightarrow> 'w BackupBgTask \<Rightarrow> ('w, unit) op" where
  "runBackup env c t =
     st (env_Proc env [''longhorn'', ''--url'', co_url c, ''backup'', ''create'', ''--dest'', bb_BackupTarget t, bb_Snapshot t]) (\<lambda>r.
     let err = (case pr_start r of Some e \<Rightarrow> Some e | None \<Rightarrow> pr_wait r);
         result = (case errors_Wrapf err (''error creating backup for snapshot '' @ bb_Snapshot t @ '': '' @ pr_stderr r) of
                     None \<Rightarrow> ret () | Some e \<Rightarrow> fail e)
     in case bb_CleanupHook t of
          None \<Rightarrow> result
        | Some hook \<Rightarrow> attempt hook (\<lambda>_. result))"

text \<open>A task is the running one from its start until its end, where it becomes the last run one; the
  task is one object, whose fields are set while the two pointers refer to it.\<close>

definition runTask_begin :: "'w Env \<Rightarrow> 'w Task BgTask \<Rightarrow> ('w bgState \<times> 'w, 'w Task BgTask) op" where
  "runTask_begin env t = (\<lambda>(bg, w).
     let (started, w) = Now env w; t = t\<lparr>bt_Started := started\<rparr>
     in (Ok t, (bg\<lparr>bg_runningBgTask := Some t\<rparr>, w)))"

definition runTask_end :: "'w Env \<Rightarrow> gerr option \<Rightarrow> ('w bgState \<times> 'w, unit) op" where
  "runTask_end env err = (\<lambda>(bg, w). case bg_runningBgTask bg of
       None \<Rightarrow> (Panic ''nil pointer dereference'', (bg\<lparr>bg_lastRunBgTask := None\<rparr>, w))
     | Some t \<Rightarrow> let (finished, w) = Now env w
                 in (Ok (), (\<lparr>bg_lastRunBgTask = Some (t\<lparr>bt_Finished := finished, bt_Err := err\<rparr>), bg_runningBgTask = None\<rparr>, w)))"

definition runTask :: "'w Env \<Rightarrow> controller \<Rightarrow> 'w Task BgTask \<Rightarrow> ('w bgState \<times> 'w, unit) op" where
  "runTask env c t = tryE (runTask_begin env t) id (\<lambda>t (bg, w).
     let (r, w) = (case bt_Task t of
              BackupPtr task \<Rightarrow> runBackup env c task w
            | _ \<Rightarrow> fail (Errorf ''unknown task type'') w);
         (q, bgw) = runTask_end env (case r of Err e \<Rightarrow> Some e | _ \<Rightarrow> None) (bg, w)
     in (case r of Panic m \<Rightarrow> Panic m | _ \<Rightarrow> q, bgw))"

text \<open>The loop runs the tasks it takes until the queue hands it nil.\<close>

fun runBgTasks :: "'w Env \<Rightarrow> controller \<Rightarrow> 'w Task BgTask option list \<Rightarrow> ('w bgState \<times> 'w, unit) op" where
  "runBgTasks env c (Some t # ts) = tryE (runTask env c t) id (\<lambda>_. runBgTasks env c ts)"
| "runBgTasks env c _ = ret ()"

text \<open>The task that \<open>StartBackup\<close> puts into the queue.\<close>

definition StartBackup :: "'w Env \<Rightarrow> controller \<Rightarrow> string \<Rightarrow> string \<Rightarrow> ('w, 'w Task) op" where
  "StartBackup env c snapName backupTarget =
     tryE (snap_Get env c snapName) (wrap (''error getting snapshot '' @ snapName)) (\<lambda>snap. case snap of
       None \<Rightarrow> fail (Errorf (''could not find snapshot '' @ snapName @ '' to backup, volume '' @ co_name c))
     | Some _ \<Rightarrow> ret (BackupPtr \<lparr>bb_Snapshot = snapName, bb_BackupTarget = backupTarget, bb_CleanupHook = None\<rparr>))"

definition Restore :: "'w Env \<Rightarrow> controller \<Rightarrow> string \<Rightarrow> ('w, unit) op" where
  "Restore env c backup =
     tryE (Execute env ''longhorn'' [''--url'', co_url c, ''backup'', ''restore'', backup])
       (wrap (''error restoring backup '' @ backup)) (\<lambda>_. ret ())"

definition DeleteBackup :: "'w Env \<Rightarrow> controller \<Rightarrow> string \<Rightarrow> ('w, unit) op" where
  "DeleteBackup env c backup =
     tryE (Execute env ''longhorn'' [''--url'', co_url c, ''backup'', ''rm'', backup])
       (wrap (''error deleting backup '' @ backup)) (\<lambda>_. ret ())"

section \<open>Parsing the list of replicas\<close>

lemma getIPFromURL_getReplicaURL:
  assumes "CHR '':'' \<notin> set a"
  shows "getIPFromURL (getReplicaURL a) = Some a"
proof -
  have 1: "Split (''tcp'' @ CHR '':'' # x) (CHR '':'') = ''tcp'' # Split x (CHR '':'')" for x by (rule Split_sep) simp
  have 2: "Split ((''//'' @ a) @ CHR '':'' # ''9502'') (CHR '':'') = (''//'' @ a) # Split ''9502'' (CHR '':'')"
    by (rule Split_sep) (use assms in simp)
  have 3: "Split ''9502'' (CHR '':'') = [''9502'']" by (rule Split_id) simp
  have u: "getReplicaURL a = ''tcp'' @ CHR '':'' # (''//'' @ a) @ CHR '':'' # ''9502''" by (simp add: getReplicaURL_def)
  show ?thesis unfolding getIPFromURL_def u 1 2 3 by (simp add: TrimPrefix_def HasPrefix_def)
qed

lemma Fields_Cons:
  assumes "x \<noteq> []" and "\<forall>c \<in> set x. \<not> isSpace c" and "isSpace c"
  shows "Fields (x @ c # y) = x # Fields y"
  using assms by (simp add: Fields_def split_by_sep)

lemma Fields_single: "x \<noteq> [] \<Longrightarrow> \<forall>c \<in> set x. \<not> isSpace c \<Longrightarrow> Fields x = [x]"
  by (simp add: Fields_def split_by_id)

lemma isSpace_literals [simp]:
  "isSpace CHR '' ''" "\<not> isSpace CHR ''t''" "\<not> isSpace CHR ''c''" "\<not> isSpace CHR ''p''" "\<not> isSpace CHR '':''"
  "\<not> isSpace CHR ''/''" "\<not> isSpace CHR ''9''" "\<not> isSpace CHR ''5''" "\<not> isSpace CHR ''0''" "\<not> isSpace CHR ''2''"
  by (simp_all add: isSpace_def)

lemma parseReplicas_Ok:
  "parseReplicas lines acc = Ok rs \<longleftrightarrow>
   (\<exists>xs. rs = acc @ xs \<and> map parseReplica (filter (\<lambda>l. \<not> HasPrefix l ''ADDRESS'') lines) = map Ok xs)"
proof (induction lines arbitrary: acc)
  case (Cons l lines)
  show ?case
  proof (cases "parseReplica l")
    case (Ok r)
    have "(\<exists>xs. rs = (acc @ [r]) @ xs \<and> P xs) \<longleftrightarrow> (\<exists>xs. rs = acc @ r # xs \<and> P xs)" for P by simp
    moreover have "(\<exists>xs. rs = acc @ xs \<and> Ok r # ys = map Ok xs) \<longleftrightarrow> (\<exists>xs. rs = acc @ r # xs \<and> ys = map Ok xs)" for ys
      by (auto simp: Cons_eq_map_conv)
    ultimately show ?thesis using Cons.IH Ok by simp
  next
    case (Err e)
    then show ?thesis using Cons.IH by (simp add: Cons_eq_map_conv)
  next
    case (Panic m)
    then show ?thesis using Cons.IH by (simp add: Cons_eq_map_conv)
  qed
qed auto

section \<open>The holder\<close>

definition holder_start :: holder where
  "holder_start = \<lparr>ho_cs = [], ho_made = 0\<rparr>"

text \<open>The states of the holder after any sequence of requests.\<close>

inductive holder_reach :: "holder \<Rightarrow> bool" where
  start: "holder_reach holder_start"
| step: "holder_reach h \<Longrightarrow> hold_step volume h = (r, h') \<Longrightarrow> holder_reach h'"

lemma holder_reach_names:
  "holder_reach h \<Longrightarrow> map_of (ho_cs h) n = Some c \<Longrightarrow> co_name c = n \<and> co_id c < ho_made h"
proof (induction arbitrary: n c rule: holder_reach.induct)
  case (step h volume r h')
  show ?case
    using step.IH [of n c] step.hyps(2) step.prems
    by (auto simp: hold_step_def Let_def split: option.splits if_splits)
qed (simp add: holder_start_def)

lemma ctrl_Get_running:
  assumes "v_Controller v = Some ci" and "i_Running (c_InstanceInfo ci)"
  shows "\<exists>c h'. ctrl_Get (Some v) h = (Some c, h') \<and> co_url c = getControllerURL (i_Address (c_InstanceInfo ci)) \<and>
    map_of (ho_cs h') (v_Name v) = Some c \<and>
    (map_of (ho_cs h) (v_Name v) = None \<longrightarrow> co_name c = v_Name v \<and> co_id c = ho_made h)"
  using assms by (auto simp: ctrl_Get_def hold_step_def Let_def split: option.splits)

section \<open>Properties\<close>

text \<open>A line of the controller's replica list is read as its address and its mode: the
  address the URL was made from, and ERR for every mode that is not RW or WO.\<close>

theorem parseReplica_line:
  assumes "\<forall>c \<in> set a. \<not> isSpace c \<and> c \<noteq> CHR '':''" and "m \<noteq> []" "\<forall>c \<in> set m. \<not> isSpace c"
    and "rest = [] \<or> isSpace (hd rest)"
  shows "parseReplica (getReplicaURL a @ '' '' @ m @ rest) = Ok \<lparr>r_InstanceInfo = zero_InstanceInfo\<lparr>i_Address := a\<rparr>,
    r_Mode = (if m = ReplicaModeRW \<or> m = ReplicaModeWO then m else ReplicaModeERR), r_BadTimestamp = []\<rparr>"
proof -
  have u: "getReplicaURL a \<noteq> []" "\<forall>c \<in> set (getReplicaURL a). \<not> isSpace c"
    using assms(1) by (auto simp: getReplicaURL_def)
  have "Fields (m @ rest) = m # Fields (tl rest) \<or> Fields (m @ rest) = [m]"
    using assms Fields_single [of m] Fields_Cons [of m "hd rest" "tl rest"] by (cases rest) auto
  then obtain fs where f: "Fields (getReplicaURL a @ '' '' @ m @ rest) = getReplicaURL a # m # fs"
    using Fields_Cons [OF u, of "CHR '' ''" "m @ rest"] by auto
  have "getIPFromURL (getReplicaURL a) = Some a" by (rule getIPFromURL_getReplicaURL) (use assms(1) in auto)
  then show ?thesis using f by (auto simp: parseReplica_def modes_def)
qed

text \<open>What the controller reports is what its tool printed: the replicas returned are the
  parsed lines, without the header, in order; a line that does not parse or a failed tool
  means an error, never a shorter list.\<close>

theorem GetReplicaStates_all_lines:
  assumes "env_Proc env [''longhorn'', ''--url'', co_url c, ''ls''] w = (r, w')"
  shows "GetReplicaStates env c w = (Ok rs, w') \<longleftrightarrow> pr_start r = None \<and> pr_wait r = None \<and>
    map parseReplica (filter (\<lambda>l. \<not> HasPrefix l ''ADDRESS'') (scan_lines (pr_stdout r))) = map Ok rs"
proof (cases "pr_start r")
  case (Some e)
  then show ?thesis using assms by (simp add: GetReplicaStates_def CmdOutLines_def st_def fail_def)
next
  case None
  have p: "parseReplicas (scan_lines (pr_stdout r)) [] = Ok rs \<longleftrightarrow>
      map parseReplica (filter (\<lambda>l. \<not> HasPrefix l ''ADDRESS'') (scan_lines (pr_stdout r))) = map Ok rs"
    by (simp add: parseReplicas_Ok)
  show ?thesis
    using assms None unfolding p [symmetric]
    by (auto simp: GetReplicaStates_def CmdOutLines_def st_def fail_def ret_def panic_def split: res.splits option.splits)
qed

text \<open>C35: there is one controller, with one task queue, per volume and address.  In every state
  of the holder a request for a volume that runs at an address returns a controller of that
  volume's name and that address; asking again returns the same one; after a cleanup the next one
  is new.\<close>

theorem holder_one_controller:
  assumes "holder_reach h" and "v_Controller v = Some ci" and "i_Running (c_InstanceInfo ci)"
  shows "\<exists>c h' c' h''. ctrl_Get (Some v) h = (Some c, h') \<and> co_name c = v_Name v \<and>
    co_url c = getControllerURL (i_Address (c_InstanceInfo ci)) \<and> ctrl_Get (Some v) h' = (Some c, h') \<and>
    ctrl_Get (Some v) (snd (ctrl_Cleanup v h')) = (Some c', h'') \<and> co_id c < co_id c'"
proof -
  obtain c h' where c: "ctrl_Get (Some v) h = (Some c, h')" "co_url c = getControllerURL (i_Address (c_InstanceInfo ci))"
      "map_of (ho_cs h') (v_Name v) = Some c"
    using ctrl_Get_running [OF assms(2,3), of h] by blast
  have "\<exists>r. hold_step v h = (r, h')"
    using c(1) assms(2,3) by (auto simp: ctrl_Get_def split: prod.splits)
  then have r: "holder_reach h'" using holder_reach.step [OF assms(1)] by blast
  note n = holder_reach_names [OF r c(3)]
  have again: "ctrl_Get (Some v) h' = (Some c, h')"
    using assms(2,3) c(2,3) by (simp add: ctrl_Get_def hold_step_def Let_def)
  let ?h = "snd (ctrl_Cleanup v h')"
  have cl: "map_of (ho_cs ?h) (v_Name v) = None" "ho_made ?h = ho_made h'"
    by (simp_all add: ctrl_Cleanup_def hold_step_def CopyVolumeProperties_def Let_def)
  obtain c' h'' where "ctrl_Get (Some v) ?h = (Some c', h'')" "co_id c' = ho_made ?h"
    using ctrl_Get_running [OF assms(2,3), of ?h] cl(1) by blast
  then show ?thesis using c n again cl(2) by (intro exI [of _ c] exI [of _ h'] exI [of _ c'] exI [of _ h'']) auto
qed

definition ex_running :: VolumeInfo where
  "ex_running = \<lparr>v_Name = ''vol1'', v_Size = 4096, v_BaseImage = [], v_FromBackup = [], v_NumberOfReplicas = 1,
     v_StaleReplicaTimeout = 0, v_Controller = Some \<lparr>c_InstanceInfo = zero_InstanceInfo\<lparr>i_Address := ''10.0.0.1'', i_Running := True\<rparr>\<rparr>,
     v_Replicas = None, v_State = [], v_EngineImage = [], v_Endpoint = [], v_Created = [], v_RecurringJobs = None\<rparr>"

theorem holder_one_controller_witness:
  "\<exists>c h'. ctrl_Get (Some ex_running) holder_start = (Some c, h') \<and> co_url c = ''http://10.0.0.1:9501''"
  using holder_one_controller [OF holder_reach.start, of ex_running "\<lparr>c_InstanceInfo = zero_InstanceInfo\<lparr>i_Address := ''10.0.0.1'', i_Running := True\<rparr>\<rparr>"]
  by (auto simp: ex_running_def getControllerURL_def)

section \<open>Background tasks\<close>

text \<open>While a task runs it is the latest one, after the one that ran before it.\<close>

lemma runTask_begin_latest:
  "runTask_begin env t (bg, w) = (Ok t', (bg', w')) \<Longrightarrow>
     t' = t\<lparr>bt_Started := fst (Now env w)\<rparr> \<and> w' = snd (Now env w) \<and>
     LatestBgTasks bg' = (case bg_lastRunBgTask bg of None \<Rightarrow> [] | Some l \<Rightarrow> [l]) @ [t']"
  by (auto simp: runTask_begin_def LatestBgTasks_def Let_def split: prod.splits)

text \<open>When it ended it is the last run one, and none is running.\<close>

lemma runTask_latest:
  assumes "runTask env c t (bg, w) = (q, (bg', w'))"
  shows "\<exists>u. LatestBgTasks bg' = [u] \<and> bt_Task u = bt_Task t \<and> bt_Num u = bt_Num t \<and> bg_runningBgTask bg' = None"
  using assms by (auto simp: runTask_def runTask_begin_def runTask_end_def tryE_def LatestBgTasks_def Let_def split: prod.splits)

text \<open>A backup task that is not a pointer is not run: only the clock is read.\<close>

lemma runTask_value:
  assumes "bt_Task t = BackupVal b"
  shows "runTask env c t (bg, w) = (Ok (), (\<lparr>bg_lastRunBgTask = Some (t\<lparr>bt_Started := fst (Now env w),
      bt_Finished := fst (Now env (snd (Now env w))), bt_Err := Some (Errorf ''unknown task type'')\<rparr>), bg_runningBgTask = None\<rparr>,
    snd (Now env (snd (Now env w)))))"
  using assms by (simp add: runTask_def runTask_begin_def runTask_end_def tryE_def fail_def Let_def split: prod.split)

end
