(* ===== verification/Interfaces.thy ===== *)
theory Interfaces
  imports Controller Scheduler
begin

text \<open>
  The interfaces of \<open>types/types.go\<close> through which the manager reaches the other packages, as
  records of operations: \<open>Orchestrator\<close> (with the embedded \<open>ServiceLocator\<close> and \<open>Settings\<close>, and
  the \<open>Process\<close> operation of its scheduler), \<open>Controller\<close> (with its task queue and its snapshot
  and backup operations, which are methods of the same struct) and \<open>ManagerBackupOps\<close>.
  \<open>controller_ops\<close> is the instance that package \<open>controller\<close> provides.
\<close>

section \<open>Orchestrator\<close>

record 'w Orchestrator =
  orc_CreateVolume :: "VolumeInfo \<Rightarrow> ('w, VolumeInfo) op"
  orc_DeleteVolume :: "string \<Rightarrow> ('w, unit) op"
  orc_GetVolume :: "string \<Rightarrow> ('w, VolumeInfo option) op"
  orc_ListVolumes :: "('w, VolumeInfo list) op"
  orc_MarkBadReplica :: "string \<Rightarrow> ReplicaInfo \<Rightarrow> ('w, unit) op"
  orc_UpdateVolume :: "VolumeInfo \<Rightarrow> ('w, unit) op"
  orc_CreateController :: "string \<Rightarrow> string \<Rightarrow> ReplicaInfo gomap \<Rightarrow> ('w, ControllerInfo) op"
  orc_CreateReplica :: "string \<Rightarrow> string \<Rightarrow> ('w, ReplicaInfo option) op"
  orc_StartInstance :: "InstanceInfo \<Rightarrow> ('w, InstanceInfo) op"
  orc_StopInstance :: "InstanceInfo \<Rightarrow> ('w, InstanceInfo) op"
  orc_RemoveInstance :: "InstanceInfo \<Rightarrow> ('w, InstanceInfo) op"
  orc_ListHosts :: "('w, HostInfo gomap) op"
  orc_GetHost :: "string \<Rightarrow> ('w, HostInfo option) op"
  orc_Process :: "(ScheduleSpec \<Rightarrow> ScheduleItem \<Rightarrow> ('w, InstanceInfo) op) option"
  orc_GetCurrentHostID :: string
  orc_GetAddress :: "string \<Rightarrow> ('w, string) op"
  orc_GetSettings :: "('w, SettingsInfo option) op"
  orc_SetSettings :: "SettingsInfo \<Rightarrow> ('w, unit) op"

section \<open>Controller\<close>

record 'w Controller =
  ct_Name :: string
  ct_Endpoint :: "('w, string) op"
  ct_GetReplicaStates :: "('w, ReplicaInfo list) op"
  ct_AddReplica :: "ReplicaInfo \<Rightarrow> ('w, unit) op"
  ct_RemoveReplica :: "ReplicaInfo \<Rightarrow> ('w, unit) op"
  ct_Put :: "'w Task BgTask \<Rightarrow> ('w, unit) op"
  ct_ListTasks :: "('w, 'w Task BgTask list) op"
  ct_LatestBgTasks :: "('w, 'w Task BgTask list) op"
  ct_Create :: "string \<Rightarrow> string gomap \<Rightarrow> ('w, string) op"
  ct_List :: "('w, SnapshotInfo option list) op"
  ct_Get :: "string \<Rightarrow> ('w, SnapshotInfo option) op"
  ct_Delete :: "string \<Rightarrow> ('w, unit) op"
  ct_Revert :: "string \<Rightarrow> ('w, unit) op"
  ct_Purge :: "('w, unit) op"
  ct_StartBackup :: "string \<Rightarrow> string \<Rightarrow> ('w, unit) op"
  ct_Restore :: "string \<Rightarrow> ('w, unit) op"
  ct_DeleteBackup :: "string \<Rightarrow> ('w, unit) op"

text \<open>Package \<open>controller\<close> as an instance: the queue of the controller and its pair of
  background tasks are reached through \<open>put\<close>, \<open>tasks\<close> and \<open>latest\<close>, the number of
  purges that wait through \<open>purging\<close>.\<close>

definition controller_ops ::
  "(string \<Rightarrow> json option) \<Rightarrow> 'w Env \<Rightarrow> (controller \<Rightarrow> 'w Task BgTask \<Rightarrow> ('w, unit) op) \<Rightarrow>
   (controller \<Rightarrow> ('w, 'w Task BgTask list) op) \<Rightarrow> (controller \<Rightarrow> 'w \<Rightarrow> 'w bgState) \<Rightarrow> (controller \<Rightarrow> 'w \<Rightarrow> nat) \<Rightarrow>
   controller \<Rightarrow> 'w Controller" where
  "controller_ops parse env put tasks bg purging c = \<lparr>
     ct_Name = co_name c, ct_Endpoint = ctrl_Endpoint parse env c, ct_GetReplicaStates = GetReplicaStates env c,
     ct_AddReplica = AddReplica env c, ct_RemoveReplica = RemoveReplica env c,
     ct_Put = put c, ct_ListTasks = tasks c, ct_LatestBgTasks = (\<lambda>w. (Ok (LatestBgTasks (bg c w)), w)),
     ct_Create = snap_Create env c, ct_List = snap_List env c, ct_Get = snap_Get env c, ct_Delete = snap_Delete env c,
     ct_Revert = snap_Revert env c, ct_Purge = (\<lambda>w. snap_Purge env c (purging c w) w),
     ct_StartBackup = (\<lambda>s t. tryE (StartBackup env c s t) id (\<lambda>task. put c \<lparr>bt_Num = 0, bt_Err = None, bt_Finished = [],
        bt_Started = [], bt_Submitted = [], bt_Task = task\<rparr>)),
     ct_Restore = Restore env c, ct_DeleteBackup = DeleteBackup env c\<rparr>"

section \<open>Backups\<close>

record BackupVolumeInfo =
  bv_Name :: string
  bv_Size :: string
  bv_Created :: string

record 'w ManagerBackupOps =
  mb_List :: "string \<Rightarrow> ('w, BackupInfo list) op"
  mb_Get :: "string \<Rightarrow> ('w, BackupInfo option) op"
  mb_Delete :: "string \<Rightarrow> ('w, unit) op"
  mb_ListVolumes :: "('w, BackupVolumeInfo list) op"
  mb_GetVolume :: "string \<Rightarrow> ('w, BackupVolumeInfo) op"

end
