(* ===== verification/Backups.thy ===== *)
theory Backups
  imports Interfaces
begin

text \<open>
  Package \<open>backups\<close>: the backup store, read through the \<open>longhorn backup\<close> tool.  Its standard
  output is a JSON document or a message; \<open>mapstructure.Decode\<close> is the parameter \<open>decode\<close>.  A
  nil result without an error is None or the empty list, as the callers see it.
\<close>

definition ToLower :: "string \<Rightarrow> string" where
  "ToLower s = map (\<lambda>c. if (65 \<le> (of_char c :: nat) \<and> (of_char c :: nat) \<le> 90)
                        then char_of (of_char c + (32 :: nat)) else c) s"

record backupVolume =
  bvo_Name :: string
  bvo_Size :: string
  bvo_Created :: string
  bvo_LastBackupName :: string
  bvo_SpaceUsage :: string
  bvo_Backups :: "json gomap"

definition dec_backupVolume :: "json \<Rightarrow> backupVolume option" where
  "dec_backupVolume j = (case j of JObj ms \<Rightarrow> do {
       n \<leftarrow> get_string ms ''Name'';
       z \<leftarrow> get_string ms ''Size'';
       c \<leftarrow> get_string ms ''Created'';
       l \<leftarrow> get_string ms ''LastBackupName'';
       u \<leftarrow> get_string ms ''SpaceUsage'';
       b \<leftarrow> get_ptr (dec_map Some) ms ''Backups'';
       Some \<lparr>bvo_Name = n, bvo_Size = z, bvo_Created = c, bvo_LastBackupName = l, bvo_SpaceUsage = u,
         bvo_Backups = (case b of None \<Rightarrow> [] | Some b \<Rightarrow> b)\<rparr> }
   | _ \<Rightarrow> None)"

text \<open>A map of pointers: null is nil, and a null document is the empty map.\<close>

definition dec_backupVolumes :: "json \<Rightarrow> backupVolume option gomap option" where
  "dec_backupVolumes j = (if j = JNull then Some []
     else dec_map (\<lambda>j. if j = JNull then Some None else map_option Some (dec_backupVolume j)) j)"

record backups =
  ba_BackupTarget :: string

definition Backups_New :: "string \<Rightarrow> backups" where
  "Backups_New backupTarget = \<lparr>ba_BackupTarget = backupTarget\<rparr>"

definition parseBackup :: "(json \<Rightarrow> gerr + BackupInfo) \<Rightarrow> json \<Rightarrow> gerr + BackupInfo" where
  "parseBackup decode v = (case decode v of
      Inl e \<Rightarrow> Inl (wrap ''Error parsing backup info'' e)
    | Inr backup \<Rightarrow> Inr backup)"

definition cannot_find :: "string \<Rightarrow> bool" where
  "cannot_find s = HasPrefix (ToLower (TrimSpace s)) ''cannot find ''"

text \<open>What the parsers do with an output: the document, or nil for the message that there is
  none, or an error.\<close>

definition parse_output :: "ProcResult \<Rightarrow> (json \<Rightarrow> 'a option) \<Rightarrow> 'b \<Rightarrow> ('a \<Rightarrow> 'b res) \<Rightarrow> 'b res" where
  "parse_output r dec missing k = (case Option.bind (pr_json r) dec of
      Some dt \<Rightarrow> k dt
    | None \<Rightarrow> if cannot_find (pr_stdout r) then Ok missing
        else Err (wrap (''error parsing backups: '' @ pr_stdout r) (Ext ''json'')))"

fun parse_backups_loop :: "(json \<Rightarrow> gerr + BackupInfo) \<Rightarrow> backupVolume \<Rightarrow> json gomap \<Rightarrow> BackupInfo list \<Rightarrow> BackupInfo list res" where
  "parse_backups_loop decode volume [] bs = Ok bs"
| "parse_backups_loop decode volume ((_, v) # vs) bs = (case parseBackup decode v of
      Inl e \<Rightarrow> Err e
    | Inr backup \<Rightarrow> parse_backups_loop decode volume vs (bs @ [backup\<lparr>bk_VolumeName := bvo_Name volume,
        bk_VolumeSize := bvo_Size volume, bk_VolumeCreated := bvo_Created volume\<rparr>]))"

definition parseBackupsList :: "(json \<Rightarrow> gerr + BackupInfo) \<Rightarrow> ProcResult \<Rightarrow> string \<Rightarrow> BackupInfo list res" where
  "parseBackupsList decode r volumeName = parse_output r dec_backupVolumes [] (\<lambda>dt.
     case Option.bind (map_of dt volumeName) id of
       None \<Rightarrow> Panic ''nil pointer dereference''
     | Some volume \<Rightarrow> parse_backups_loop decode volume (bvo_Backups volume) [])"

fun parse_volumes_loop :: "backupVolume option gomap \<Rightarrow> BackupVolumeInfo list \<Rightarrow> BackupVolumeInfo list res" where
  "parse_volumes_loop [] vs = Ok vs"
| "parse_volumes_loop ((name, None) # dt) vs = Panic ''nil pointer dereference''"
| "parse_volumes_loop ((name, Some v) # dt) vs =
     parse_volumes_loop dt (vs @ [\<lparr>bv_Name = name, bv_Size = bvo_Size v, bv_Created = bvo_Created v\<rparr>])"

definition parseBackupVolumesList :: "ProcResult \<Rightarrow> BackupVolumeInfo list res" where
  "parseBackupVolumesList r = parse_output r dec_backupVolumes [] (\<lambda>dt. parse_volumes_loop dt [])"

text \<open>Any object decodes into the map that \<open>mapstructure\<close> then reads.\<close>

definition parseOneBackup :: "(json \<Rightarrow> gerr + BackupInfo) \<Rightarrow> ProcResult \<Rightarrow> BackupInfo option res" where
  "parseOneBackup decode r = parse_output r
     (\<lambda>j. case j of JObj _ \<Rightarrow> Some j | JNull \<Rightarrow> Some (JObj []) | _ \<Rightarrow> None) None (\<lambda>dt.
     case parseBackup decode dt of Inl e \<Rightarrow> Err e | Inr backup \<Rightarrow> Ok (Some backup))"

text \<open>Running the tool; waiting for it is deferred and its error is only logged.\<close>

definition backup_cmd :: "'w Env \<Rightarrow> string list \<Rightarrow> (ProcResult \<Rightarrow> 'a res) \<Rightarrow> ('w, 'a) op" where
  "backup_cmd env cmd parse = st (env_Proc env cmd) (\<lambda>r. case pr_start r of
      Some e \<Rightarrow> fail (wrap ''error starting cmd'' e)
    | None \<Rightarrow> (\<lambda>w. (parse r, w)))"

definition backups_ListVolumes :: "'w Env \<Rightarrow> backups \<Rightarrow> ('w, BackupVolumeInfo list) op" where
  "backups_ListVolumes env b =
     backup_cmd env [''longhorn'', ''backup'', ''ls'', ''--volume-only'', ba_BackupTarget b] parseBackupVolumesList"

definition backups_GetVolume :: "'w Env \<Rightarrow> backups \<Rightarrow> string \<Rightarrow> ('w, BackupVolumeInfo) op" where
  "backups_GetVolume env b volumeName =
     tryE (backup_cmd env [''longhorn'', ''backup'', ''ls'', ''--volume'', volumeName, ''--volume-only'', ba_BackupTarget b]
       parseBackupVolumesList) id (\<lambda>list. case list of
         [] \<Rightarrow> panic ''index out of range''
       | v # _ \<Rightarrow> ret v)"

definition backups_List :: "(json \<Rightarrow> gerr + BackupInfo) \<Rightarrow> 'w Env \<Rightarrow> backups \<Rightarrow> string \<Rightarrow> ('w, BackupInfo list) op" where
  "backups_List decode env b volumeName =
     (if volumeName = [] then ret []
      else backup_cmd env [''longhorn'', ''backup'', ''ls'', ''--volume'', volumeName, ba_BackupTarget b]
        (\<lambda>r. parseBackupsList decode r volumeName))"

definition backups_Get :: "(json \<Rightarrow> gerr + BackupInfo) \<Rightarrow> 'w Env \<Rightarrow> backups \<Rightarrow> string \<Rightarrow> ('w, BackupInfo option) op" where
  "backups_Get decode env b url = backup_cmd env [''longhorn'', ''backup'', ''inspect'', url] (parseOneBackup decode)"

definition backups_Delete :: "'w Env \<Rightarrow> backups \<Rightarrow> string \<Rightarrow> ('w, unit) op" where
  "backups_Delete env b url = st (env_Proc env [''longhorn'', ''backup'', ''rm'', url]) (\<lambda>r.
     let (out, err) = (case pr_start r of Some e \<Rightarrow> ([], Some e) | None \<Rightarrow> (pr_stdout r, pr_wait r))
     in case err of
          None \<Rightarrow> ret ()
        | Some e \<Rightarrow> if cannot_find out then ret ()
            else fail (wrap (''Error deleting backup: '' @ (if pr_start r = None then pr_stderr r else [])) e))"

definition backups_ops :: "(json \<Rightarrow> gerr + BackupInfo) \<Rightarrow> 'w Env \<Rightarrow> string \<Rightarrow> 'w ManagerBackupOps" where
  "backups_ops decode env backupTarget = (let b = Backups_New backupTarget in
     \<lparr>mb_List = backups_List decode env b, mb_Get = backups_Get decode env b, mb_Delete = backups_Delete env b,
      mb_ListVolumes = backups_ListVolumes env b, mb_GetVolume = backups_GetVolume env b\<rparr>)"

end
