(* ===== verification/Cron.thy ===== *)
theory Cron
  imports Backups "HOL-Library.Char_ord" "HOL-Library.List_Lexorder"
begin

text \<open>
  \<open>manager/cron.go\<close>: the recurring jobs of a volume.  The scheduler of package \<open>cron\<close> is the
  list of what was added to it; whether it accepts a schedule is the parameter \<open>parse\<close> (None
  is no error).  A task keeps a count and a cache of what it created before; the clean-up loop
  that uses them is written three times in the source and once here (\<open>cleanup_loop\<close>), with the
  listing, the deletion and the step after the deletions as arguments.  Its outer loop may run
  forever, so it has a bound on the number of rounds and returns None when they are used up.
  Times of creation are compared as strings, and \<open>sort.Slice\<close>, which is not stable, is a stable sort here: each of its
  outcomes is that of the stable sort for some order of the listing, and the contracts leave that order open.
\<close>

section \<open>Jobs\<close>

abbreviation SnapshotTaskName :: string where "SnapshotTaskName \<equiv> ''snapshot''"
abbreviation BackupTaskName :: string where "BackupTaskName \<equiv> ''backup''"
abbreviation JobName :: string where "JobName \<equiv> ''job''"
abbreviation BackupJob :: string where "BackupJob \<equiv> ''backupJob''"
abbreviation retainBackupSnapshots :: int where "retainBackupSnapshots \<equiv> 2"

datatype cronTask = SnapshotTask RecurringJob | BackupTask RecurringJob string

text \<open>The constructors of the tasks by name; \<open>BackupTask\<close> dereferences the settings.\<close>

definition tasks :: "(RecurringJob \<Rightarrow> SettingsInfo option \<Rightarrow> cronTask res) gomap" where
  "tasks = [(SnapshotTaskName, \<lambda>job _. Ok (SnapshotTask job)),
            (BackupTaskName, \<lambda>job si. case si of
               None \<Rightarrow> Panic ''nil pointer dereference''
             | Some s \<Rightarrow> Ok (BackupTask job (s_BackupTarget s)))]"

record 'w jobRunner =
  jr_volume :: VolumeInfo
  jr_ctrl :: "'w Controller"
  jr_GetSettings :: "('w, SettingsInfo option) op"

datatype event = cronUpdate "RecurringJob list" | TimeEvent

definition CronUpdate :: "RecurringJob list \<Rightarrow> event" where
  "CronUpdate jobs = cronUpdate jobs"

fun ValidateJobs :: "(string \<Rightarrow> gerr option) \<Rightarrow> RecurringJob list \<Rightarrow> gerr option" where
  "ValidateJobs parse [] = None"
| "ValidateJobs parse (j # js) =
     (if map_of tasks (j_Task j) \<noteq> None then
        if TrimSpace (j_Name j) \<noteq> j_Name j \<or> j_Name j = []
        then Some (Errorf (''job name cannot be empty, start or end with whitespace: '' @ j_Name j))
        else if map_of tasks (j_Task j) = None then Some (Errorf (''invalid task '' @ j_Task j))
        else (case parse (j_Cron j) of
            Some e \<Rightarrow> Some (wrap ''cron job validation error'' e)
          | None \<Rightarrow> ValidateJobs parse js)
      else ValidateJobs parse js)"

text \<open>The entries of the scheduler; the error of an entry it does not accept is dropped.\<close>

fun setJobs_loop :: "(string \<Rightarrow> gerr option) \<Rightarrow> SettingsInfo option \<Rightarrow> RecurringJob list \<Rightarrow> (string \<times> cronTask) list \<Rightarrow>
    (string \<times> cronTask) list res" where
  "setJobs_loop parse si [] c = Ok c"
| "setJobs_loop parse si (job # jobs) c = (case map_of tasks (j_Task job) of
      None \<Rightarrow> setJobs_loop parse si jobs c
    | Some t \<Rightarrow> (case t job si of
        Ok task \<Rightarrow> setJobs_loop parse si jobs (if parse (j_Cron job) = None then c @ [(j_Cron job, task)] else c)
      | Err e \<Rightarrow> Err e
      | Panic m \<Rightarrow> Panic m))"

text \<open>None is the nil scheduler.\<close>

definition setJobs :: "(string \<Rightarrow> gerr option) \<Rightarrow> 'w jobRunner \<Rightarrow> RecurringJob list \<Rightarrow> ('w, (string \<times> cronTask) list option) op" where
  "setJobs parse runner jobs = attempt (jr_GetSettings runner) (\<lambda>r. case r of
      Inl e \<Rightarrow> ret None
    | Inr si \<Rightarrow> (case setJobs_loop parse si jobs [] of
        Ok c \<Rightarrow> ret (Some c)
      | Err e \<Rightarrow> fail e
      | Panic m \<Rightarrow> panic m))"

text \<open>The goroutine \<open>RunJobs\<close>: the running scheduler, or None once it has returned.  It serves
  the events that arrive until the channel is closed.\<close>

definition RunJobs_start :: "(string \<Rightarrow> gerr option) \<Rightarrow> 'w jobRunner \<Rightarrow> ('w, (string \<times> cronTask) list option) op" where
  "RunJobs_start parse runner =
     setJobs parse runner (case v_RecurringJobs (jr_volume runner) of None \<Rightarrow> [] | Some jobs \<Rightarrow> jobs)"

fun RunJobs_event :: "(string \<Rightarrow> gerr option) \<Rightarrow> 'w jobRunner \<Rightarrow> event \<Rightarrow> (string \<times> cronTask) list \<Rightarrow>
    ('w, (string \<times> cronTask) list option) op" where
  "RunJobs_event parse runner (cronUpdate jobs) c = setJobs parse runner jobs"
| "RunJobs_event parse runner TimeEvent c = ret (Some c)"

fun RunJobs_loop :: "(string \<Rightarrow> gerr option) \<Rightarrow> 'w jobRunner \<Rightarrow> event list \<Rightarrow> (string \<times> cronTask) list option \<Rightarrow>
    ('w, (string \<times> cronTask) list option) op" where
  "RunJobs_loop parse runner es None = ret None"
| "RunJobs_loop parse runner [] (Some c) = ret (Some c)"
| "RunJobs_loop parse runner (e # es) (Some c) = tryE (RunJobs_event parse runner e c) id (RunJobs_loop parse runner es)"

definition RunJobs :: "(string \<Rightarrow> gerr option) \<Rightarrow> 'w jobRunner \<Rightarrow> event list \<Rightarrow> ('w, (string \<times> cronTask) list option) op" where
  "RunJobs parse runner es = tryE (RunJobs_start parse runner) id (RunJobs_loop parse runner es)"

definition snapName :: "'w Env \<Rightarrow> string \<Rightarrow> (string \<Rightarrow> ('w, 'a) op) \<Rightarrow> ('w, 'a) op" where
  "snapName env name k = st (env_Now env) (\<lambda>t. RandomID env (\<lambda>i. k (name @ ''-'' @ FormatTimeZ t @ ''-'' @ i)))"

section \<open>The clean-up loop\<close>

record 'x cache =
  ca_count :: int
  ca_cached :: "'x list option"

definition new_cache :: "'x cache" where
  "new_cache = \<lparr>ca_count = 0, ca_cached = None\<rparr>"

text \<open>An operation of the world beside a task's cache, and an update of the cache.\<close>

definition outside :: "('w, 'a) op \<Rightarrow> ('c \<times> 'w, 'a) op" where
  "outside m cw = (let (r, w') = m (snd cw) in (r, (fst cw, w')))"

definition update_cache :: "('c \<Rightarrow> 'c) \<Rightarrow> ('c \<times> 'w, unit) op" where
  "update_cache f cw = (Ok (), (f (fst cw), snd cw))"

fun remove_old :: "int \<Rightarrow> ('x \<Rightarrow> ('w, unit) op) \<Rightarrow> 'x list \<Rightarrow> ('x cache \<times> 'w, unit) op" where
  "remove_old retain del [] = ret ()"
| "remove_old retain del (x # xs) = (\<lambda>cw.
     if ca_count (fst cw) > retain
     then tryE (outside (del x)) id (\<lambda>_. tryE (update_cache (\<lambda>c. \<lparr>ca_count = ca_count c - 1, ca_cached = Some xs\<rparr>)) id (\<lambda>_.
       remove_old retain del xs)) cw
     else ret () cw)"

definition cache_list :: "'x cache \<Rightarrow> 'x list" where
  "cache_list c = (case ca_cached c of None \<Rightarrow> [] | Some xs \<Rightarrow> xs)"

definition cleanup_round :: "int \<Rightarrow> ('w, 'x list) op \<Rightarrow> ('x \<Rightarrow> ('w, unit) op) \<Rightarrow> ('w, unit) op \<Rightarrow> ('x cache \<times> 'w, unit) op" where
  "cleanup_round retain listing del after =
     tryE (\<lambda>cw. if cache_list (fst cw) = []
               then tryE (outside listing) id (\<lambda>xs. update_cache (\<lambda>c. \<lparr>ca_count = int (length xs), ca_cached = Some xs\<rparr>)) cw
               else ret () cw) id (\<lambda>_.
     tryE (\<lambda>cw. remove_old retain del (cache_list (fst cw)) cw) id (\<lambda>_. outside after))"

fun cleanup_loop :: "nat \<Rightarrow> int \<Rightarrow> ('w, 'x list) op \<Rightarrow> ('x \<Rightarrow> ('w, unit) op) \<Rightarrow> ('w, unit) op \<Rightarrow>
    'x cache \<times> 'w \<Rightarrow> (unit res \<times> 'x cache \<times> 'w) option" where
  "cleanup_loop 0 retain listing del after cw = None"
| "cleanup_loop (Suc n) retain listing del after cw =
     (if ca_cached (fst cw) = None \<or> ca_count (fst cw) > retain
      then (case cleanup_round retain listing del after cw of
          (Ok _, cw') \<Rightarrow> cleanup_loop n retain listing del after cw'
        | (r, cw') \<Rightarrow> Some (r, cw'))
      else Some (Ok (), cw))"

definition counted :: "'x cache \<times> 'w \<Rightarrow> 'x cache \<times> 'w" where
  "counted cw = ((fst cw)\<lparr>ca_count := ca_count (fst cw) + 1\<rparr>, snd cw)"

section \<open>Snapshot tasks\<close>

text \<open>The list has pointers: a nil one is dereferenced.\<close>

fun keep_snapshots :: "(SnapshotInfo \<Rightarrow> bool) \<Rightarrow> SnapshotInfo option list \<Rightarrow> SnapshotInfo list \<Rightarrow> SnapshotInfo list res" where
  "keep_snapshots P [] r = Ok r"
| "keep_snapshots P (None # l) r = Panic ''nil pointer dereference''"
| "keep_snapshots P (Some s # l) r = keep_snapshots P l (if P s then r @ [s] else r)"

definition label_is :: "SnapshotInfo \<Rightarrow> string \<Rightarrow> string \<Rightarrow> bool" where
  "label_is s k v = ((case map_of (sn_Labels s) k of None \<Rightarrow> [] | Some l \<Rightarrow> l) = v)"

definition snapshotTask_filterSnapshots :: "RecurringJob \<Rightarrow> SnapshotInfo option list \<Rightarrow> SnapshotInfo list res" where
  "snapshotTask_filterSnapshots job l = keep_snapshots (\<lambda>s. \<not> sn_Removed s \<and> label_is s JobName (j_Name job)) l []"

definition list_sorted :: "'w Controller \<Rightarrow> (SnapshotInfo option list \<Rightarrow> SnapshotInfo list res) \<Rightarrow> ('w, SnapshotInfo list) op" where
  "list_sorted ctrl filter_f = tryE (ct_List ctrl) (wrap ''error listing snapshots'') (\<lambda>ss. case filter_f ss of
      Ok ss \<Rightarrow> ret (sort_key sn_Created ss)
    | Err e \<Rightarrow> fail e
    | Panic m \<Rightarrow> panic m)"

definition snapshotTask_listSnapshots :: "'w jobRunner \<Rightarrow> RecurringJob \<Rightarrow> ('w, SnapshotInfo list) op" where
  "snapshotTask_listSnapshots runner job = list_sorted (jr_ctrl runner) (snapshotTask_filterSnapshots job)"

definition snapshotTask_cleanup :: "nat \<Rightarrow> 'w jobRunner \<Rightarrow> RecurringJob \<Rightarrow> SnapshotInfo cache \<times> 'w \<Rightarrow>
    (unit res \<times> SnapshotInfo cache \<times> 'w) option" where
  "snapshotTask_cleanup n runner job cw =
     (if j_Retain job = 0 then Some (Ok (), cw)
      else cleanup_loop n (j_Retain job)
        (tryE (snapshotTask_listSnapshots runner job) (wrap ''error cleaning up snapshots'') ret)
        (\<lambda>toRm. tryE (ct_Delete (jr_ctrl runner) (sn_Name toRm)) (wrap (''deleting snapshot '' @ sn_Name toRm)) ret)
        (tryE (ct_Purge (jr_ctrl runner)) (wrap ''fail to purge snapshots'') ret) (counted cw))"

definition snapshotTask_Run :: "nat \<Rightarrow> 'w Env \<Rightarrow> 'w jobRunner \<Rightarrow> RecurringJob \<Rightarrow> SnapshotInfo cache \<times> 'w \<Rightarrow>
    (unit res \<times> SnapshotInfo cache \<times> 'w) option" where
  "snapshotTask_Run n env runner job cw =
     (case outside (snapName env (j_Name job) (\<lambda>name.
         tryE (ct_Create (jr_ctrl runner) name [(JobName, j_Name job)])
           (wrap (''error running recurring job: snapshot '' @ name)) ret)) cw of
        (Ok _, cw') \<Rightarrow> snapshotTask_cleanup n runner job cw'
      | (Err e, cw') \<Rightarrow> Some (Err e, cw')
      | (Panic m, cw') \<Rightarrow> Some (Panic m, cw'))"

section \<open>Backup tasks\<close>

definition backupTask_filterSnapshots :: "RecurringJob \<Rightarrow> SnapshotInfo option list \<Rightarrow> SnapshotInfo list res" where
  "backupTask_filterSnapshots job l = keep_snapshots
     (\<lambda>s. \<not> sn_Removed s \<and> label_is s JobName (j_Name job) \<and> label_is s BackupJob (j_Name job)) l []"

definition filterBackups :: "RecurringJob \<Rightarrow> BackupInfo list \<Rightarrow> BackupInfo list" where
  "filterBackups job l = filter (\<lambda>b. HasPrefix (bk_SnapshotName b) (j_Name job @ ''-'')) l"

definition backupTask_listSnapshots :: "'w jobRunner \<Rightarrow> RecurringJob \<Rightarrow> ('w, SnapshotInfo list) op" where
  "backupTask_listSnapshots runner job = list_sorted (jr_ctrl runner) (backupTask_filterSnapshots job)"

definition listBackups :: "(string \<Rightarrow> 'w ManagerBackupOps) \<Rightarrow> 'w jobRunner \<Rightarrow> RecurringJob \<Rightarrow> string \<Rightarrow> ('w, BackupInfo list) op" where
  "listBackups newBackups runner job backupTarget =
     tryE (mb_List (newBackups backupTarget) (v_Name (jr_volume runner))) (wrap ''error listing backups'') (\<lambda>bs.
     ret (sort_key bk_Created (filterBackups job bs)))"

definition cleanupBackups :: "nat \<Rightarrow> (string \<Rightarrow> 'w ManagerBackupOps) \<Rightarrow> 'w jobRunner \<Rightarrow> RecurringJob \<Rightarrow> string \<Rightarrow>
    BackupInfo cache \<times> 'w \<Rightarrow> (unit res \<times> BackupInfo cache \<times> 'w) option" where
  "cleanupBackups n newBackups runner job backupTarget cw =
     (if j_Retain job = 0 then Some (Ok (), cw)
      else cleanup_loop n (j_Retain job)
        (tryE (listBackups newBackups runner job backupTarget) (wrap ''error cleaning up snapshots'') ret)
        (\<lambda>toRm. tryE (ct_DeleteBackup (jr_ctrl runner) (bk_URL toRm)) (wrap (''deleting backup '' @ bk_Name toRm)) ret)
        (ret ()) (counted cw))"

definition cleanupBackupSnapshots :: "nat \<Rightarrow> 'w jobRunner \<Rightarrow> RecurringJob \<Rightarrow>
    SnapshotInfo cache \<times> 'w \<Rightarrow> (unit res \<times> SnapshotInfo cache \<times> 'w) option" where
  "cleanupBackupSnapshots n runner job cw =
     cleanup_loop n retainBackupSnapshots
       (tryE (backupTask_listSnapshots runner job) (wrap ''error cleaning up snapshots'') ret)
       (\<lambda>toRm. tryE (ct_Delete (jr_ctrl runner) (sn_Name toRm)) (wrap (''deleting snapshot '' @ sn_Name toRm)) ret)
       (ret ()) (counted cw)"

record backupTask =
  bt_backups :: "BackupInfo cache"
  bt_snapshots :: "SnapshotInfo cache"

definition backupTask_cleanup :: "nat \<Rightarrow> (string \<Rightarrow> 'w ManagerBackupOps) \<Rightarrow> 'w jobRunner \<Rightarrow> RecurringJob \<Rightarrow> string \<Rightarrow>
    backupTask \<times> 'w \<Rightarrow> (unit res \<times> backupTask \<times> 'w) option" where
  "backupTask_cleanup n newBackups runner job backupTarget bw =
     (case cleanupBackupSnapshots n runner job (bt_snapshots (fst bw), snd bw) of
        None \<Rightarrow> None
      | Some (Panic m, c, w) \<Rightarrow> Some (Panic m, (fst bw)\<lparr>bt_snapshots := c\<rparr>, w)
      | Some (_, c, w) \<Rightarrow> (case cleanupBackups n newBackups runner job backupTarget (bt_backups (fst bw), w) of
          None \<Rightarrow> None
        | Some (r, c', w') \<Rightarrow> Some (r, \<lparr>bt_backups = c', bt_snapshots = c\<rparr>, w')))"

text \<open>\<open>hook\<close> is the method value \<open>bt.cleanup\<close>.  The task is put into the queue as a value.\<close>

definition backupTask_Run :: "'w Env \<Rightarrow> 'w jobRunner \<Rightarrow> RecurringJob \<Rightarrow> string \<Rightarrow> ('w, unit) op \<Rightarrow> ('w, unit) op" where
  "backupTask_Run env runner job backupTarget hook = snapName env (j_Name job) (\<lambda>name.
     tryE (ct_Create (jr_ctrl runner) name [(JobName, j_Name job), (BackupJob, j_Name job)])
       (wrap (''error creating snapshot for recurring backup '' @ name)) (\<lambda>_.
     ct_Put (jr_ctrl runner) \<lparr>bt_Num = 0, bt_Err = None, bt_Finished = [], bt_Started = [], bt_Submitted = [],
       bt_Task = BackupVal \<lparr>bb_Snapshot = name, bb_BackupTarget = backupTarget, bb_CleanupHook = Some hook\<rparr>\<rparr>))"

end
