(* ===== verification/Manager.thy ===== *)
theory Manager
  imports Cron
begin

text \<open>
  \<open>manager/manager.go\<close> and \<open>errs.go\<close>: the volume manager.  \<open>volumeManager\<close> holds what the
  struct is made with (the orchestrator, the monitor's constructor, the controllers and the
  backups); what changes is the state \<open>man\<close>: the monitors by volume, the counters of the replicas
  that are being added, the goroutines that add them, and the world outside.  A method that
  changes the volume it is given returns the changed volume.  A group of goroutines that is
  waited for runs in the order of the list it was started from (\<open>collectE\<close>); the goroutine of
  \<open>createAndAddReplicaToController\<close>, which is not waited for, is put on the list \<open>ms_bg\<close> and
  run later by \<open>bg_begin\<close> and \<open>bg_end\<close>.
\<close>

section \<open>State\<close>

text \<open>A monitor is made for a volume, closed, and sent a change of the recurring jobs.\<close>

record ('w, 'm) MonitorOps =
  mo_Begin :: "VolumeInfo \<Rightarrow> 'w \<Rightarrow> 'm \<times> 'w"
  mo_Close :: "'m \<Rightarrow> 'w \<Rightarrow> 'w"
  mo_Send :: "'m \<Rightarrow> event \<Rightarrow> ('w, unit) op"

record ('w, 'm) volumeManager =
  vm_orc :: "'w Orchestrator"
  vm_monitor :: "('w, 'm) MonitorOps"
  vm_getController :: "VolumeInfo option \<Rightarrow> 'w \<Rightarrow> 'w Controller option \<times> 'w"
  vm_getBackups :: "string \<Rightarrow> 'w ManagerBackupOps"
  vm_env :: "'w Env"
  vm_cron :: "string \<Rightarrow> gerr option"

record 'w addJob =
  aj_volume :: string
  aj_ctrl :: "'w Controller"
  aj_replica :: ReplicaInfo
  aj_begun :: bool

record ('w, 'm) man =
  ms_monitors :: "'m gomap"
  ms_addingReplicas :: "int gomap"
  ms_bg :: "'w addJob list"
  ms_w :: 'w

definition Manager_New :: "'w \<Rightarrow> ('w, 'm) man" where
  "Manager_New w = \<lparr>ms_monitors = [], ms_addingReplicas = [], ms_bg = [], ms_w = w\<rparr>"

text \<open>Operations of the world outside.\<close>

definition io :: "('w, 'a) op \<Rightarrow> (('w, 'm) man, 'a) op" where
  "io m s = (let (r, w') = m (ms_w s) in (r, s\<lparr>ms_w := w'\<rparr>))"

definition iost :: "('w \<Rightarrow> 'a \<times> 'w) \<Rightarrow> (('w, 'm) man \<Rightarrow> 'a \<times> ('w, 'm) man)" where
  "iost f s = (let (a, w') = f (ms_w s) in (a, s\<lparr>ms_w := w'\<rparr>))"

section \<open>errs.go\<close>

definition NewControllerError :: "gerr \<Rightarrow> gerr" where
  "NewControllerError e = ctrlErr e"

section \<open>Names\<close>

definition GetControllerName :: "string \<Rightarrow> string" where
  "GetControllerName volumeName = volumeName @ ''-controller''"

definition GetReplicaName :: "('w, 'm) volumeManager \<Rightarrow> string \<Rightarrow> ('w, string) op" where
  "GetReplicaName man volumeName = RandomID (vm_env man) (\<lambda>i. ret (volumeName @ ''-replica-'' @ i))"

section \<open>State of a volume\<close>

definition goodReplicaCount :: "VolumeInfo \<Rightarrow> nat" where
  "goodReplicaCount volume = length (filter (\<lambda>(k, r). r_BadTimestamp r = []) (replicas_of volume))"

definition volumeState :: "VolumeInfo \<Rightarrow> string" where
  "volumeState volume =
     (if goodReplicaCount volume = 0 then VolumeStateFaulted
      else if v_Controller volume = None then VolumeStateDetached
      else if int (goodReplicaCount volume) = v_NumberOfReplicas volume then VolumeStateHealthy
      else VolumeStateDegraded)"

definition controller_running :: "VolumeInfo \<Rightarrow> bool" where
  "controller_running volume = (case v_Controller volume of None \<Rightarrow> False | Some c \<Rightarrow> i_Running (c_InstanceInfo c))"

definition completeVolumeState :: "('w, 'm) volumeManager \<Rightarrow> VolumeInfo \<Rightarrow> (('w, 'm) man, VolumeInfo) op" where
  "completeVolumeState man vol =
     (let vol = vol\<lparr>v_State := volumeState vol, v_Endpoint := []\<rparr> in
      if controller_running vol
      then st (iost (vm_getController man (Some vol))) (\<lambda>c. case c of
          None \<Rightarrow> panic ''nil pointer dereference''
        | Some ctrl \<Rightarrow> tryE (io (ct_Endpoint ctrl)) id (\<lambda>e. ret (vol\<lparr>v_Endpoint := e\<rparr>)))
      else ret vol)"

definition Manager_Get :: "('w, 'm) volumeManager \<Rightarrow> string \<Rightarrow> (('w, 'm) man, VolumeInfo option) op" where
  "Manager_Get man name =
     tryE (io (orc_GetVolume (vm_orc man) name)) (wrap (''failed to get volume '' @ name)) (\<lambda>vol. case vol of
       None \<Rightarrow> ret None
     | Some vol \<Rightarrow> tryE (completeVolumeState man vol) id (\<lambda>vol. ret (Some vol)))"

fun complete_all :: "('w, 'm) volumeManager \<Rightarrow> VolumeInfo list \<Rightarrow> (('w, 'm) man, VolumeInfo list) op" where
  "complete_all man [] = ret []"
| "complete_all man (v # vs) = tryE (completeVolumeState man v) id (\<lambda>v. tryE (complete_all man vs) id (\<lambda>vs. ret (v # vs)))"

definition Manager_List :: "('w, 'm) volumeManager \<Rightarrow> (('w, 'm) man, VolumeInfo list) op" where
  "Manager_List man = tryE (io (orc_ListVolumes (vm_orc man))) id (complete_all man)"

section \<open>Monitors\<close>

definition startMonitoring :: "('w, 'm) volumeManager \<Rightarrow> VolumeInfo \<Rightarrow> (('w, 'm) man, unit) op" where
  "startMonitoring man volume s =
     (if map_of (ms_monitors s) (v_Name volume) = None
      then (let (m, w') = mo_Begin (vm_monitor man) volume (ms_w s)
            in (Ok (), s\<lparr>ms_monitors := AList.update (v_Name volume) m (ms_monitors s), ms_w := w'\<rparr>))
      else (Ok (), s))"

definition updateCron :: "('w, 'm) volumeManager \<Rightarrow> VolumeInfo \<Rightarrow> RecurringJob list \<Rightarrow> (('w, 'm) man, unit) op" where
  "updateCron man volume jobs s = (case map_of (ms_monitors s) (v_Name volume) of
      None \<Rightarrow> (Ok (), s)
    | Some m \<Rightarrow> io (mo_Send (vm_monitor man) m (CronUpdate jobs)) s)"

definition stopMonitoring :: "('w, 'm) volumeManager \<Rightarrow> VolumeInfo \<Rightarrow> (('w, 'm) man, unit) op" where
  "stopMonitoring man volume s = (case map_of (ms_monitors s) (v_Name volume) of
      None \<Rightarrow> (Ok (), s)
    | Some m \<Rightarrow> (Ok (), s\<lparr>ms_w := mo_Close (vm_monitor man) m (ms_w s),
        ms_monitors := AList.delete (v_Name volume) (ms_monitors s)\<rparr>))"

definition controller_here :: "('w, 'm) volumeManager \<Rightarrow> VolumeInfo \<Rightarrow> bool" where
  "controller_here man volume = (case v_Controller volume of
      None \<Rightarrow> False
    | Some c \<Rightarrow> i_Running (c_InstanceInfo c) \<and> i_HostID (c_InstanceInfo c) = orc_GetCurrentHostID (vm_orc man))"

definition Manager_Start :: "('w, 'm) volumeManager \<Rightarrow> (('w, 'm) man, unit) op" where
  "Manager_Start man = tryE (Manager_List man) id
     (forE (\<lambda>v. if controller_here man v then startMonitoring man v else ret ()))"

section \<open>Detach\<close>

text \<open>Goroutines that report their errors: the errors together, or nothing.\<close>

definition together :: "('a \<Rightarrow> ('s, 'b) op) \<Rightarrow> 'a list \<Rightarrow> ('s, unit) op" where
  "together f xs = tryE (collectE f xs) id (\<lambda>errs. if errs = [] then ret () else fail (Errs errs))"

definition stop_replica :: "('w, 'm) volumeManager \<Rightarrow> ReplicaInfo \<Rightarrow> (('w, 'm) man, InstanceInfo) op" where
  "stop_replica man replica = tryE (io (orc_StopInstance (vm_orc man) (r_InstanceInfo replica)))
     (wrap (''failed to stop replica '' @ i_Name (r_InstanceInfo replica))) ret"

definition doDetach :: "('w, 'm) volumeManager \<Rightarrow> VolumeInfo \<Rightarrow> (('w, 'm) man, VolumeInfo) op" where
  "doDetach man volume =
     tryE (stopMonitoring man volume) id (\<lambda>_.
     tryE (case v_Controller volume of
             Some c \<Rightarrow> if i_Running (c_InstanceInfo c)
               then tryE (io (orc_StopInstance (vm_orc man) (c_InstanceInfo c)))
                 (wrap (''error stopping the controller id='' @ i_ID (c_InstanceInfo c))) (\<lambda>_. ret ())
               else ret ()
           | None \<Rightarrow> ret ()) id (\<lambda>_.
     tryE (together (\<lambda>(k, r). stop_replica man r) (replicas_of volume)) id (\<lambda>_.
     (case v_Controller volume of
        None \<Rightarrow> ret volume
      | Some c \<Rightarrow> tryE (io (orc_RemoveInstance (vm_orc man) (c_InstanceInfo c)))
          (wrap (''error removing the controller id='' @ i_ID (c_InstanceInfo c))) (\<lambda>_. ret (volume\<lparr>v_Controller := None\<rparr>))))))"

definition Detach :: "('w, 'm) volumeManager \<Rightarrow> string \<Rightarrow> (('w, 'm) man, unit) op" where
  "Detach man name = tryE (Manager_Get man name) id (\<lambda>v. case v of
      None \<Rightarrow> ret ()
    | Some volume \<Rightarrow> tryE (doDetach man volume) id (\<lambda>_. ret ()))"

section \<open>Attach\<close>

text \<open>
  The loop over the replicas: the running ones are stopped (\<open>stops\<close>), the good ones are
  collected (\<open>replicas\<close>), and of the bad ones the most recent is remembered.  None is the
  panic of reading the time stamp of the remembered replica when there is none yet; the
  goroutines started before it are the replicas of the first component.
\<close>

fun attach_scan :: "ReplicaInfo gomap \<Rightarrow> ReplicaInfo list \<Rightarrow> ReplicaInfo gomap \<Rightarrow> (string \<times> ReplicaInfo) option \<Rightarrow>
    ReplicaInfo list \<times> (ReplicaInfo gomap \<times> (string \<times> ReplicaInfo) option) option" where
  "attach_scan [] stops replicas recent = (stops, Some (replicas, recent))"
| "attach_scan ((k, r) # rs) stops replicas recent =
     (let stops = (if i_Running (r_InstanceInfo r) then stops @ [r] else stops) in
      if r_BadTimestamp r = [] then attach_scan rs stops (AList.update k r replicas) recent
      else (case ParseTime (r_BadTimestamp r) of
          Inl _ \<Rightarrow> attach_scan rs stops replicas recent
        | Inr replicaBadTime \<Rightarrow> (case recent of
            None \<Rightarrow> (stops, None)
          | Some (_, rb) \<Rightarrow> (case ParseTime (r_BadTimestamp rb) of
              Inl _ \<Rightarrow> attach_scan rs stops replicas recent
            | Inr recentBadTime \<Rightarrow>
                attach_scan rs stops replicas (if replicaBadTime > recentBadTime then Some (k, r) else recent)))))"

definition start_replica :: "('w, 'm) volumeManager \<Rightarrow> ReplicaInfo \<Rightarrow> (('w, 'm) man, InstanceInfo) op" where
  "start_replica man replica = tryE (io (orc_StartInstance (vm_orc man) (r_InstanceInfo replica)))
     (wrap (''failed to start replica '' @ i_Name (r_InstanceInfo replica))) ret"

text \<open>From the replicas to the running controller.\<close>

definition attach_start :: "('w, 'm) volumeManager \<Rightarrow> VolumeInfo \<Rightarrow> ReplicaInfo gomap \<Rightarrow> (('w, 'm) man, VolumeInfo) op" where
  "attach_start man volume replicas =
     tryE (together (\<lambda>(k, r). start_replica man r) replicas) id (\<lambda>_.
     tryE (io (orc_CreateController (vm_orc man) (v_Name volume) (GetControllerName (v_Name volume)) replicas))
       (wrap (''failed to start the controller for volume '' @ v_Name volume)) (\<lambda>c.
     let volume = volume\<lparr>v_Controller := Some c\<rparr>
     in tryE (startMonitoring man volume) id (\<lambda>_. ret volume)))"

definition attach_replicas :: "('w, 'm) volumeManager \<Rightarrow> VolumeInfo \<Rightarrow> (('w, 'm) man, VolumeInfo) op" where
  "attach_replicas man volume = (case attach_scan (replicas_of volume) [] [] None of
      (stops, None) \<Rightarrow> tryE (collectE (stop_replica man) stops) id (\<lambda>_. panic ''nil pointer dereference'')
    | (stops, Some (replicas, recent)) \<Rightarrow>
        tryE (together (stop_replica man) stops) id (\<lambda>_.
        let replicas = (case recent of
              Some (k, r) \<Rightarrow> if replicas = [] then [(k, r)] else replicas
            | None \<Rightarrow> replicas)
        in if replicas = [] then fail (Errorf (''no replicas to start the controller for volume '' @ v_Name volume))
           else attach_start man volume replicas))"

definition doAttach :: "('w, 'm) volumeManager \<Rightarrow> VolumeInfo \<Rightarrow> (('w, 'm) man, VolumeInfo) op" where
  "doAttach man volume =
     (if controller_here man volume then tryE (startMonitoring man volume) id (\<lambda>_. ret volume)
      else tryE (if v_Controller volume \<noteq> None
                 then tryE (Detach man (v_Name volume))
                   (wrap (''failed to detach before reattaching volume '' @ v_Name volume)) ret
                 else ret ()) id (\<lambda>_. attach_replicas man volume))"

definition Attach :: "('w, 'm) volumeManager \<Rightarrow> string \<Rightarrow> (('w, 'm) man, unit) op" where
  "Attach man name = tryE (Manager_Get man name) id (\<lambda>v. case v of
      None \<Rightarrow> panic ''nil pointer dereference''
    | Some volume \<Rightarrow> tryE (doAttach man volume) id (\<lambda>_. ret ()))"

section \<open>Create and delete\<close>

fun create_replicas :: "('w, 'm) volumeManager \<Rightarrow> string \<Rightarrow> nat \<Rightarrow> (('w, 'm) man, unit) op" where
  "create_replicas man volName 0 = ret ()"
| "create_replicas man volName (Suc n) =
     tryE (io (GetReplicaName man volName)) id (\<lambda>replicaName.
     tryE (io (orc_CreateReplica (vm_orc man) volName replicaName)) (wrap (''error creating replica '' @ replicaName)) (\<lambda>_.
     create_replicas man volName n))"

text \<open>The result of \<open>doCreate\<close> is what \<open>Get\<close> finds: nil when the volume is gone again.\<close>

definition doCreate :: "('w, 'm) volumeManager \<Rightarrow> VolumeInfo \<Rightarrow> (('w, 'm) man, VolumeInfo option) op" where
  "doCreate man volume = st (iost (Now (vm_env man))) (\<lambda>now.
     let volume = volume\<lparr>v_Created := now\<rparr> in
     tryE (io (orc_CreateVolume (vm_orc man) volume)) (wrap (''failed to create volume '' @ v_Name volume)) (\<lambda>vol.
     tryE (create_replicas man (v_Name vol) (nat (v_NumberOfReplicas vol))) id (\<lambda>_.
     Manager_Get man (v_Name volume))))"

definition Manager_Delete :: "('w, 'm) volumeManager \<Rightarrow> string \<Rightarrow> (('w, 'm) man, unit) op" where
  "Manager_Delete man name = tryE (Manager_Get man name) id (\<lambda>v. case v of
      None \<Rightarrow> ret ()
    | Some volume \<Rightarrow>
        tryE (doDetach man volume) (wrap (''error detaching for delete, volume '' @ v_Name volume)) (\<lambda>volume.
        tryE (forE (\<lambda>(k, r). tryE (io (orc_RemoveInstance (vm_orc man) (r_InstanceInfo r)))
               (wrap (''error removing replica container '' @ i_Name (r_InstanceInfo r))) (\<lambda>_. ret ())) (replicas_of volume)) id (\<lambda>_.
        tryE (io (orc_DeleteVolume (vm_orc man) name)) (wrap (''failed to delete volume '' @ name)) ret)))"

definition cleanupFailedCreate :: "('w, 'm) volumeManager \<Rightarrow> VolumeInfo \<Rightarrow> (('w, 'm) man, unit) op" where
  "cleanupFailedCreate man vol = attempt (Manager_Delete man (v_Name vol)) (\<lambda>_. ret ())"

text \<open>A step of the restoration that fails cleans up before its error is returned.\<close>

definition or_cleanup :: "('w, 'm) volumeManager \<Rightarrow> VolumeInfo \<Rightarrow> string \<Rightarrow> (('w, 'm) man, 'a) op \<Rightarrow> ('a \<Rightarrow> (('w, 'm) man, 'b) op) \<Rightarrow>
    (('w, 'm) man, 'b) op" where
  "or_cleanup man vol msg m k = attempt m (\<lambda>r. case r of
      Inl e \<Rightarrow> tryE (cleanupFailedCreate man vol) id (\<lambda>_. fail (wrap msg e))
    | Inr a \<Rightarrow> k a)"

definition createFromBackup :: "('w, 'm) volumeManager \<Rightarrow> VolumeInfo \<Rightarrow> BackupInfo option \<Rightarrow> (('w, 'm) man, VolumeInfo option) op" where
  "createFromBackup man volume backup = (case backup of
      None \<Rightarrow> panic ''nil pointer dereference''
    | Some backup \<Rightarrow> (case ParseInt (bk_VolumeSize backup) of
        Inl e \<Rightarrow> fail (wrap ''error parsing backup.VolumeSize'' e)
      | Inr sz \<Rightarrow>
          tryE (doCreate man (volume\<lparr>v_Size := word_of_int sz\<rparr>)) id (\<lambda>v. case v of
            None \<Rightarrow> panic ''nil pointer dereference''
          | Some vol \<Rightarrow>
              or_cleanup man vol ''failed to attach to restore the backup'' (doAttach man vol) (\<lambda>vol.
              st (iost (vm_getController man (Some vol))) (\<lambda>c. case c of
                None \<Rightarrow> panic ''nil pointer dereference''
              | Some ctrl \<Rightarrow>
                  or_cleanup man vol ''failed to restore the backup'' (io (ct_Restore ctrl (bk_URL backup))) (\<lambda>_.
                  or_cleanup man vol ''failed to detach after restoring the backup'' (doDetach man vol) (\<lambda>vol.
                  ret (Some vol))))))))"

definition Create :: "('w, 'm) volumeManager \<Rightarrow> VolumeInfo \<Rightarrow> (('w, 'm) man, VolumeInfo option) op" where
  "Create man volume = tryE (Manager_Get man (v_Name volume)) id (\<lambda>vol.
     if vol \<noteq> None then fail (Errorf (''volume '' @ v_Name volume @ '' already exists''))
     else attempt (io (orc_GetSettings (vm_orc man))) (\<lambda>r. case r of
       Inr (Some settings) \<Rightarrow>
         (let volume = (if v_EngineImage volume = [] then volume\<lparr>v_EngineImage := s_EngineImage settings\<rparr> else volume) in
          if v_EngineImage volume = [] then fail (Errorf ''create volume fail: No EngineImage specified'')
          else if v_FromBackup volume \<noteq> [] then
            (if s_BackupTarget settings = [] then fail (Errorf ''create volume fail: No BackupTarget specified'')
             else tryE (io (mb_Get (vm_getBackups man (s_BackupTarget settings)) (v_FromBackup volume)))
               (wrap (''error getting backup (to create volume) '' @ v_FromBackup volume)) (createFromBackup man volume))
          else doCreate man volume)
     | _ \<Rightarrow> fail (Errorf ''create volume fail: fail to load settings'')))"

section \<open>Adding replicas\<close>

definition adding :: "int gomap \<Rightarrow> string \<Rightarrow> int" where
  "adding m name = (case map_of m name of None \<Rightarrow> 0 | Some n \<Rightarrow> n)"

definition addingReplicasCount :: "string \<Rightarrow> int \<Rightarrow> ('w, 'm) man \<Rightarrow> int \<times> ('w, 'm) man" where
  "addingReplicasCount name add s =
     (let count = adding (ms_addingReplicas s) name + add
      in (count, s\<lparr>ms_addingReplicas := AList.update name count (ms_addingReplicas s)\<rparr>))"

definition createAndAddReplicaToController :: "('w, 'm) volumeManager \<Rightarrow> string \<Rightarrow> 'w Controller \<Rightarrow> (('w, 'm) man, unit) op" where
  "createAndAddReplicaToController man volumeName ctrl =
     tryE (io (GetReplicaName man volumeName)) id (\<lambda>replicaName.
     tryE (io (orc_CreateReplica (vm_orc man) volumeName replicaName))
       (wrap (''failed to create a replica for volume '' @ volumeName)) (\<lambda>r. case r of
         None \<Rightarrow> panic ''nil pointer dereference''
       | Some replica \<Rightarrow>
           tryE (io (orc_StartInstance (vm_orc man) (r_InstanceInfo replica)))
             (wrap (''failed to start replica '' @ i_Name (r_InstanceInfo replica))) (\<lambda>inst s.
           (Ok (), s\<lparr>ms_bg := ms_bg s @ [\<lparr>aj_volume = volumeName, aj_ctrl = ctrl,
              aj_replica = replica\<lparr>r_InstanceInfo := inst\<rparr>, aj_begun = False\<rparr>]\<rparr>))))"

text \<open>The goroutine: it counts itself in, adds the replica or removes it again, and counts
  itself out.\<close>

definition bg_begin :: "nat \<Rightarrow> ('w, 'm) man \<Rightarrow> ('w, 'm) man" where
  "bg_begin n s =
     (if n < length (ms_bg s) \<and> \<not> aj_begun (ms_bg s ! n)
      then (let (_, s') = addingReplicasCount (aj_volume (ms_bg s ! n)) 1 s
            in s'\<lparr>ms_bg := (ms_bg s)[n := (ms_bg s ! n)\<lparr>aj_begun := True\<rparr>]\<rparr>)
      else s)"

definition bg_add :: "('w, 'm) volumeManager \<Rightarrow> 'w addJob \<Rightarrow> (('w, 'm) man, unit) op" where
  "bg_add man j = attempt (io (ct_AddReplica (aj_ctrl j) (aj_replica j))) (\<lambda>r. case r of
      Inr _ \<Rightarrow> ret ()
    | Inl _ \<Rightarrow> attempt (io (orc_StopInstance (vm_orc man) (r_InstanceInfo (aj_replica j)))) (\<lambda>_.
        attempt (io (orc_RemoveInstance (vm_orc man) (r_InstanceInfo (aj_replica j)))) (\<lambda>_. ret ())))"

definition bg_end :: "('w, 'm) volumeManager \<Rightarrow> nat \<Rightarrow> (('w, 'm) man, unit) op" where
  "bg_end man n s =
     (if n < length (ms_bg s) \<and> aj_begun (ms_bg s ! n)
      then (let j = ms_bg s ! n; (r, s') = bg_add man j s; (_, s'') = addingReplicasCount (aj_volume j) (- 1) s'
            in (r, s''\<lparr>ms_bg := take n (ms_bg s'') @ drop (Suc n) (ms_bg s'')\<rparr>))
      else (Ok (), s))"

section \<open>Checks\<close>

definition remove_bad :: "('w, 'm) volumeManager \<Rightarrow> 'w Controller \<Rightarrow> VolumeInfo \<Rightarrow> ReplicaInfo \<Rightarrow> (('w, 'm) man, unit) op list" where
  "remove_bad man ctrl volume replica =
     [tryE (io (ct_RemoveReplica ctrl replica))
        (wrap (''failed to remove ERR replica '' @ i_Address (r_InstanceInfo replica))) ret,
      tryE (io (orc_MarkBadReplica (vm_orc man) (v_Name volume) replica))
        (wrap (''failed to mark replica bad '' @ i_Address (r_InstanceInfo replica))) ret]"

definition with_mode :: "string \<Rightarrow> ReplicaInfo list \<Rightarrow> ReplicaInfo list" where
  "with_mode m rs = filter (\<lambda>r. r_Mode r = m) rs"

definition CheckController :: "('w, 'm) volumeManager \<Rightarrow> 'w Controller \<Rightarrow> VolumeInfo \<Rightarrow> (('w, 'm) man, unit) op" where
  "CheckController man ctrl volume =
     tryE (io (ct_GetReplicaStates ctrl)) NewControllerError (\<lambda>replicas.
     let goodReplicas = with_mode ReplicaModeRW replicas;
         woReplicas = with_mode ReplicaModeWO replicas
     in tryE (together (\<lambda>m. m) (concat (map (remove_bad man ctrl volume) (with_mode ReplicaModeERR replicas)))) id (\<lambda>_.
        if goodReplicas = [] then Detach man (v_Name volume)
        else st (addingReplicasCount (v_Name volume) 0) (\<lambda>addingReplicas.
          if int (length goodReplicas) < v_NumberOfReplicas volume \<and> woReplicas = [] \<and> addingReplicas = 0
          then createAndAddReplicaToController man (v_Name volume) ctrl
          else ret ())))"

abbreviation KeepBadReplicasPeriod :: int where "KeepBadReplicasPeriod \<equiv> 2 * 60 * Minute"

definition cleanup_bad :: "('w, 'm) volumeManager \<Rightarrow> int \<Rightarrow> ReplicaInfo \<Rightarrow> (('w, 'm) man, unit) op list" where
  "cleanup_bad man now replica =
     (if r_BadTimestamp replica = [] then []
      else (if i_Running (r_InstanceInfo replica)
            then [tryE (io (orc_StopInstance (vm_orc man) (r_InstanceInfo replica)))
                    (wrap (''error stopping bad replica '' @ i_Name (r_InstanceInfo replica))) (\<lambda>_. ret ())] else []) @
           (case ParseTime (r_BadTimestamp replica) of
              Inl e \<Rightarrow> [fail (wrap (''fail to parse bad timestamp '' @ r_BadTimestamp replica) (Ext (LayoutElem e)))]
            | Inr badTime \<Rightarrow>
                if badTime + KeepBadReplicasPeriod < now
                then [tryE (io (orc_RemoveInstance (vm_orc man) (r_InstanceInfo replica)))
                        (wrap (''error removing old bad replica '' @ i_Name (r_InstanceInfo replica))) (\<lambda>_. ret ())]
                else []))"

definition Cleanup :: "('w, 'm) volumeManager \<Rightarrow> VolumeInfo \<Rightarrow> (('w, 'm) man, unit) op" where
  "Cleanup man v = tryE (Manager_Get man (v_Name v)) (wrap (''error getting volume '' @ v_Name v)) (\<lambda>vol. case vol of
      None \<Rightarrow> ret ()
    | Some volume \<Rightarrow> st (iost (env_Now (vm_env man))) (\<lambda>now.
        together (\<lambda>m. m) (concat (map (\<lambda>(k, r). cleanup_bad man now r) (replicas_of volume)))))"

section \<open>The rest\<close>

definition UpdateRecurring :: "('w, 'm) volumeManager \<Rightarrow> string \<Rightarrow> RecurringJob list \<Rightarrow> (('w, 'm) man, unit) op" where
  "UpdateRecurring man name jobs =
     tryE (io (orc_GetVolume (vm_orc man) name)) (wrap (''unable to get volume '' @ name)) (\<lambda>v. case v of
       None \<Rightarrow> panic ''nil pointer dereference''
     | Some volume \<Rightarrow>
         (let volume = volume\<lparr>v_RecurringJobs := Some jobs\<rparr> in
          tryE (io (orc_UpdateVolume (vm_orc man) volume)) (wrap (''unable to update volume '' @ name)) (\<lambda>_.
          (case ValidateJobs (vm_cron man) jobs of
             Some e \<Rightarrow> fail e
           | None \<Rightarrow> updateCron man volume jobs))))"

definition Manager_Controller :: "('w, 'm) volumeManager \<Rightarrow> string \<Rightarrow> (('w, 'm) man, 'w Controller option) op" where
  "Manager_Controller man name = tryE (Manager_Get man name) id (\<lambda>volume. st (iost (vm_getController man volume)) ret)"

text \<open>\<open>SnapshotOps\<close> and \<open>VolumeBackupOps\<close> return the controller under another interface; a nil
  controller has no methods to call.\<close>

definition Manager_SnapshotOps :: "('w, 'm) volumeManager \<Rightarrow> string \<Rightarrow> (('w, 'm) man, 'w Controller) op" where
  "Manager_SnapshotOps man name = tryE (Manager_Controller man name) id (\<lambda>c. case c of
      None \<Rightarrow> panic ''nil pointer dereference''
    | Some ctrl \<Rightarrow> ret ctrl)"

definition VolumeBackupOps :: "('w, 'm) volumeManager \<Rightarrow> string \<Rightarrow> (('w, 'm) man, 'w Controller) op" where
  "VolumeBackupOps man name = tryE (Manager_Controller man name) id (\<lambda>c. case c of
      None \<Rightarrow> panic ''nil pointer dereference''
    | Some ctrl \<Rightarrow> ret ctrl)"

definition Manager_ListHosts :: "('w, 'm) volumeManager \<Rightarrow> (('w, 'm) man, HostInfo gomap) op" where
  "Manager_ListHosts man = io (orc_ListHosts (vm_orc man))"

definition Manager_GetHost :: "('w, 'm) volumeManager \<Rightarrow> string \<Rightarrow> (('w, 'm) man, HostInfo option) op" where
  "Manager_GetHost man i = io (orc_GetHost (vm_orc man) i)"

definition Manager_ProcessSchedule :: "('w, 'm) volumeManager \<Rightarrow> ScheduleSpec \<Rightarrow> ScheduleItem \<Rightarrow> (('w, 'm) man, InstanceInfo) op" where
  "Manager_ProcessSchedule man spec item = (case orc_Process (vm_orc man) of
      None \<Rightarrow> fail (Errorf ''No scheduler found for the orchestrator'')
    | Some process \<Rightarrow> io (process spec item))"

definition ReplicaRemove :: "('w, 'm) volumeManager \<Rightarrow> string \<Rightarrow> string \<Rightarrow> (('w, 'm) man, unit) op" where
  "ReplicaRemove man volumeName replicaName =
     tryE (Manager_Get man volumeName) (wrap (''fail to remove replica '' @ replicaName)) (\<lambda>v. case v of
       None \<Rightarrow> panic ''nil pointer dereference''
     | Some volume \<Rightarrow> (case map_of (replicas_of volume) replicaName of
         None \<Rightarrow> fail (Errorf (''cannot find replica '' @ replicaName @ '' of volume '' @ volumeName))
       | Some replica \<Rightarrow>
           tryE (if i_Running (r_InstanceInfo replica)
                 then attempt (io (orc_StopInstance (vm_orc man) (r_InstanceInfo replica))) (\<lambda>_. ret ()) else ret ()) id (\<lambda>_.
           tryE (io (orc_RemoveInstance (vm_orc man) (r_InstanceInfo replica)))
             (wrap (''fail to remove replica '' @ replicaName)) (\<lambda>_. ret ()))))"

end
