(* ===== verification/ManagerSpec.thy ===== *)
theory ManagerSpec
  imports Manager DockerStore
begin

text \<open>
  What the manager relies on and what it promises, over the abstract store of \<open>KVSpec\<close>.  The
  locale \<open>orchestrator\<close> is the contract of an orchestrator: what each operation may change of
  the abstract store (\<open>touched\<close>: the controller's entry, or the replicas, of one volume;
  \<open>grown\<close>: replicas added to one volume), whether it returns or fails.  The locale
  \<open>volume_manager\<close> adds that the controllers, the monitors and the clock leave the store alone, and proves
  of the manager's operations what they do to the store.
\<close>

section \<open>Changes of the abstract store\<close>

text \<open>An instance of a known type, on a known host, named by legal key components.\<close>

definition inst_ok :: "(string \<Rightarrow> bool) \<Rightarrow> (string \<Rightarrow> bool) \<Rightarrow> InstanceInfo \<Rightarrow> bool" where
  "inst_ok known ok i \<longleftrightarrow> known (i_HostID i) \<and> (i_Type i = InstanceTypeController \<or> i_Type i = InstanceTypeReplica) \<and> ok (i_VolumeName i) \<and>
     (i_Name i = [] \<or> ok (i_Name i))"

text \<open>Every record is of the type of its place and carries its names.\<close>

definition typed :: "(string \<Rightarrow> bool) \<Rightarrow> (string \<Rightarrow> bool) \<Rightarrow> kv_abs \<Rightarrow> bool" where
  "typed known ok a \<longleftrightarrow> (\<forall>v x. a_base a v = Some x \<longrightarrow> v_Name x = v \<and> volume_ints_ok x) \<and>
     (\<forall>v c. a_ctrl a v = Some c \<longrightarrow> i_Type (c_InstanceInfo c) = InstanceTypeController \<and> i_VolumeName (c_InstanceInfo c) = v \<and>
        inst_ok known ok (c_InstanceInfo c)) \<and>
     (\<forall>v n r. a_reps a v n = Some r \<longrightarrow> i_Type (r_InstanceInfo r) = InstanceTypeReplica \<and> i_VolumeName (r_InstanceInfo r) = v \<and>
        i_Name (r_InstanceInfo r) = n \<and> inst_ok known ok (r_InstanceInfo r))"

definition touched :: "string \<Rightarrow> string \<Rightarrow> kv_abs \<Rightarrow> kv_abs \<Rightarrow> bool" where
  "touched ty v a a' \<longleftrightarrow>
     (if ty = InstanceTypeController then \<exists>c. a' = a\<lparr>a_ctrl := (a_ctrl a)(v := c)\<rparr>
      else \<exists>m. a' = a\<lparr>a_reps := (a_reps a)(v := m)\<rparr>)"

definition grown :: "string \<Rightarrow> kv_abs \<Rightarrow> kv_abs \<Rightarrow> bool" where
  "grown v a a' \<longleftrightarrow> (\<exists>m. a' = a\<lparr>a_reps := (a_reps a)(v := m)\<rparr> \<and> dom (a_reps a v) \<subseteq> dom m)"

text \<open>Only the entries of one volume differ.\<close>

definition only :: "string \<Rightarrow> kv_abs \<Rightarrow> kv_abs \<Rightarrow> bool" where
  "only v a a' \<longleftrightarrow> a_settings a' = a_settings a \<and> a_hosts a' = a_hosts a \<and>
     (\<forall>u. u \<noteq> v \<longrightarrow> a_base a' u = a_base a u \<and> a_ctrl a' u = a_ctrl a u \<and> a_reps a' u = a_reps a u)"

text \<open>The base document of a volume replaced.\<close>

definition rebased :: "VolumeInfo \<Rightarrow> kv_abs \<Rightarrow> kv_abs" where
  "rebased vol a = a\<lparr>a_base := (a_base a)(v_Name vol \<mapsto> vol\<lparr>v_Controller := None, v_Replicas := None\<rparr>)\<rparr>"

lemma rebased_fields [simp]:
  "a_base (rebased vol a) = (a_base a)(v_Name vol \<mapsto> vol\<lparr>v_Controller := None, v_Replicas := None\<rparr>)"
  "a_ctrl (rebased vol a) = a_ctrl a" "a_reps (rebased vol a) = a_reps a" "a_settings (rebased vol a) = a_settings a"
  "a_hosts (rebased vol a) = a_hosts a"
  by (simp_all add: rebased_def)

lemma only_rebased: "only (v_Name vol) a (rebased vol a)"
  by (simp add: only_def)

named_theorems frame_intros "how changes of the abstract store compose"

lemma touched_refl [frame_intros]: "touched ty v a a"
proof -
  have "a = a\<lparr>a_ctrl := (a_ctrl a)(v := a_ctrl a v)\<rparr>" "a = a\<lparr>a_reps := (a_reps a)(v := a_reps a v)\<rparr>" by simp_all
  then show ?thesis unfolding touched_def by metis
qed

lemma touched_trans: "touched ty v a b \<Longrightarrow> touched ty v b c \<Longrightarrow> touched ty v a c"
  by (auto simp: touched_def split: if_splits)

lemma grown_refl [frame_intros]: "grown v a a"
proof -
  have "a = a\<lparr>a_reps := (a_reps a)(v := a_reps a v)\<rparr>" by simp
  then show ?thesis unfolding grown_def by blast
qed

lemma grown_trans: "grown v a b \<Longrightarrow> grown v b c \<Longrightarrow> grown v a c"
  by (fastforce simp: grown_def)

lemma grown_touched: "grown v a b \<Longrightarrow> touched InstanceTypeReplica v a b"
  by (auto simp: grown_def touched_def)

lemma only_refl [frame_intros]: "only v a a"
  by (simp add: only_def)

lemma only_trans: "only v a b \<Longrightarrow> only v b c \<Longrightarrow> only v a c"
  by (simp add: only_def)

lemma touched_only: "touched ty v a b \<Longrightarrow> only v a b"
  by (auto simp: touched_def only_def split: if_splits)

lemma only_grown: "only v a b \<Longrightarrow> grown v b c \<Longrightarrow> only v a c"
  using only_trans touched_only grown_touched by blast

lemma touched_base: "touched ty v a b \<Longrightarrow> a_base b = a_base a"
  by (auto simp: touched_def split: if_splits)

lemma touched_replica_ctrl: "touched InstanceTypeReplica v a b \<Longrightarrow> a_ctrl b = a_ctrl a"
  by (auto simp: touched_def)

lemma touched_ctrl_reps: "touched InstanceTypeController v a b \<Longrightarrow> a_reps b = a_reps a"
  by (auto simp: touched_def)

lemma typedD:
  assumes "typed known ok a"
  shows "a_base a v = Some x \<Longrightarrow> v_Name x = v \<and> volume_ints_ok x"
    and "a_ctrl a v = Some c \<Longrightarrow> inst_ok known ok (c_InstanceInfo c) \<and> i_Type (c_InstanceInfo c) = InstanceTypeController \<and>
      i_VolumeName (c_InstanceInfo c) = v"
    and "a_reps a v n = Some r \<Longrightarrow> inst_ok known ok (r_InstanceInfo r) \<and> i_Type (r_InstanceInfo r) = InstanceTypeReplica \<and>
      i_VolumeName (r_InstanceInfo r) = v \<and> i_Name (r_InstanceInfo r) = n"
  using assms unfolding typed_def by simp_all

lemma typed_volume:
  assumes "typed known ok a" and "vol_matches a v (Some vol)"
  shows "v_Controller vol = Some c \<Longrightarrow> inst_ok known ok (c_InstanceInfo c) \<and> i_Type (c_InstanceInfo c) = InstanceTypeController \<and>
      i_VolumeName (c_InstanceInfo c) = v"
    and "(k, r) \<in> set (replicas_of vol) \<Longrightarrow> inst_ok known ok (r_InstanceInfo r) \<and> i_Type (r_InstanceInfo r) = InstanceTypeReplica \<and>
      i_VolumeName (r_InstanceInfo r) = v \<and> i_Name (r_InstanceInfo r) = k"
proof -
  have "v_Controller vol = a_ctrl a v" "map_of (replicas_of vol) = a_reps a v" "distinct (map fst (replicas_of vol))"
    using assms(2) by (auto simp: vol_matches_def split: option.splits)
  then show "v_Controller vol = Some c \<Longrightarrow> inst_ok known ok (c_InstanceInfo c) \<and> i_Type (c_InstanceInfo c) = InstanceTypeController \<and>
      i_VolumeName (c_InstanceInfo c) = v"
    and "(k, r) \<in> set (replicas_of vol) \<Longrightarrow> inst_ok known ok (r_InstanceInfo r) \<and> i_Type (r_InstanceInfo r) = InstanceTypeReplica \<and>
      i_VolumeName (r_InstanceInfo r) = v \<and> i_Name (r_InstanceInfo r) = k"
    using typedD(2,3) [OF assms(1)] by (simp, metis map_of_is_SomeI)
qed

section \<open>Loops and lifted operations\<close>

lemma wp_io [wp_simps]: "wp (io m) Q E s = wp m (\<lambda>a w'. Q a (s\<lparr>ms_w := w'\<rparr>)) (\<lambda>e w'. E e (s\<lparr>ms_w := w'\<rparr>)) (ms_w s)"
  by (simp add: wp_def io_def Let_def split: prod.split)

lemma iost_eq: "iost f s = (fst (f (ms_w s)), s\<lparr>ms_w := snd (f (ms_w s))\<rparr>)"
  by (simp add: iost_def split: prod.split)

lemma wp_collectE:
  assumes "\<And>x w. x \<in> set xs \<Longrightarrow> I w \<Longrightarrow> wp (f x) (\<lambda>_. I) (\<lambda>_. I) w" and "I w"
  shows "wp (collectE f xs) (\<lambda>_. I) E w"
  using assms
proof (induction xs arbitrary: w)
  case (Cons x xs)
  have "wp (collectE f xs) (\<lambda>_. I) E w'" if "I w'" for w' by (rule Cons.IH) (use Cons.prems that in auto)
  then have *: "wp (tryE (collectE f xs) id (\<lambda>es. ret (g es))) (\<lambda>_. I) E w'" if "I w'" for g w'
    using that by (simp add: wp_tryE wp_ret [abs_def])
  show ?case
    unfolding collectE.simps wp_attempt by (rule wp_mono [OF Cons.prems(1)]) (use Cons.prems(2) in \<open>auto intro: *\<close>)
qed (simp add: wp_simps)

lemma wp_together:
  assumes "\<And>x w. x \<in> set xs \<Longrightarrow> I w \<Longrightarrow> wp (f x) (\<lambda>_. I) (\<lambda>_. I) w" and "I w"
  shows "wp (together f xs) (\<lambda>_. I) (\<lambda>_. I) w"
  unfolding together_def wp_tryE by (rule wp_mono [OF wp_collectE [where I = I]]) (use assms in \<open>auto simp: wp_simps\<close>)

section \<open>The contract of an orchestrator\<close>

locale orchestrator =
  fixes orc :: "'w Orchestrator" and good :: "'w \<Rightarrow> bool" and absv :: "'w \<Rightarrow> kv_abs"
    and known :: "string \<Rightarrow> bool" and ok :: "string \<Rightarrow> bool"
  assumes good_typed: "good w \<Longrightarrow> typed known ok (absv w)"
    and get_volume: "\<lbrakk>good w; ok n\<rbrakk> \<Longrightarrow> wp (orc_GetVolume orc n)
      (\<lambda>r w'. good w' \<and> absv w' = absv w \<and> vol_matches (absv w) n r) (\<lambda>_ w'. good w' \<and> absv w' = absv w) w"
    and get_settings: "good w \<Longrightarrow> wp (orc_GetSettings orc) (\<lambda>_ w'. good w' \<and> absv w' = absv w) (\<lambda>_ w'. good w' \<and> absv w' = absv w) w"
    and create_volume: "\<lbrakk>good w; ok (v_Name vol); volume_ints_ok vol\<rbrakk> \<Longrightarrow> wp (orc_CreateVolume orc vol)
      (\<lambda>res w'. res = vol \<and> good w' \<and> absv w' = rebased vol (absv w))
      (\<lambda>_ w'. good w' \<and> only (v_Name vol) (absv w) (absv w')) w"
    and delete_volume: "\<lbrakk>good w; ok n\<rbrakk> \<Longrightarrow> wp (orc_DeleteVolume orc n)
      (\<lambda>_ w'. good w' \<and> only n (absv w) (absv w') \<and> a_base (absv w') n = None \<and> a_ctrl (absv w') n = None \<and>
         a_reps (absv w') n = Map.empty)
      (\<lambda>_ w'. good w' \<and> only n (absv w) (absv w')) w"
    and list_volumes: "good w \<Longrightarrow> wp (orc_ListVolumes orc)
      (\<lambda>r w'. good w' \<and> absv w' = absv w \<and> list_matches (absv w) r) (\<lambda>_ w'. good w' \<and> absv w' = absv w) w"
    and update_volume: "\<lbrakk>good w; ok (v_Name vol); volume_ints_ok vol\<rbrakk> \<Longrightarrow> wp (orc_UpdateVolume orc vol)
      (\<lambda>_ w'. good w' \<and> absv w' = rebased vol (absv w))
      (\<lambda>_ w'. good w' \<and> (absv w' = absv w \<or> absv w' = rebased vol (absv w))) w"
    and mark_bad: "\<lbrakk>good w; ok v\<rbrakk> \<Longrightarrow> good (snd (orc_MarkBadReplica orc v r w)) \<and> absv (snd (orc_MarkBadReplica orc v r w)) = absv w"
    and start: "\<lbrakk>good w; inst_ok known ok i\<rbrakk> \<Longrightarrow> wp (orc_StartInstance orc i)
      (\<lambda>r w'. good w' \<and> touched (i_Type i) (i_VolumeName i) (absv w) (absv w') \<and> inst_ok known ok r \<and> i_Type r = i_Type i \<and>
         i_VolumeName r = i_VolumeName i)
      (\<lambda>_ w'. good w' \<and> touched (i_Type i) (i_VolumeName i) (absv w) (absv w')) w"
    and stop: "\<lbrakk>good w; inst_ok known ok i\<rbrakk> \<Longrightarrow> wp (orc_StopInstance orc i)
      (\<lambda>_ w'. good w' \<and> touched (i_Type i) (i_VolumeName i) (absv w) (absv w'))
      (\<lambda>_ w'. good w' \<and> touched (i_Type i) (i_VolumeName i) (absv w) (absv w')) w"
    and remove: "\<lbrakk>good w; inst_ok known ok i\<rbrakk> \<Longrightarrow> wp (orc_RemoveInstance orc i)
      (\<lambda>_ w'. good w' \<and> absv w' = forget_instance i (absv w))
      (\<lambda>_ w'. good w' \<and> touched (i_Type i) (i_VolumeName i) (absv w) (absv w')) w"
    and create_replica: "\<lbrakk>good w; ok v; ok n; a_base (absv w) v \<noteq> None\<rbrakk> \<Longrightarrow> wp (orc_CreateReplica orc v n)
      (\<lambda>r w'. good w' \<and> (\<exists>rep a k. r = Some rep \<and> inst_ok known ok (r_InstanceInfo rep) \<and> i_Type (r_InstanceInfo rep) = InstanceTypeReplica \<and>
         i_VolumeName (r_InstanceInfo rep) = v \<and> grown v (absv w) a \<and> a_reps a v k = None \<and>
         grown v a (absv w') \<and> a_reps (absv w') v k \<noteq> None))
      (\<lambda>_ w'. good w' \<and> grown v (absv w) (absv w')) w"
    and create_replica_missing: "\<lbrakk>good w; ok v; ok n; a_base (absv w) v = None\<rbrakk> \<Longrightarrow> wp (orc_CreateReplica orc v n)
      (\<lambda>r w'. r = None \<and> good w' \<and> absv w' = absv w) (\<lambda>_ w'. good w' \<and> absv w' = absv w) w"
    and create_controller: "\<lbrakk>good w; ok v; a_base (absv w) v \<noteq> None\<rbrakk> \<Longrightarrow> wp (orc_CreateController orc v n rs)
      (\<lambda>c w'. good w' \<and> absv w' = (absv w)\<lparr>a_ctrl := (a_ctrl (absv w))(v \<mapsto> c)\<rparr>)
      (\<lambda>_ w'. good w' \<and> touched InstanceTypeController v (absv w) (absv w')) w"

section \<open>The manager\<close>

text \<open>What the manager's other surroundings do to the store: nothing.\<close>

definition harmless :: "('w \<Rightarrow> bool) \<Rightarrow> ('w \<Rightarrow> kv_abs) \<Rightarrow> 'w \<Rightarrow> 'w \<Rightarrow> bool" where
  "harmless good absv w w' \<longleftrightarrow> good w' \<and> absv w' = absv w"

definition harmless_op :: "('w \<Rightarrow> bool) \<Rightarrow> ('w \<Rightarrow> kv_abs) \<Rightarrow> ('w, 'a) op \<Rightarrow> bool" where
  "harmless_op good absv m \<longleftrightarrow> (\<forall>w. good w \<longrightarrow> wp m (\<lambda>_. harmless good absv w) (\<lambda>_. harmless good absv w) w)"

text \<open>A volume as the manager returns it: as stored, up to the state and the endpoint.\<close>

definition found :: "kv_abs \<Rightarrow> string \<Rightarrow> VolumeInfo option \<Rightarrow> bool" where
  "found a n r = (case r of
      None \<Rightarrow> a_base a n = None
    | Some vol \<Rightarrow> \<exists>v0 e. vol_matches a n (Some v0) \<and> vol = v0\<lparr>v_State := volumeState v0, v_Endpoint := e\<rparr>)"

lemma found_None [simp]: "found a n None \<longleftrightarrow> a_base a n = None"
  by (simp add: found_def)

lemma found_matches: "vol_matches a n (Some v0) \<Longrightarrow> found a n (Some (v0\<lparr>v_State := volumeState v0, v_Endpoint := e\<rparr>))"
  by (auto simp: found_def)

lemma foundD:
  assumes "found a n (Some vol)" and "typed known ok a"
  shows "v_Controller vol = a_ctrl a n" and "map_of (replicas_of vol) = a_reps a n" and "distinct (map fst (replicas_of vol))"
    and "a_base a n \<noteq> None" and "v_Name vol = n"
    and "v_Controller vol = Some c \<Longrightarrow> inst_ok known ok (c_InstanceInfo c) \<and> i_Type (c_InstanceInfo c) = InstanceTypeController \<and>
      i_VolumeName (c_InstanceInfo c) = n"
    and "(k, r) \<in> set (replicas_of vol) \<Longrightarrow> inst_ok known ok (r_InstanceInfo r) \<and> i_Type (r_InstanceInfo r) = InstanceTypeReplica \<and>
      i_VolumeName (r_InstanceInfo r) = n \<and> i_Name (r_InstanceInfo r) = k"
proof -
  obtain v0 e where v0: "vol_matches a n (Some v0)" "vol = v0\<lparr>v_State := volumeState v0, v_Endpoint := e\<rparr>"
    using assms(1) by (auto simp: found_def)
  have r: "replicas_of vol = replicas_of v0" "v_Controller vol = v_Controller v0" using v0(2) by (simp_all add: replicas_of_def)
  show "v_Controller vol = a_ctrl a n" "map_of (replicas_of vol) = a_reps a n" "distinct (map fst (replicas_of vol))"
    "a_base a n \<noteq> None"
    using v0(1) by (auto simp: r vol_matches_def split: option.splits)
  show "v_Name vol = n"
    using v0 typedD(1) [OF assms(2)] by (fastforce simp: vol_matches_def split: option.splits)
  show "v_Controller vol = Some c \<Longrightarrow> inst_ok known ok (c_InstanceInfo c) \<and> i_Type (c_InstanceInfo c) = InstanceTypeController \<and>
      i_VolumeName (c_InstanceInfo c) = n"
    using typed_volume(1) [OF assms(2) v0(1)] r by simp
  show "(k, r) \<in> set (replicas_of vol) \<Longrightarrow> inst_ok known ok (r_InstanceInfo r) \<and> i_Type (r_InstanceInfo r) = InstanceTypeReplica \<and>
      i_VolumeName (r_InstanceInfo r) = n \<and> i_Name (r_InstanceInfo r) = k"
    using typed_volume(2) [OF assms(2) v0(1)] r by simp
qed

text \<open>New replicas under new names.\<close>

definition added :: "nat \<Rightarrow> string \<Rightarrow> kv_abs \<Rightarrow> kv_abs \<Rightarrow> bool" where
  "added k n a a' \<longleftrightarrow> grown n a a' \<and> (\<exists>ks. distinct ks \<and> length ks = k \<and> set ks \<inter> dom (a_reps a n) = {} \<and> set ks \<subseteq> dom (a_reps a' n))"

lemma added_0 [simp]: "added 0 n a a"
  by (simp add: added_def frame_intros)

lemma grown_reps: "grown n a b \<Longrightarrow> dom (a_reps a n) \<subseteq> dom (a_reps b n)"
  by (auto simp: grown_def)

lemma added_Suc:
  assumes "grown n a b" and "a_reps b n k = None" and "grown n b c" and "a_reps c n k \<noteq> None" and "added m n c d"
  shows "added (Suc m) n a d"
proof -
  obtain ks where ks: "distinct ks" "length ks = m" "set ks \<inter> dom (a_reps c n) = {}" "set ks \<subseteq> dom (a_reps d n)"
    and g: "grown n c d" using assms(5) by (auto simp: added_def)
  note mono = grown_reps [OF assms(1)] grown_reps [OF assms(3)] grown_reps [OF g]
  have "k \<in> dom (a_reps c n)" "k \<notin> dom (a_reps b n)" using assms(2,4) by auto
  then have "distinct (k # ks)" "length (k # ks) = Suc m" "set (k # ks) \<inter> dom (a_reps a n) = {}" "set (k # ks) \<subseteq> dom (a_reps d n)"
    using ks mono by (simp_all, blast+)
  moreover have "grown n a d" using assms(1,3) g grown_trans by blast
  ultimately show ?thesis unfolding added_def by blast
qed

lemma grown_base: "grown n a b \<Longrightarrow> a_base b = a_base a"
  by (auto simp: grown_def)

text \<open>A volume that was created: its base is the one that was asked for, and it has at least as
  many replicas as it needs.\<close>

definition created :: "VolumeInfo \<Rightarrow> kv_abs \<Rightarrow> kv_abs \<Rightarrow> VolumeInfo option \<Rightarrow> bool" where
  "created volume a a' r \<longleftrightarrow> (\<exists>vol t. r = Some vol \<and> found a' (v_Name volume) r \<and> only (v_Name volume) a a' \<and>
     a_base a' (v_Name volume) = Some (volume\<lparr>v_Created := t, v_Controller := None, v_Replicas := None\<rparr>) \<and>
     nat (v_NumberOfReplicas volume) \<le> length (replicas_of vol))"

text \<open>Replicas that were not marked bad with a readable time stamp.\<close>

definition unmarked :: "ReplicaInfo \<Rightarrow> bool" where
  "unmarked r \<longleftrightarrow> r_BadTimestamp r = [] \<or> (\<exists>e. ParseTime (r_BadTimestamp r) = Inl e)"

lemma attach_scan_unmarked:
  assumes "\<forall>(k, r) \<in> set rs. unmarked r"
  shows "\<exists>stops' reps'. attach_scan rs stops reps None = (stops', Some (reps', None)) \<and>
    set stops' \<subseteq> set stops \<union> snd ` set rs \<and> set reps' \<subseteq> set reps \<union> set rs"
  using assms
proof (induction rs arbitrary: stops reps)
  case (Cons x rs)
  obtain k r where x: "x = (k, r)" by fastforce
  have u: "set (AList.update k r m) \<subseteq> insert (k, r) (set m)" for m by (induction m) auto
  show ?case
  proof (cases "r_BadTimestamp r = []")
    case True
    then show ?thesis
      using Cons.IH [of "if i_Running (r_InstanceInfo r) then stops @ [r] else stops" "AList.update k r reps"] Cons.prems u [of reps]
      by (fastforce simp: x Let_def split: if_splits)
  next
    case False
    then obtain e where "ParseTime (r_BadTimestamp r) = Inl e" using Cons.prems by (auto simp: x unmarked_def)
    then show ?thesis
      using False Cons.IH [of "if i_Running (r_InstanceInfo r) then stops @ [r] else stops" reps] Cons.prems
      by (fastforce simp: x Let_def split: if_splits)
  qed
qed simp

locale volume_manager = orchestrator orc good absv known ok
  for orc :: "'w Orchestrator" and good absv known ok +
  fixes man :: "('w, 'm) volumeManager"
  assumes orc [simp]: "vm_orc man = orc"
    and getController: "good w \<Longrightarrow> harmless good absv w (snd (vm_getController man v w))"
    and running_controller: "controller_running vol \<Longrightarrow> fst (vm_getController man (Some vol) w) \<noteq> None"
    and endpoint: "fst (vm_getController man v w) = Some ctrl \<Longrightarrow> harmless_op good absv (ct_Endpoint ctrl)"
    and now: "good w \<Longrightarrow> harmless good absv w (snd (env_Now (vm_env man) w))"
    and uuid: "good w \<Longrightarrow> harmless good absv w (snd (env_UUID (vm_env man) w)) \<and> 18 \<le> length (fst (env_UUID (vm_env man) w))"
    and uuid_ok: "ok n \<Longrightarrow> ok (n @ ''-replica-'' @ take 18 (fst (env_UUID (vm_env man) w)))"
    and monitor_begin: "good w \<Longrightarrow> harmless good absv w (snd (mo_Begin (vm_monitor man) vol w))"
    and monitor_close: "good w \<Longrightarrow> harmless good absv w (mo_Close (vm_monitor man) m w)"
begin

abbreviation inv :: "('w, 'm) man \<Rightarrow> bool" where "inv s \<equiv> good (ms_w s)"
abbreviation ab :: "('w, 'm) man \<Rightarrow> kv_abs" where "ab s \<equiv> absv (ms_w s)"

text \<open>The store as it was in \<open>s\<close>.\<close>

abbreviation still :: "('w, 'm) man \<Rightarrow> ('w, 'm) man \<Rightarrow> bool" where
  "still s s' \<equiv> harmless good absv (ms_w s) (ms_w s')"

lemma completeVolumeState_wp:
  assumes "inv s"
  shows "wp (completeVolumeState man vol)
    (\<lambda>r s'. still s s' \<and> ms_monitors s' = ms_monitors s \<and> (\<exists>e. r = vol\<lparr>v_State := volumeState vol, v_Endpoint := e\<rparr>))
    (\<lambda>_ s'. still s s') s"
proof -
  let ?vol = "vol\<lparr>v_State := volumeState vol, v_Endpoint := []\<rparr>"
  let ?c = "vm_getController man (Some ?vol) (ms_w s)"
  have *: "harmless good absv (ms_w s) (snd ?c)" using getController assms by blast
  show ?thesis
  proof (cases "controller_running ?vol")
    case True
    then obtain ctrl where c: "fst ?c = Some ctrl" using running_controller by blast
    have "wp (ct_Endpoint ctrl) (\<lambda>_. harmless good absv (snd ?c)) (\<lambda>_. harmless good absv (snd ?c)) (snd ?c)"
      using endpoint [OF c] * by (auto simp: harmless_op_def harmless_def)
    then show ?thesis
      using True c * by (auto simp: completeVolumeState_def Let_def wp_st iost_eq wp_simps harmless_def elim!: wp_mono)
  next
    case False
    then show ?thesis using assms by (auto simp: completeVolumeState_def Let_def wp_simps harmless_def)
  qed
qed

lemma Manager_Get_wp:
  assumes "inv s" and "ok n"
  shows "wp (Manager_Get man n) (\<lambda>r s'. still s s' \<and> ms_monitors s' = ms_monitors s \<and> found (ab s) n r) (\<lambda>_ s'. still s s') s"
  unfolding Manager_Get_def wp_tryE wp_io orc
proof (rule wp_mono [OF get_volume [OF assms]])
  fix r w'
  assume *: "good w' \<and> absv w' = ab s \<and> vol_matches (ab s) n r"
  show "wp (case r of None \<Rightarrow> ret None | Some vol \<Rightarrow> tryE (completeVolumeState man vol) id (\<lambda>vol. ret (Some vol)))
      (\<lambda>r s'. still s s' \<and> ms_monitors s' = ms_monitors s \<and> found (ab s) n r) (\<lambda>_ s'. still s s') (s\<lparr>ms_w := w'\<rparr>)"
  proof (cases r)
    case None
    then show ?thesis using * by (auto simp: wp_simps harmless_def vol_matches_def split: option.splits)
  next
    case (Some vol)
    have "inv (s\<lparr>ms_w := w'\<rparr>)" using * by simp
    from completeVolumeState_wp [OF this, of vol] show ?thesis
      using * Some by (auto simp: wp_simps harmless_def intro: found_matches elim!: wp_mono)
  qed
qed (auto simp: harmless_def)

subsection \<open>Detaching\<close>

abbreviation moved :: "string \<Rightarrow> string \<Rightarrow> ('w, 'm) man \<Rightarrow> ('w, 'm) man \<Rightarrow> bool" where
  "moved ty n s s' \<equiv> inv s' \<and> touched ty n (ab s) (ab s') \<and> ms_monitors s' = ms_monitors s"

lemma moved_trans: "moved ty n s s' \<Longrightarrow> moved ty n s' s'' \<Longrightarrow> moved ty n s s''"
  using touched_trans by metis

lemma io_stop:
  assumes "inv s" and "inst_ok known ok i"
  shows "wp (io (orc_StopInstance orc i)) (\<lambda>_. moved (i_Type i) (i_VolumeName i) s) (\<lambda>_. moved (i_Type i) (i_VolumeName i) s) s"
  unfolding wp_io by (rule wp_mono [OF stop [OF assms]]) auto

lemma io_start:
  assumes "inv s" and "inst_ok known ok i"
  shows "wp (io (orc_StartInstance orc i)) (\<lambda>_. moved (i_Type i) (i_VolumeName i) s) (\<lambda>_. moved (i_Type i) (i_VolumeName i) s) s"
  unfolding wp_io by (rule wp_mono [OF start [OF assms]]) auto

text \<open>Several instances of one volume, stopped or started together.\<close>

lemma together_moved:
  assumes "\<And>x s. x \<in> set xs \<Longrightarrow> inv s \<Longrightarrow> wp (f x) (\<lambda>_. moved ty n s) (\<lambda>_. moved ty n s) s" and "inv s"
  shows "wp (together f xs) (\<lambda>_. moved ty n s) (\<lambda>_. moved ty n s) s"
proof (rule wp_together)
  show "moved ty n s s" using assms(2) by (simp add: frame_intros)
  show "wp (f x) (\<lambda>_. moved ty n s) (\<lambda>_. moved ty n s) s'" if "x \<in> set xs" "moved ty n s s'" for x s'
    by (rule wp_mono [OF assms(1) [OF that(1)]]) (use that(2) moved_trans in blast)+
qed

lemma stop_replica_wp:
  assumes "inv s" and "inst_ok known ok (r_InstanceInfo r)" "i_Type (r_InstanceInfo r) = InstanceTypeReplica" "i_VolumeName (r_InstanceInfo r) = n"
  shows "wp (stop_replica man r) (\<lambda>_. moved InstanceTypeReplica n s) (\<lambda>_. moved InstanceTypeReplica n s) s"
  using io_stop [OF assms(1,2)] assms(3,4) by (simp add: stop_replica_def wp_tryE_ret)

lemma stop_replicas:
  assumes "inv s" and "\<forall>(k, r) \<in> set rs. inst_ok known ok (r_InstanceInfo r) \<and> i_Type (r_InstanceInfo r) = InstanceTypeReplica \<and>
    i_VolumeName (r_InstanceInfo r) = n"
  shows "wp (together (\<lambda>(k, r). stop_replica man r) rs) (\<lambda>_. moved InstanceTypeReplica n s) (\<lambda>_. moved InstanceTypeReplica n s) s"
proof (rule together_moved [OF _ assms(1)])
  fix x s assume x: "x \<in> set rs" and s: "inv s"
  obtain k r where kr: "x = (k, r)" by fastforce
  then have r: "inst_ok known ok (r_InstanceInfo r)" "i_Type (r_InstanceInfo r) = InstanceTypeReplica" "i_VolumeName (r_InstanceInfo r) = n"
    using assms(2) x by auto
  show "wp (case x of (k, r) \<Rightarrow> stop_replica man r) (\<lambda>_. moved InstanceTypeReplica n s) (\<lambda>_. moved InstanceTypeReplica n s) s"
    using stop_replica_wp [OF s r] by (simp add: kr)
qed

lemma stopMonitoring_wp:
  assumes "inv s"
  shows "wp (stopMonitoring man vol) (\<lambda>_ s'. still s s' \<and> map_of (ms_monitors s') = (map_of (ms_monitors s))(v_Name vol := None))
    (\<lambda>_ _. False) s"
  using monitor_close [OF assms] assms
  by (auto simp: wp_def stopMonitoring_def harmless_def fun_eq_iff split: option.split)

text \<open>What detaching a volume leaves: no controller, no monitor, and every other entry as it was.\<close>

abbreviation within :: "string \<Rightarrow> ('w, 'm) man \<Rightarrow> ('w, 'm) man \<Rightarrow> bool" where
  "within n s s' \<equiv> inv s' \<and> only n (ab s) (ab s') \<and> a_base (ab s') = a_base (ab s)"

lemma moved_within: "within n s s' \<Longrightarrow> moved ty n s' s'' \<Longrightarrow> within n s s''"
  using touched_only touched_base only_trans by metis

text \<open>The optional stop of the controller.\<close>

lemma stop_controller:
  assumes t: "inv t" and c: "\<And>c. oc = Some c \<Longrightarrow> inst_ok known ok (c_InstanceInfo c) \<and> i_Type (c_InstanceInfo c) = InstanceTypeController \<and>
      i_VolumeName (c_InstanceInfo c) = n"
  shows "wp (case oc of
        Some c \<Rightarrow> if i_Running (c_InstanceInfo c)
          then tryE (io (orc_StopInstance orc (c_InstanceInfo c)))
            (wrap (''error stopping the controller id='' @ i_ID (c_InstanceInfo c))) (\<lambda>_. ret ())
          else ret ()
      | None \<Rightarrow> ret ())
    (\<lambda>_ s'. moved InstanceTypeController n t s' \<and> (oc = None \<longrightarrow> ab s' = ab t)) (\<lambda>_. moved InstanceTypeController n t) t"
proof (cases oc)
  case (Some c')
  then have c': "inst_ok known ok (c_InstanceInfo c')" "i_Type (c_InstanceInfo c') = InstanceTypeController"
    "i_VolumeName (c_InstanceInfo c') = n" using c by auto
  show ?thesis
    using Some t c' io_stop [OF t c'(1)] by (auto simp: wp_simps frame_intros elim!: wp_mono)
qed (use t in \<open>simp add: wp_simps frame_intros\<close>)

text \<open>The optional removal of the controller.\<close>

lemma remove_controller:
  assumes t: "inv t" and c: "\<And>c. v_Controller vol = Some c \<Longrightarrow> inst_ok known ok (c_InstanceInfo c) \<and>
      i_Type (c_InstanceInfo c) = InstanceTypeController \<and> i_VolumeName (c_InstanceInfo c) = n"
    and none: "v_Controller vol = None \<Longrightarrow> a_ctrl (ab t) n = None"
  shows "wp (case v_Controller vol of
        None \<Rightarrow> ret vol
      | Some c \<Rightarrow> tryE (io (orc_RemoveInstance orc (c_InstanceInfo c)))
          (wrap (''error removing the controller id='' @ i_ID (c_InstanceInfo c))) (\<lambda>_. ret (vol\<lparr>v_Controller := None\<rparr>)))
    (\<lambda>r s'. moved InstanceTypeController n t s' \<and> a_ctrl (ab s') n = None \<and> r = vol\<lparr>v_Controller := None\<rparr>)
    (\<lambda>_. moved InstanceTypeController n t) t"
proof (cases "v_Controller vol")
  case None
  then have "vol = vol\<lparr>v_Controller := None\<rparr>" by simp
  then show ?thesis using None t none by (simp add: wp_simps frame_intros)
next
  case (Some c')
  then have c': "inst_ok known ok (c_InstanceInfo c')" "i_Type (c_InstanceInfo c') = InstanceTypeController"
    "i_VolumeName (c_InstanceInfo c') = n" using c by auto
  have "touched InstanceTypeController n a (forget_instance (c_InstanceInfo c') a)" for a
    using c' by (auto simp: touched_def forget_instance_def)
  then show ?thesis
    using Some c' remove [OF t c'(1)] by (auto simp: wp_simps forget_instance_def elim!: wp_mono)
qed

lemma doDetach_wp:
  assumes s: "inv s" and f: "found (ab s) n (Some vol)"
  shows "wp (doDetach man vol)
    (\<lambda>r s'. within n s s' \<and> a_ctrl (ab s') n = None \<and> map_of (ms_monitors s') = (map_of (ms_monitors s))(n := None) \<and>
       r = vol\<lparr>v_Controller := None\<rparr>)
    (\<lambda>_ s'. within n s s') s"
proof -
  note fd = foundD [OF f good_typed [OF s]]
  let ?mon = "\<lambda>s'. map_of (ms_monitors s') = (map_of (ms_monitors s))(n := None)"
  show ?thesis
    unfolding doDetach_def orc
  proof (rule wp_step [OF stopMonitoring_wp [OF s]], goal_cases)
    case (1 _ s1)
    then have s1: "within n s s1" "?mon s1" "ab s1 = ab s" using fd(5) by (auto simp: harmless_def frame_intros)
    show ?case
    proof (rule wp_step [OF stop_controller [where n = n and t = s1]], goal_cases)
      case (3 _ s2)
      then have s2: "within n s s2" "?mon s2" "v_Controller vol = None \<longrightarrow> ab s2 = ab s"
        using s1 moved_within [OF s1(1)] by auto
      show ?case
      proof (rule wp_step [OF stop_replicas [where n = n and s = s2]], goal_cases)
        case (3 _ s3)
        then have s3: "within n s s3" "?mon s3" "v_Controller vol = None \<longrightarrow> a_ctrl (ab s3) n = None"
          using s2 moved_within [OF s2(1)] touched_replica_ctrl fd(1) by (blast, simp, metis)
        show ?case
          by (rule wp_mono [OF remove_controller [where n = n and t = s3]])
            (use s3 fd(6) moved_within [OF s3(1)] in auto)
      qed (use fd(7) s2 moved_within [OF s2(1)] in auto)
    qed (use fd(6) s1 moved_within [OF s1(1)] in auto)
  qed auto
qed

lemma Detach_wp:
  assumes "inv s" and "ok n"
  shows "wp (Detach man n)
    (\<lambda>_ s'. within n s s' \<and> (a_base (ab s) n \<noteq> None \<longrightarrow> a_ctrl (ab s') n = None \<and> map_of (ms_monitors s') n = None))
    (\<lambda>_ s'. within n s s') s"
  unfolding Detach_def
proof (rule wp_step [OF Manager_Get_wp [OF assms]], goal_cases)
  case (1 r s1)
  then have s1: "inv s1" "ab s1 = ab s" by (auto simp: harmless_def)
  show ?case
  proof (cases r)
    case None
    then show ?thesis using s1 1 by (simp add: wp_simps frame_intros)
  next
    case (Some vol)
    then have "found (ab s1) n (Some vol)" using 1 s1 by simp
    from doDetach_wp [OF s1(1) this] show ?thesis
      using Some s1 by (auto simp: wp_simps elim!: wp_mono)
  qed
qed (use assms in \<open>auto simp: harmless_def frame_intros\<close>)

subsection \<open>Deleting\<close>

lemma remove_replicas:
  assumes "inv s" and "\<forall>(k, r) \<in> set rs. inst_ok known ok (r_InstanceInfo r) \<and> i_Type (r_InstanceInfo r) = InstanceTypeReplica \<and>
    i_VolumeName (r_InstanceInfo r) = n"
  shows "wp (forE (\<lambda>(k, r). tryE (io (orc_RemoveInstance orc (r_InstanceInfo r)))
      (wrap (''error removing replica container '' @ i_Name (r_InstanceInfo r))) (\<lambda>_. ret ())) rs)
    (\<lambda>_. moved InstanceTypeReplica n s) (\<lambda>_. moved InstanceTypeReplica n s) s"
proof (rule wp_forE [where I = "\<lambda>_. moved InstanceTypeReplica n s"], goal_cases)
  case (2 y ys s')
  obtain k r where y: "y = (k, r)" by fastforce
  then have r: "inst_ok known ok (r_InstanceInfo r)" "i_Type (r_InstanceInfo r) = InstanceTypeReplica" "i_VolumeName (r_InstanceInfo r) = n"
    using assms(2) set_mono_suffix [OF 2(1)] by auto
  have "touched InstanceTypeReplica n a (forget_instance (r_InstanceInfo r) a)" for a
    using r by (auto simp: touched_def forget_instance_def)
  then have "wp (io (orc_RemoveInstance orc (r_InstanceInfo r))) (\<lambda>_. moved InstanceTypeReplica n s') (\<lambda>_. moved InstanceTypeReplica n s') s'"
    unfolding wp_io by (rule_tac wp_mono [OF remove [OF _ r(1)]]) (use r 2(2) in auto)
  then show ?case
    unfolding y prod.case
    by (rule wp_step) (unfold wp_ret, (rule moved_trans [OF 2(2)], assumption)+)
qed (use assms(1) in \<open>simp_all add: frame_intros\<close>)

lemma Delete_wp:
  assumes "inv s" and "ok n"
  shows "wp (Manager_Delete man n)
    (\<lambda>_ s'. inv s' \<and> only n (ab s) (ab s') \<and> a_base (ab s') n = None \<and>
       (a_base (ab s) n \<noteq> None \<longrightarrow> a_ctrl (ab s') n = None \<and> a_reps (ab s') n = Map.empty \<and> map_of (ms_monitors s') n = None))
    (\<lambda>_ s'. inv s' \<and> only n (ab s) (ab s')) s"
  unfolding Manager_Delete_def orc
proof (rule wp_step [OF Manager_Get_wp [OF assms]], goal_cases)
  case (1 r s1)
  then have s1: "inv s1" "ab s1 = ab s" by (auto simp: harmless_def)
  show ?case
  proof (cases r)
    case None
    then show ?thesis using s1 1 by (simp add: wp_simps frame_intros)
  next
    case (Some vol)
    then have f: "found (ab s1) n (Some vol)" using 1 s1 by simp
    note fd = foundD [OF f good_typed [OF s1(1)]]
    show ?thesis
      unfolding Some option.case
    proof (rule wp_step [OF doDetach_wp [OF s1(1) f]], goal_cases)
      case (1 v s2)
      then have s2: "within n s s2" "map_of (ms_monitors s2) n = None" "replicas_of v = replicas_of vol"
        using s1(2) by (auto simp: replicas_of_def)
      show ?case
      proof (rule wp_step [OF remove_replicas [where n = n and s = s2]], goal_cases)
        case (3 _ s3)
        then have s3: "within n s s3" "map_of (ms_monitors s3) n = None" using moved_within [OF s2(1)] s2(2) by auto
        then have "wp (io (orc_DeleteVolume orc n)) (\<lambda>_ s'. inv s' \<and> only n (ab s3) (ab s') \<and> a_base (ab s') n = None \<and>
            a_ctrl (ab s') n = None \<and> a_reps (ab s') n = Map.empty \<and> ms_monitors s' = ms_monitors s3)
            (\<lambda>_ s'. inv s' \<and> only n (ab s3) (ab s')) s3"
          unfolding wp_io by (intro wp_mono [OF delete_volume [OF _ assms(2)]]) auto
        then show ?case
          unfolding wp_tryE_ret by (rule wp_mono) (use s3 only_trans in auto)
      qed (use s2 fd(7) moved_within [OF s2(1)] in auto)
    qed (use s1 in auto)
  qed
qed (use assms in \<open>auto simp: harmless_def frame_intros\<close>)

subsection \<open>Creating\<close>

lemma GetReplicaName_wp:
  assumes "inv s" and "ok n"
  shows "wp (io (GetReplicaName man n)) (\<lambda>r s'. still s s' \<and> ms_monitors s' = ms_monitors s \<and> ok r) (\<lambda>_ _. False) s"
  using uuid [OF assms(1)] uuid_ok [OF assms(2)]
  by (auto simp: GetReplicaName_def RandomID_def wp_io wp_st wp_if wp_ret not_less)

lemma create_replicas_wp:
  assumes "inv s" and "ok n" and "a_base (ab s) n \<noteq> None"
  shows "wp (create_replicas man n k) (\<lambda>_ s'. inv s' \<and> added k n (ab s) (ab s') \<and> ms_monitors s' = ms_monitors s)
    (\<lambda>_ s'. inv s' \<and> grown n (ab s) (ab s')) s"
  using assms
proof (induction k arbitrary: s)
  case (Suc k)
  show ?case
    unfolding create_replicas.simps orc
  proof (rule wp_step [OF GetReplicaName_wp [OF Suc.prems(1,2)]], goal_cases)
    case (1 name s1)
    then have s1: "inv s1" "ab s1 = ab s" "ms_monitors s1 = ms_monitors s" "ok name" by (auto simp: harmless_def)
    let ?Q = "\<lambda>_ s2. inv s2 \<and> (\<exists>a k. grown n (ab s) a \<and> a_reps a n k = None \<and> grown n a (ab s2) \<and> a_reps (ab s2) n k \<noteq> None) \<and>
      ms_monitors s2 = ms_monitors s"
    have "wp (io (orc_CreateReplica orc n name)) ?Q (\<lambda>_ s2. inv s2 \<and> grown n (ab s) (ab s2)) s1"
      unfolding wp_io
      by (rule wp_mono [OF create_replica [OF s1(1) Suc.prems(2) s1(4)]]) (use s1 Suc.prems(3) in auto)
    then show ?case
    proof (rule wp_step, goal_cases)
      case (1 _ s2)
      then obtain a k' where s2: "inv s2" "grown n (ab s) a" "a_reps a n k' = None" "grown n a (ab s2)" "a_reps (ab s2) n k' \<noteq> None"
        "ms_monitors s2 = ms_monitors s" by blast
      have "a_base (ab s2) n \<noteq> None" using grown_base s2(2,4) Suc.prems(3) by metis
      from Suc.IH [OF s2(1) Suc.prems(2) this] show ?case
        by (rule wp_mono) (use s2 added_Suc [OF s2(2-5)] grown_trans in \<open>metis, metis\<close>)
    qed auto
  qed simp
qed (simp add: wp_simps)

lemma found_count:
  assumes "found a n (Some vol)" and "typed known ok a" and "added k n a0 a"
  shows "k \<le> length (replicas_of vol)"
proof -
  note fd = foundD [OF assms(1,2)]
  obtain ks where ks: "distinct ks" "length ks = k" "set ks \<subseteq> dom (a_reps a n)" using assms(3) by (auto simp: added_def)
  have "set ks \<subseteq> fst ` set (replicas_of vol)" using ks(3) by (simp add: fd(2) [symmetric] dom_map_of_conv_image_fst)
  then have "card (set ks) \<le> card (fst ` set (replicas_of vol))" by (intro card_mono) auto
  then show ?thesis using ks(1,2) card_image_le [of "set (replicas_of vol)" fst] card_length [of "replicas_of vol"]
    by (simp add: distinct_card)
qed

lemma doCreate_wp:
  assumes s: "inv s" and n: "ok (v_Name volume)" and v: "volume_ints_ok volume"
  shows "wp (doCreate man volume) (\<lambda>r s'. inv s' \<and> created volume (ab s) (ab s') r)
    (\<lambda>_ s'. inv s' \<and> only (v_Name volume) (ab s) (ab s')) s"
proof -
  let ?n = "v_Name volume" and ?now = "Now (vm_env man) (ms_w s)"
  let ?vol = "volume\<lparr>v_Created := fst ?now\<rparr>" and ?s = "s\<lparr>ms_w := snd ?now\<rparr>"
  let ?base = "?vol\<lparr>v_Controller := None, v_Replicas := None\<rparr>"
  have s0: "inv ?s" "ab ?s = ab s" using now [OF s] by (auto simp: Now_def harmless_def split: prod.split)
  have "wp (io (orc_CreateVolume orc ?vol)) (\<lambda>r s'. r = ?vol \<and> inv s' \<and> ab s' = rebased ?vol (ab s))
      (\<lambda>_ s'. inv s' \<and> only ?n (ab s) (ab s')) ?s"
    unfolding wp_io by (rule wp_mono [OF create_volume]) (use s0 n v in \<open>auto simp: volume_ints_ok_def\<close>)
  then have "wp (tryE (io (orc_CreateVolume orc ?vol)) (wrap (''failed to create volume '' @ ?n)) (\<lambda>vol.
      tryE (create_replicas man (v_Name vol) (nat (v_NumberOfReplicas vol))) id (\<lambda>_. Manager_Get man ?n)))
      (\<lambda>r s'. inv s' \<and> created volume (ab s) (ab s') r) (\<lambda>_ s'. inv s' \<and> only ?n (ab s) (ab s')) ?s"
  proof (rule wp_step, goal_cases)
    case (1 r s1)
    then have s1: "inv s1" "ab s1 = rebased ?vol (ab s)" "r = ?vol" by auto
    have o1: "only ?n (ab s) (ab s1)" "a_base (ab s1) ?n \<noteq> None" using s1(2) by (simp_all add: only_def)
    have e: "v_Name r = ?n" "v_NumberOfReplicas r = v_NumberOfReplicas volume" using s1(3) by simp_all
    show ?case
      unfolding e
    proof (rule wp_step [OF create_replicas_wp [where s = s1 and n = ?n and k = "nat (v_NumberOfReplicas volume)"]], goal_cases)
      case (4 _ s2)
      then have s2: "inv s2" "added (nat (v_NumberOfReplicas volume)) ?n (ab s1) (ab s2)" by auto
      have g: "grown ?n (ab s1) (ab s2)" using s2(2) by (simp add: added_def)
      have o2: "only ?n (ab s) (ab s2)" "a_base (ab s2) ?n = Some ?base"
        using only_grown [OF o1(1) g] grown_base [OF g] s1(2) by auto
      show ?case
      proof (rule wp_mono [OF Manager_Get_wp [OF s2(1) n]], goal_cases)
        case (1 r s3)
        then have s3: "inv s3" "ab s3 = ab s2" "found (ab s2) ?n r" by (auto simp: harmless_def)
        then obtain vol where vol: "r = Some vol" using o2(2) by (cases r) auto
        have "nat (v_NumberOfReplicas volume) \<le> length (replicas_of vol)"
          using found_count [OF _ good_typed [OF s2(1)] s2(2)] s3(3) vol by blast
        then show ?case
          using s3 vol o2 unfolding created_def by auto
      qed (use o2 s2 in \<open>auto simp: harmless_def\<close>)
    qed (use s1(1) n o1(2) only_grown [OF o1(1)] in auto)
  qed auto
  then show ?thesis
    by (simp add: doCreate_def Let_def wp_st iost_eq)
qed

lemma Create_wp:
  assumes s: "inv s" and n: "ok (v_Name volume)" and v: "volume_ints_ok volume" and b: "v_FromBackup volume = []"
  shows "wp (Create man volume)
    (\<lambda>r s'. inv s' \<and> a_base (ab s) (v_Name volume) = None \<and> (\<exists>img. img \<noteq> [] \<and> (v_EngineImage volume \<noteq> [] \<longrightarrow> img = v_EngineImage volume) \<and>
       created (volume\<lparr>v_EngineImage := img\<rparr>) (ab s) (ab s') r))
    (\<lambda>_ s'. inv s' \<and> only (v_Name volume) (ab s) (ab s')) s"
  unfolding Create_def orc
proof (rule wp_step [OF Manager_Get_wp [OF s n]], goal_cases)
  case (1 r s1)
  then have s1: "inv s1" "ab s1 = ab s" by (auto simp: harmless_def)
  show ?case
  proof (cases r)
    case None
    then have none: "a_base (ab s) (v_Name volume) = None" using 1 by simp
    have "wp (io (orc_GetSettings orc)) (\<lambda>_ s'. inv s' \<and> ab s' = ab s) (\<lambda>_ s'. inv s' \<and> ab s' = ab s) s1"
      unfolding wp_io by (rule wp_mono [OF get_settings [OF s1(1)]]) (use s1 in auto)
    then show ?thesis
      unfolding None
    proof (simp only: simp_thms if_False, rule wp_attempt_step, goal_cases)
      case (1 si s2)
      then have s2: "inv s2" "ab s2 = ab s" by auto
      show ?case
      proof (cases si)
        case (Some settings)
        let ?vol = "if v_EngineImage volume = [] then volume\<lparr>v_EngineImage := s_EngineImage settings\<rparr> else volume"
        obtain img where img: "?vol = volume\<lparr>v_EngineImage := img\<rparr>" "v_EngineImage volume \<noteq> [] \<longrightarrow> img = v_EngineImage volume"
          by (cases "v_EngineImage volume = []") auto
        have "wp (doCreate man (volume\<lparr>v_EngineImage := img\<rparr>)) (\<lambda>r s'. inv s' \<and> created (volume\<lparr>v_EngineImage := img\<rparr>) (ab s) (ab s') r)
            (\<lambda>_ s'. inv s' \<and> only (v_Name volume) (ab s) (ab s')) s2"
          using doCreate_wp [OF s2(1), of "volume\<lparr>v_EngineImage := img\<rparr>"] n v s2(2) by (simp add: volume_ints_ok_def)
        then show ?thesis
          using s2 none b img(2)
          unfolding Some sum.case option.case Let_def img(1)
          by (auto simp: wp_simps frame_intros elim!: wp_mono)
      qed (use s2 in \<open>simp add: wp_simps frame_intros\<close>)
    qed (auto simp: wp_simps frame_intros)
  qed (use s1 in \<open>simp add: wp_simps frame_intros\<close>)
qed (use s in \<open>auto simp: harmless_def frame_intros\<close>)

subsection \<open>Attaching\<close>

lemma startMonitoring_wp:
  assumes "inv s"
  shows "wp (startMonitoring man vol) (\<lambda>_ s'. still s s' \<and> map_of (ms_monitors s') (v_Name vol) \<noteq> None) (\<lambda>_ _. False) s"
  using monitor_begin [OF assms, of vol] assms
  by (auto simp: wp_def startMonitoring_def harmless_def Let_def split: prod.split)

lemma start_replicas:
  assumes "inv s" and "\<forall>(k, r) \<in> set rs. inst_ok known ok (r_InstanceInfo r) \<and> i_Type (r_InstanceInfo r) = InstanceTypeReplica \<and>
    i_VolumeName (r_InstanceInfo r) = n"
  shows "wp (together (\<lambda>(k, r). start_replica man r) rs) (\<lambda>_. moved InstanceTypeReplica n s) (\<lambda>_. moved InstanceTypeReplica n s) s"
proof (rule together_moved [OF _ assms(1)])
  fix x s assume x: "x \<in> set rs" and s: "inv s"
  obtain k r where kr: "x = (k, r)" by fastforce
  then have r: "inst_ok known ok (r_InstanceInfo r)" "i_Type (r_InstanceInfo r) = InstanceTypeReplica" "i_VolumeName (r_InstanceInfo r) = n"
    using assms(2) x by auto
  show "wp (case x of (k, r) \<Rightarrow> start_replica man r) (\<lambda>_. moved InstanceTypeReplica n s) (\<lambda>_. moved InstanceTypeReplica n s) s"
    using io_start [OF s r(1)] r by (simp add: kr start_replica_def wp_tryE_ret)
qed

text \<open>What attaching leaves: a controller, a monitor, and every other entry as it was.\<close>

abbreviation attached :: "string \<Rightarrow> ('w, 'm) man \<Rightarrow> ('w, 'm) man \<Rightarrow> bool" where
  "attached n s s' \<equiv> within n s s' \<and> a_ctrl (ab s') n \<noteq> None \<and> map_of (ms_monitors s') n \<noteq> None"

lemma attach_start_wp:
  assumes t: "within n s0 s" "a_base (ab s) n \<noteq> None" and n: "ok n" "v_Name vol = n"
    and rs: "\<forall>(k, r) \<in> set rs. inst_ok known ok (r_InstanceInfo r) \<and> i_Type (r_InstanceInfo r) = InstanceTypeReplica \<and>
      i_VolumeName (r_InstanceInfo r) = n"
  shows "wp (attach_start man vol rs) (\<lambda>_. attached n s0) (\<lambda>_. within n s0) s"
  unfolding attach_start_def orc Let_def
proof (rule wp_step [OF start_replicas [where s = s, OF _ rs]], goal_cases)
  case (2 _ s1)
  then have s1: "within n s0 s1" "a_base (ab s1) n \<noteq> None" using moved_within [OF t(1)] t(2) touched_base by (blast, metis)
  have "wp (io (orc_CreateController orc n (GetControllerName n) rs))
      (\<lambda>_ s'. moved InstanceTypeController n s1 s' \<and> a_ctrl (ab s') n \<noteq> None) (\<lambda>_. moved InstanceTypeController n s1) s1"
    unfolding wp_io by (rule wp_mono [OF create_controller [OF _ n(1) s1(2)]]) (use s1(1) in \<open>auto simp: touched_def\<close>)
  then have "wp (io (orc_CreateController orc n (GetControllerName n) rs)) (\<lambda>_ s'. within n s0 s' \<and> a_ctrl (ab s') n \<noteq> None)
      (\<lambda>_. within n s0) s1"
    by (rule wp_mono) (use moved_within [OF s1(1)] in blast)+
  then show ?case
    unfolding n(2)
  proof (rule wp_step, goal_cases)
    case (1 c s2)
    then have "inv s2" by blast
    then have "wp (startMonitoring man (vol\<lparr>v_Controller := Some c\<rparr>))
        (\<lambda>_ s'. still s2 s' \<and> map_of (ms_monitors s') n \<noteq> None) (\<lambda>_ _. False) s2"
      using startMonitoring_wp [of s2 "vol\<lparr>v_Controller := Some c\<rparr>"] n(2) by simp
    then show ?case
      by (rule wp_step) (use 1 in \<open>auto simp: wp_ret harmless_def\<close>)
  qed auto
qed (use t moved_within [OF t(1)] in auto)

lemma attach_replicas_wp:
  assumes t: "within n s0 s" "a_base (ab s) n \<noteq> None" and n: "ok n" "v_Name vol = n"
    and rs: "\<forall>(k, r) \<in> set (replicas_of vol). inst_ok known ok (r_InstanceInfo r) \<and> i_Type (r_InstanceInfo r) = InstanceTypeReplica \<and>
      i_VolumeName (r_InstanceInfo r) = n"
    and u: "\<forall>(k, r) \<in> set (replicas_of vol). unmarked r"
  shows "wp (attach_replicas man vol) (\<lambda>_. attached n s0) (\<lambda>_. within n s0) s"
proof -
  obtain stops reps where scan: "attach_scan (replicas_of vol) [] [] None = (stops, Some (reps, None))"
    "set stops \<subseteq> snd ` set (replicas_of vol)" "set reps \<subseteq> set (replicas_of vol)"
    using attach_scan_unmarked [OF u, of "[]" "[]"] by auto
  have "wp (together (stop_replica man) stops) (\<lambda>_. moved InstanceTypeReplica n s) (\<lambda>_. moved InstanceTypeReplica n s) s"
  proof (rule together_moved)
    fix r s assume r: "r \<in> set stops" and s: "inv s"
    then obtain k where "(k, r) \<in> set (replicas_of vol)" using scan(2) by auto
    then show "wp (stop_replica man r) (\<lambda>_. moved InstanceTypeReplica n s) (\<lambda>_. moved InstanceTypeReplica n s) s"
      using stop_replica_wp [OF s] rs by blast
  qed (use t in simp)
  then show ?thesis
    unfolding attach_replicas_def scan(1) prod.case option.case Let_def
  proof (rule wp_step, goal_cases)
    case (1 _ s1)
    then have s1: "within n s0 s1" "a_base (ab s1) n \<noteq> None" using moved_within [OF t(1)] t(2) touched_base by (blast, metis)
    show ?case
      using s1 attach_start_wp [OF s1 n, of reps] rs scan(3) by (auto simp: wp_if wp_fail subset_iff)
  qed (use moved_within [OF t(1)] in auto)
qed

lemma doAttach_wp:
  assumes s: "inv s" and n: "ok n" and f: "found (ab s) n (Some vol)" and u: "\<forall>(k, r) \<in> set (replicas_of vol). unmarked r"
  shows "wp (doAttach man vol) (\<lambda>_. attached n s) (\<lambda>_. within n s) s"
proof -
  note fd = foundD [OF f good_typed [OF s]]
  have rs: "\<forall>(k, r) \<in> set (replicas_of vol). inst_ok known ok (r_InstanceInfo r) \<and> i_Type (r_InstanceInfo r) = InstanceTypeReplica \<and>
      i_VolumeName (r_InstanceInfo r) = n" using fd(7) by auto
  have at: "wp (attach_replicas man vol) (\<lambda>_. attached n s) (\<lambda>_. within n s) s1" if "within n s s1" for s1
    using attach_replicas_wp [OF that _ n fd(5) rs u] fd(4) that by auto
  have "wp (startMonitoring man vol) (\<lambda>_ s'. still s s' \<and> map_of (ms_monitors s') n \<noteq> None) (\<lambda>_ _. False) s"
    using startMonitoring_wp [OF s, of vol] fd(5) by simp
  then have here: "wp (tryE (startMonitoring man vol) id (\<lambda>_. ret vol)) (\<lambda>_. attached n s) (\<lambda>_. within n s) s"
    if "controller_here man vol"
    by (rule wp_step) (use that fd(1) in \<open>auto simp: wp_ret harmless_def frame_intros controller_here_def split: option.splits\<close>)
  have "wp (if v_Controller vol \<noteq> None
        then tryE (Detach man n) (wrap (''failed to detach before reattaching volume '' @ n)) ret else ret ())
      (\<lambda>_. within n s) (\<lambda>_. within n s) s"
    using wp_mono [OF Detach_wp [OF s n]] s by (auto simp: wp_if wp_ret wp_tryE_ret frame_intros)
  from wp_step [OF this at] show ?thesis
    using here by (auto simp: doAttach_def fd(5))
qed

lemma Attach_wp:
  assumes s: "inv s" and n: "ok n" and b: "a_base (ab s) n \<noteq> None" and u: "\<forall>k r. a_reps (ab s) n k = Some r \<longrightarrow> unmarked r"
  shows "wp (Attach man n) (\<lambda>_. attached n s) (\<lambda>_. within n s) s"
  unfolding Attach_def
proof (rule wp_step [OF Manager_Get_wp [OF s n]], goal_cases)
  case (1 r s1)
  then have s1: "inv s1" "ab s1 = ab s" "found (ab s) n r" by (auto simp: harmless_def)
  then obtain vol where vol: "r = Some vol" using b by (cases r) auto
  note fd = foundD [OF s1(3) [unfolded vol] good_typed [OF s]]
  have "\<forall>(k, r) \<in> set (replicas_of vol). unmarked r"
    using u map_of_is_SomeI [OF fd(3)] unfolding fd(2) by blast
  then have "wp (doAttach man vol) (\<lambda>_. attached n s1) (\<lambda>_. within n s1) s1"
    using doAttach_wp [OF s1(1) n] s1 vol by simp
  then show ?case
    unfolding vol option.case by (rule wp_step) (use s1(2) in \<open>simp_all add: wp_ret\<close>)
qed (use s in \<open>auto simp: harmless_def frame_intros\<close>)

end

end
