(* ===== verification/DockerOrc.thy ===== *)
theory DockerOrc
  imports ManagerSpec
begin

text \<open>
  The docker orchestrator as the manager sees it: \<open>docker_Orchestrator\<close> is the struct as an
  instance of the interface.  The locale \<open>docker_engine\<close> is one host: beyond \<open>docker_host\<close> it
  relies on the container engine giving a new container an ID that no recorded replica has,
  and an item of the scheduler is carried out there (\<open>carried\<close>).  The locale \<open>docker_cluster\<close>
  adds the managers of the other hosts (an item that is sent to one is carried out there, and
  one that is reported as failed was carried out or not) and shows that the orchestrator
  keeps the contract \<open>orchestrator\<close>.
\<close>

definition docker_Orchestrator :: "'w dockerOrc \<Rightarrow> 'w Orchestrator" where
  "docker_Orchestrator d = \<lparr>orc_CreateVolume = docker_CreateVolume d, orc_DeleteVolume = docker_DeleteVolume d,
     orc_GetVolume = docker_GetVolume d, orc_ListVolumes = docker_ListVolumes d, orc_MarkBadReplica = MarkBadReplica d,
     orc_UpdateVolume = UpdateVolume d, orc_CreateController = CreateController d, orc_CreateReplica = CreateReplica d,
     orc_StartInstance = StartInstance d, orc_StopInstance = StopInstance d, orc_RemoveInstance = RemoveInstance d,
     orc_ListHosts = docker_ListHosts d, orc_GetHost = docker_GetHost d, orc_Process = Some (Process (docker_sched d)),
     orc_GetCurrentHostID = GetCurrentHostID d, orc_GetAddress = GetAddress d, orc_GetSettings = docker_GetSettings d,
     orc_SetSettings = docker_SetSettings d\<rparr>"

section \<open>Items that are carried out\<close>

definition creates :: "ScheduleItem \<Rightarrow> bool" where
  "creates item \<longleftrightarrow> it_Action item \<in> {ScheduleActionCreateController, ScheduleActionCreateReplica}"

definition deletes :: "ScheduleItem \<Rightarrow> bool" where
  "deletes item \<longleftrightarrow> it_Action item = ScheduleActionDeleteInstance"

text \<open>The items the orchestrator makes: they name the volume and the instance by legal key
  components, and the data of an item that creates is of the same volume.\<close>

definition sched_item :: "(string \<Rightarrow> bool) \<Rightarrow> ScheduleItem \<Rightarrow> bool" where
  "sched_item ok item \<longleftrightarrow> ok (si_VolumeName (it_Instance item)) \<and>
     (si_Name (it_Instance item) = [] \<or> ok (si_Name (it_Instance item))) \<and>
     si_Type (it_Instance item) \<in> {InstanceTypeController, InstanceTypeReplica} \<and>
     (it_Action item = ScheduleActionCreateController \<longrightarrow> si_Type (it_Instance item) = InstanceTypeController) \<and>
     (it_Action item = ScheduleActionCreateReplica \<longrightarrow> si_Type (it_Instance item) = InstanceTypeReplica) \<and>
     (creates item \<longrightarrow> (\<forall>sdata. ProcessSchedule_data item = Some sdata \<longrightarrow>
        ds_VolumeName sdata = si_VolumeName (it_Instance item)))"

text \<open>The instance that comes of an item on a host.\<close>

definition instance_of :: "(string \<Rightarrow> bool) \<Rightarrow> string \<Rightarrow> ScheduleItem \<Rightarrow> InstanceInfo \<Rightarrow> bool" where
  "instance_of ok h item i \<longleftrightarrow> i_HostID i = h \<and> i_VolumeName i = si_VolumeName (it_Instance item) \<and>
     i_Type i = si_Type (it_Instance item) \<and> ok (i_VolumeName i) \<and>
     (if deletes item then i_Name i = si_Name (it_Instance item) \<and> (i_Name i = [] \<or> ok (i_Name i)) else ok (i_Name i))"

text \<open>The item was carried out: its one record is written or removed, and the record of a replica
  that was created is a new one.\<close>

definition carried :: "(string \<Rightarrow> bool) \<Rightarrow> string \<Rightarrow> ScheduleItem \<Rightarrow> InstanceInfo \<Rightarrow> kv_abs \<Rightarrow> kv_abs \<Rightarrow> bool" where
  "carried ok h item i a a' \<longleftrightarrow> instance_of ok h item i \<and> recorded_once (deletes item) i a a' \<and>
     (it_Action item = ScheduleActionCreateReplica \<longrightarrow> a_reps a (i_VolumeName i) (i_Name i) = None)"

text \<open>Attempts on several hosts, one after the other.\<close>

definition attempts :: "(string \<Rightarrow> bool) \<Rightarrow> (string \<Rightarrow> bool) \<Rightarrow> ScheduleItem \<Rightarrow> kv_abs \<Rightarrow> kv_abs \<Rightarrow> bool" where
  "attempts known ok item = (\<lambda>a a'. \<exists>h i. known h \<and> carried ok h item i a a')\<^sup>*\<^sup>*"

lemma attempts_refl [simp]: "attempts known ok item a a"
  by (simp add: attempts_def)

lemma attempts_one: "known h \<Longrightarrow> carried ok h item i a a' \<Longrightarrow> attempts known ok item a a'"
  unfolding attempts_def by blast

lemma attempts_trans: "attempts known ok item a b \<Longrightarrow> attempts known ok item b c \<Longrightarrow> attempts known ok item a c"
  unfolding attempts_def by (rule rtranclp_trans)

lemma attempts_induct [consumes 1, case_names refl step]:
  assumes "attempts known ok item a a'" and "P a"
    and "\<And>b c h i. \<lbrakk>P b; known h; carried ok h item i b c\<rbrakk> \<Longrightarrow> P c"
  shows "P a'"
  using assms(1) unfolding attempts_def by (induction rule: rtranclp_induct) (use assms(2,3) in blast)+

lemma carried_touched:
  assumes "carried ok h item i a a'" and "sched_item ok item"
  shows "touched (i_Type i) (i_VolumeName i) a a'"
  using assms by (auto simp: carried_def recorded_once_def record_instance_def forget_instance_def touched_def instance_of_def
    sched_item_def split: if_splits)

lemma carried_grown:
  assumes "carried ok h item i a a'" and "sched_item ok item" and "it_Action item = ScheduleActionCreateReplica"
  shows "grown (i_VolumeName i) a a'" and "a_reps a' (i_VolumeName i) (i_Name i) \<noteq> None"
  using assms by (auto simp: carried_def recorded_once_def record_instance_def grown_def instance_of_def
    sched_item_def deletes_def dom_def split: if_splits)

lemma carried_inst_ok:
  "carried ok h item i a a' \<Longrightarrow> sched_item ok item \<Longrightarrow> known h \<Longrightarrow> inst_ok known ok i"
  by (auto simp: carried_def instance_of_def inst_ok_def sched_item_def split: if_splits)

lemma carried_typed:
  assumes "carried ok h item i a a'" and "sched_item ok item" and "known h" and "typed known ok a"
  shows "typed known ok a'"
proof -
  have r: "i_Type (r_InstanceInfo r) = InstanceTypeReplica \<and> i_VolumeName (r_InstanceInfo r) = v \<and>
      i_Name (r_InstanceInfo r) = n \<and> inst_ok known ok (r_InstanceInfo r)" if "a_reps a v n = Some r" for v n r
    using assms(4) that unfolding typed_def by blast
  have i: "inst_ok known ok i" by (rule carried_inst_ok [where known = known, OF assms(1-3)])
  consider "deletes item" "a' = forget_instance i a" | "\<not> deletes item" "a' = record_instance i a"
    using assms(1) by (auto simp: carried_def recorded_once_def split: if_splits)
  then show ?thesis
  proof cases
    case 1
    then show ?thesis using assms(4) unfolding typed_def forget_instance_def by (auto split: if_splits)
  next
    case 2
    then show ?thesis using assms(4) i unfolding typed_def record_instance_def by (auto split: if_splits option.splits)
  qed
qed

lemma touched_hosts: "touched ty v a a' \<Longrightarrow> a_hosts a' = a_hosts a"
  by (auto simp: touched_def split: if_splits)

lemma attempts_keep:
  assumes "attempts known ok item a a'" and "sched_item ok item" and "typed known ok a"
  shows "typed known ok a' \<and> touched (si_Type (it_Instance item)) (si_VolumeName (it_Instance item)) a a' \<and> a_hosts a' = a_hosts a"
  using assms(1)
proof (induction rule: attempts_induct)
  case refl
  then show ?case using assms(3) by (simp add: frame_intros)
next
  case (step b c h i)
  have "touched (si_Type (it_Instance item)) (si_VolumeName (it_Instance item)) b c"
    using carried_touched [OF step(3) assms(2)] step(3) by (simp add: carried_def instance_of_def)
  then show ?case
    using step carried_typed [where known = known, OF step(3) assms(2) step(2)] touched_trans touched_hosts by metis
qed

lemma attempts_grown:
  assumes "attempts known ok item a a'" and "sched_item ok item" and "it_Action item = ScheduleActionCreateReplica"
  shows "grown (si_VolumeName (it_Instance item)) a a'"
  using assms(1)
proof (induction rule: attempts_induct)
  case (step b c h i)
  then show ?case
    using carried_grown(1) [OF step(3) assms(2,3)] grown_trans by (auto simp: carried_def instance_of_def)
qed (simp add: frame_intros)

lemma typed_sub:
  assumes "typed known ok a" and "a_base a' \<subseteq>\<^sub>m a_base a" and "a_ctrl a' \<subseteq>\<^sub>m a_ctrl a" and "\<And>v. a_reps a' v \<subseteq>\<^sub>m a_reps a v"
  shows "typed known ok a'"
proof -
  have "a_base a' v = Some x \<Longrightarrow> a_base a v = Some x" "a_ctrl a' v = Some c \<Longrightarrow> a_ctrl a v = Some c"
    "a_reps a' v n = Some r \<Longrightarrow> a_reps a v n = Some r" for v x c n r
    using assms(2-4) by (metis domI map_le_def)+
  then show ?thesis using assms(1) unfolding typed_def by blast
qed

section \<open>The orchestrator's surroundings\<close>

definition new_id :: "string \<Rightarrow> kv_abs \<Rightarrow> bool" where
  "new_id cid a \<longleftrightarrow> (\<forall>v n r. a_reps a v n = Some r \<longrightarrow> i_ID (r_InstanceInfo r) \<noteq> cid)"

text \<open>A good state: the store is well-formed, its records are typed, and the known hosts are those
  registered, and the current one.\<close>

definition docker_good :: "('w \<Rightarrow> tree) \<Rightarrow> ('w \<Rightarrow> bool) \<Rightarrow> string list \<Rightarrow> (string \<Rightarrow> bool) \<Rightarrow> (string \<Rightarrow> bool) \<Rightarrow> 'w dockerOrc \<Rightarrow> 'w \<Rightarrow> bool" where
  "docker_good view binv pre ok known d w \<longleftrightarrow> (binv w \<and> kv_wf pre (view w)) \<and> typed known ok (abs_of pre (view w)) \<and>
     (\<forall>h. known h \<longleftrightarrow> h = GetCurrentHostID d \<or> a_hosts (abs_of pre (view w)) h \<noteq> None)"

text \<open>One host: its container engine gives a new container an ID no recorded replica has.\<close>

locale docker_engine = docker_host b view binv up pre ok d + kv_backend_rec b view binv up pre ok
  for b :: "'w Backend" and view binv up pre ok and d :: "'w dockerOrc" +
  fixes full_id :: "string \<Rightarrow> bool"
  assumes create_new: "\<lbrakk>binv w; kv_wf pre (view w)\<rbrakk> \<Longrightarrow>
      wp (cli_ContainerCreate (do_cli d) cfg n) (\<lambda>cid _. full_id cid \<and> new_id cid (abs_of pre (view w))) (\<lambda>_ _. True) w"
    and inspect_full: "full_id i \<Longrightarrow> quietly view binv up (cli_ContainerInspect (do_cli d) i) (\<lambda>j. cj_ID j = i)"
begin

abbreviation cur :: string where "cur \<equiv> GetCurrentHostID d"

lemma docker_sched_ops [simp]:
  "ops_ListHosts (sch_ops (docker_sched d)) = docker_ListHosts d"
  "ops_GetHost (sch_ops (docker_sched d)) = docker_GetHost d"
  "ops_GetCurrentHostID (sch_ops (docker_sched d)) = cur"
  "ops_ProcessSchedule (sch_ops (docker_sched d)) = ProcessSchedule d"
  "sch_http (docker_sched d) = do_http d"
  by (simp_all add: docker_sched_def docker_ops_def)

subsection \<open>Instances on this host\<close>

lemma createReplica_new:
  assumes "wfs w"
  shows "wp (createReplica d sdata)
    (\<lambda>i w'. still w w' \<and> fresh d ok (ds_VolumeName sdata) InstanceTypeReplica i \<and> new_id (i_ID i) (abst w)) (\<lambda>_. still w) w"
proof -
  have refresh: "quiet (refreshInstanceInfo d inst) (\<lambda>i. fresh d ok (i_VolumeName inst) (i_Type inst) i \<and> i_ID i = i_ID inst)"
    if "full_id (i_ID inst)" for inst
  proof -
    have "quiet (refreshInstanceInfo d inst) (\<lambda>i. i_ID i = i_ID inst)"
      unfolding refreshInstanceInfo_def Let_def
      by (rule quietly_tryE [OF quietly_both [OF inspect inspect_full [OF that]]]) (auto intro!: quiet_intros)
    then show ?thesis by (rule quietly_both [OF refreshInstanceInfo_quiet])
  qed
  have c: "wp (cli_ContainerCreate (do_cli d) cfg n) (\<lambda>cid w'. still w w' \<and> full_id cid \<and> new_id cid (abst w)) (\<lambda>_. still w) w" for cfg n
    by (rule wp_mono [OF wp_conj [OF quietlyD [OF create calm_refl] create_new]]) (use assms in auto)
  show ?thesis
    unfolding createReplica_def Let_def
  proof (rule wp_step [OF c], goal_cases)
    case (1 cid w1)
    let ?input = "\<lparr>i_ID = cid, i_Type = InstanceTypeReplica, i_Name = ds_InstanceName sdata, i_HostID = GetCurrentHostID d,
      i_Address = [], i_Running = False, i_VolumeName = ds_VolumeName sdata\<rparr>"
    have f: "full_id (i_ID ?input)" and w1: "still w w1" using 1 by auto
    show ?case
    proof (rule wp_attempt_step [OF quietlyD [OF refresh [OF f] w1]], goal_cases)
      case (1 i w2)
      then show ?case using \<open>still w w1 \<and> full_id cid \<and> new_id cid (abst w)\<close> by (simp add: wp_ret)
    next
      case (2 e w2)
      then show ?case
        by (simp, intro wp_attempt_step [OF quietlyD [OF removeInstance_quiet]]) (auto simp: wp_fail)
    qed
  qed auto
qed

lemma fresh_instance_of:
  assumes "fresh d ok v ty i" and "sched_item ok item" and "v = si_VolumeName (it_Instance item)" and "ty = si_Type (it_Instance item)"
    and "\<not> deletes item"
  shows "instance_of ok cur item i"
  using assms by (auto simp: fresh_def instance_of_def sched_item_def)

lemma action_instance:
  assumes w: "wfs w" and item: "sched_item ok item" and del: "deletes item \<longrightarrow> si_HostID (it_Instance item) = cur"
    and sdata: "ProcessSchedule_data item = Some sdata"
    and action: "ProcessSchedule_action d item sdata \<lparr>i_ID = si_ID (it_Instance item), i_Type = si_Type (it_Instance item),
        i_Name = si_Name (it_Instance item), i_HostID = si_HostID (it_Instance item), i_Address = [],
        i_Running = False, i_VolumeName = si_VolumeName (it_Instance item)\<rparr> = Some action"
  shows "wp action (\<lambda>i w'. still w w' \<and> instance_of ok cur item i \<and>
    (it_Action item = ScheduleActionCreateReplica \<longrightarrow> new_id (i_ID i) (abst w))) (\<lambda>_. still w) w"
proof -
  have q: "wp m (\<lambda>i w'. still w w' \<and> instance_of ok cur item i \<and>
      (it_Action item = ScheduleActionCreateReplica \<longrightarrow> new_id (i_ID i) (abst w))) (\<lambda>_. still w) w"
    if "quiet m P" "\<And>i. P i \<Longrightarrow> instance_of ok cur item i" "it_Action item \<noteq> ScheduleActionCreateReplica" for m P
    by (rule wp_mono [OF quietlyD [OF that(1) calm_refl]]) (use that w in auto)
  have vol: "ds_VolumeName sdata = si_VolumeName (it_Instance item)" if "creates item"
    using item sdata that by (auto simp: sched_item_def)
  consider (cc) "it_Action item = ScheduleActionCreateController" | (cr) "it_Action item = ScheduleActionCreateReplica"
    | (start) "it_Action item = ScheduleActionStartInstance" | (stop) "it_Action item = ScheduleActionStopInstance"
    | (del) "it_Action item = ScheduleActionDeleteInstance"
    using action by (auto simp: ProcessSchedule_action_def split: if_splits)
  then show ?thesis
  proof cases
    case cc
    then have "quiet action (fresh d ok (ds_VolumeName sdata) InstanceTypeController)"
      using action createController_quiet by (auto simp: ProcessSchedule_action_def)
    then show ?thesis
      by (rule q) (use cc vol item fresh_instance_of in \<open>auto simp: creates_def deletes_def sched_item_def\<close>)
  next
    case cr
    then have "action = createReplica d sdata" using action by (auto simp: ProcessSchedule_action_def)
    then show ?thesis
      by (simp, intro wp_mono [OF createReplica_new [OF w]])
        (use cr vol item fresh_instance_of in \<open>auto simp: creates_def deletes_def sched_item_def\<close>)
  next
    case start
    then have "quiet action (fresh d ok (si_VolumeName (it_Instance item)) (si_Type (it_Instance item)))"
      using action start startInstance_quiet [of "\<lparr>i_ID = si_ID (it_Instance item), i_Type = si_Type (it_Instance item), i_Name = si_Name (it_Instance item),
        i_HostID = si_HostID (it_Instance item), i_Address = [], i_Running = False, i_VolumeName = si_VolumeName (it_Instance item)\<rparr>"]
      by (auto simp: ProcessSchedule_action_def)
    then show ?thesis
      by (rule q) (use start item fresh_instance_of in \<open>auto simp: deletes_def\<close>)
  next
    case stop
    then have "quiet action (fresh d ok (si_VolumeName (it_Instance item)) (si_Type (it_Instance item)))"
      using action stop stopInstance_quiet [of "\<lparr>i_ID = si_ID (it_Instance item), i_Type = si_Type (it_Instance item), i_Name = si_Name (it_Instance item),
        i_HostID = si_HostID (it_Instance item), i_Address = [], i_Running = False, i_VolumeName = si_VolumeName (it_Instance item)\<rparr>"]
      by (auto simp: ProcessSchedule_action_def)
    then show ?thesis
      by (rule q) (use stop item fresh_instance_of in \<open>auto simp: deletes_def\<close>)
  next
    case d: del
    show ?thesis
    proof (rule q)
      show "quiet action (\<lambda>i. i = \<lparr>i_ID = si_ID (it_Instance item), i_Type = si_Type (it_Instance item),
          i_Name = si_Name (it_Instance item), i_HostID = si_HostID (it_Instance item), i_Address = [],
          i_Running = False, i_VolumeName = si_VolumeName (it_Instance item)\<rparr>)"
        using d action removeInstance_quiet by (auto simp: ProcessSchedule_action_def)
    qed (use d item del in \<open>auto simp: instance_of_def deletes_def sched_item_def\<close>)
  qed
qed

lemma new_id_record:
  assumes "new_id (i_ID i) a" and "i_Type i = InstanceTypeReplica" and "recorded_once False i a a'"
  shows "a_reps a (i_VolumeName i) (i_Name i) = None"
  using assms by (cases "a_reps a (i_VolumeName i) (i_Name i)") (auto simp: new_id_def recorded_once_def recorded_def other_instance_def)

lemma ProcessSchedule_carried:
  assumes w: "wfs w" and item: "sched_item ok item" and del: "deletes item \<longrightarrow> si_HostID (it_Instance item) = cur"
  shows "wp (ProcessSchedule d item)
    (\<lambda>r w'. wfs w' \<and> (\<exists>i. r = Some i \<and> carried ok cur item i (abst w) (abst w')))
    (\<lambda>_ w'. wfs w' \<and> (abst w' = abst w \<or> (\<exists>i. carried ok cur item i (abst w) (abst w')))) w"
proof -
  let ?P = "\<lambda>i. instance_of ok cur item i \<and> (it_Action item = ScheduleActionCreateReplica \<longrightarrow> new_id (i_ID i) (abst w))"
  have c: "carried ok cur item i (abst w) a'" if "?P i" "recorded_once (it_Action item = ScheduleActionDeleteInstance) i (abst w) a'" for i a'
  proof -
    have "a_reps (abst w) (i_VolumeName i) (i_Name i) = None" if r: "it_Action item = ScheduleActionCreateReplica"
      by (rule new_id_record [where a' = a']) (use that \<open>?P i\<close> \<open>recorded_once _ _ _ _\<close> r item in \<open>auto simp: instance_of_def sched_item_def\<close>)
    then show ?thesis using that by (simp add: carried_def deletes_def)
  qed
  show ?thesis
    by (rule wp_mono [OF ProcessSchedule_either [where P = ?P, OF w action_instance [OF w item del]]])
      (use c in \<open>auto simp: instance_of_def deletes_def stays_def\<close>)
qed

lemma Process_carried:
  assumes "wfs w" and "sched_item ok item" and "deletes item \<longrightarrow> si_HostID (it_Instance item) = cur"
  shows "wp (Process (docker_sched d) \<lparr>ss_HostID = cur\<rparr> item)
    (\<lambda>i w'. wfs w' \<and> carried ok cur item i (abst w) (abst w'))
    (\<lambda>_ w'. wfs w' \<and> (abst w' = abst w \<or> (\<exists>i. carried ok cur item i (abst w) (abst w')))) w"
  unfolding Process_def
  by (simp, rule wp_step [OF ProcessSchedule_carried [OF assms]]) (auto simp: wp_simps)

end

text \<open>A host among others: the items that are sent to the managers of the known hosts are carried out
  there (\<open>ApiProps\<close> shows it for a manager that is such a host itself).\<close>

locale docker_cluster = docker_engine b view binv up pre ok d full_id
  for b :: "'w Backend" and view binv up pre ok and d :: "'w dockerOrc" and known :: "string \<Rightarrow> bool" and full_id +
  assumes known_ok: "known h \<Longrightarrow> ok h"
    and remote: "\<lbrakk>binv w; kv_wf pre (view w); a_hosts (abs_of pre (view w)) h = Some host; sched_item ok item;
        deletes item \<longrightarrow> si_HostID (it_Instance item) = h\<rbrakk> \<Longrightarrow>
      wp (client_Schedule (do_http d) (newSchedulerClient host) item)
        (\<lambda>i w'. (binv w' \<and> kv_wf pre (view w')) \<and> carried ok h item i (abs_of pre (view w)) (abs_of pre (view w')))
        (\<lambda>_ w'. (binv w' \<and> kv_wf pre (view w')) \<and> (abs_of pre (view w') = abs_of pre (view w) \<or>
           (\<exists>i. carried ok h item i (abs_of pre (view w)) (abs_of pre (view w'))))) w"
begin

abbreviation good :: "'w \<Rightarrow> bool" where "good \<equiv> docker_good view binv pre ok known d"

lemmas good_def = docker_good_def

lemma goodD: "good w \<Longrightarrow> wfs w" "good w \<Longrightarrow> typed known ok (abst w)" "good w \<Longrightarrow> known cur"
    "good w \<Longrightarrow> known h \<Longrightarrow> h \<noteq> cur \<Longrightarrow> \<exists>x. a_hosts (abst w) h = Some x"
  by (auto simp: good_def)

lemma goodI: "good w \<Longrightarrow> wfs w' \<Longrightarrow> typed known ok (abst w') \<Longrightarrow> a_hosts (abst w') = a_hosts (abst w) \<Longrightarrow> good w'"
  by (simp add: good_def)

lemma good_same: "good w \<Longrightarrow> wfs w' \<Longrightarrow> abst w' = abst w \<Longrightarrow> good w'"
  by (simp add: good_def)

lemma good_attempts:
  "good w \<Longrightarrow> wfs w' \<Longrightarrow> sched_item ok item \<Longrightarrow> attempts known ok item (abst w) (abst w') \<Longrightarrow> good w'"
  using attempts_keep goodD(2) goodI by metis

subsection \<open>Scheduling\<close>

lemma ScheduleProcess_carried:
  assumes w: "good w" and item: "sched_item ok item" and del: "deletes item \<longrightarrow> si_HostID (it_Instance item) = h" and h: "known h"
  shows "wp (ScheduleProcess (docker_sched d) \<lparr>ss_HostID = h\<rparr> item)
    (\<lambda>i w'. wfs w' \<and> carried ok h item i (abst w) (abst w'))
    (\<lambda>_ w'. wfs w' \<and> (abst w' = abst w \<or> (\<exists>i. carried ok h item i (abst w) (abst w')))) w"
proof (cases "h = cur")
  case True
  then show ?thesis
    using Process_carried [OF goodD(1) [OF w] item] del by (simp add: ScheduleProcess_def)
next
  case False
  then obtain host where host: "a_hosts (abst w) h = Some host" using goodD(4) [OF w h] by auto
  have "wp (docker_GetHost d h) (\<lambda>r w'. r = Some host \<and> wfs w' \<and> abst w' = abst w) (\<lambda>_ w'. wfs w' \<and> abst w' = abst w) w"
    unfolding docker_GetHost_def s_kv
    by (rule wp_mono [OF GetHost_wp]) (use goodD(1) [OF w] known_ok [OF h] host in \<open>auto simp: stays_def\<close>)
  then have "wp (tryE (docker_GetHost d h) (wrap (''cannot find host '' @ h)) (\<lambda>r. case r of
        None \<Rightarrow> panic ''nil pointer dereference''
      | Some host \<Rightarrow> tryE (client_Schedule (do_http d) (newSchedulerClient host) item)
            (wrap (''Fail to schedule on host '' @ h_UUID host)) ret))
    (\<lambda>i w'. wfs w' \<and> carried ok h item i (abst w) (abst w'))
    (\<lambda>_ w'. wfs w' \<and> (abst w' = abst w \<or> (\<exists>i. carried ok h item i (abst w) (abst w')))) w"
  proof (rule wp_step, goal_cases)
    case (1 r w1)
    have "wp (client_Schedule (do_http d) (newSchedulerClient host) item)
        (\<lambda>i w'. wfs w' \<and> carried ok h item i (abst w1) (abst w'))
        (\<lambda>_ w'. wfs w' \<and> (abst w' = abst w1 \<or> (\<exists>i. carried ok h item i (abst w1) (abst w')))) w1"
      by (rule remote) (use 1 host item del in auto)
    then show ?case using 1 by (simp add: wp_tryE_ret)
  qed auto
  then show ?thesis
    using False by (simp add: ScheduleProcess_def del: append_Cons)
qed

lemma Schedule_try_carried:
  assumes "good w" and "sched_item ok item" and "\<not> deletes item" and "\<forall>h \<in> set hs. known h"
  shows "wp (Schedule_try (docker_sched d) item hs)
    (\<lambda>i w'. wfs w' \<and> (\<exists>a h. attempts known ok item (abst w) a \<and> known h \<and> carried ok h item i a (abst w')))
    (\<lambda>_ w'. wfs w' \<and> attempts known ok item (abst w) (abst w')) w"
  using assms
proof (induction hs arbitrary: w)
  case Nil
  then show ?case using goodD(1) by (simp add: wp_fail)
next
  case (Cons h hs)
  have h: "known h" using Cons.prems by simp
  have "wp (ScheduleProcess (docker_sched d) \<lparr>ss_HostID = h\<rparr> item)
      (\<lambda>i w'. wfs w' \<and> carried ok h item i (abst w) (abst w'))
      (\<lambda>_ w'. wfs w' \<and> attempts known ok item (abst w) (abst w')) w"
    by (rule wp_mono [OF ScheduleProcess_carried]) (use Cons.prems h attempts_one [where known = known, OF h] in auto)
  then show ?case
    unfolding Schedule_try.simps
  proof (rule wp_attempt_step, goal_cases)
    case (1 i w1)
    then show ?case unfolding sum.case wp_ret using h attempts_refl by metis
  next
    case (2 e w1)
    then have "good w1" using good_attempts Cons.prems(1,2) by blast
    from Cons.IH [OF this Cons.prems(2,3)] show ?case
      using 2 Cons.prems(4) attempts_trans by (fastforce elim!: wp_mono)
  qed
qed

lemma Schedule_carried:
  assumes w: "good w" and item: "sched_item ok item"
    and h: "if si_HostID (it_Instance item) = [] then \<not> deletes item else known (si_HostID (it_Instance item))"
    and p: "\<And>p. policy = Some p \<Longrightarrow> sp_Binding p = SchedulePolicyBindingSoftAntiAffinity"
  shows "wp (Schedule (docker_sched d) item policy)
    (\<lambda>i w'. wfs w' \<and> (\<exists>a h. attempts known ok item (abst w) a \<and> known h \<and> carried ok h item i a (abst w')))
    (\<lambda>_ w'. wfs w' \<and> attempts known ok item (abst w) (abst w')) w"
proof (cases "si_HostID (it_Instance item) = []")
  case False
  then have k: "known (si_HostID (it_Instance item))" using h by simp
  have "wp (ScheduleProcess (docker_sched d) \<lparr>ss_HostID = si_HostID (it_Instance item)\<rparr> item)
    (\<lambda>i w'. wfs w' \<and> (\<exists>a h. attempts known ok item (abst w) a \<and> known h \<and> carried ok h item i a (abst w')))
    (\<lambda>_ w'. wfs w' \<and> attempts known ok item (abst w) (abst w')) w"
    by (rule wp_mono [OF ScheduleProcess_carried [OF w item _ k]]) (use k attempts_one [where known = known, OF k] attempts_refl in \<open>simp, metis, auto\<close>)
  then show ?thesis using False w goodD(1) by (auto simp: Schedule_def wp_fail)
next
  case True
  have l: "wp (docker_ListHosts d) (\<lambda>r w'. good w' \<and> abst w' = abst w \<and> (\<forall>h \<in> set (map fst r). known h)) (\<lambda>_ w'. wfs w' \<and> abst w' = abst w) w"
    unfolding docker_ListHosts_def s_kv
  proof (rule wp_mono [OF ListHosts_wp], goal_cases)
    case (2 r w')
    then have "map_of r = a_hosts (abst w)" by simp
    then have "known k" if "(k, x) \<in> set r" for k x
      using w that weak_map_of_SomeI [OF that] by (auto simp: good_def)
    then show ?case using 2 w good_same [OF w, of w'] goodD(1) [OF w] by (auto simp: stays_def)
  qed (use goodD(1) [OF w] in auto)
  have s: "\<exists>ns ls. Schedule_lists policy [] [] hs = Inr (ns, ls) \<and> set (ns @ ls) \<subseteq> set hs" for hs
  proof (cases policy)
    case (Some q)
    then show ?thesis using Schedule_lists_soft [OF p [OF Some], of "[]" "[]" hs] by auto
  qed (auto simp: Schedule_lists_none)
  have "wp (tryE (docker_ListHosts d) (wrap ''fail to schedule'') (\<lambda>hosts.
        case Schedule_lists policy [] [] (map fst hosts) of
          Inl e \<Rightarrow> fail e
        | Inr (n, l) \<Rightarrow> Schedule_try (docker_sched d) item (n @ l)))
    (\<lambda>i w'. wfs w' \<and> (\<exists>a h. attempts known ok item (abst w) a \<and> known h \<and> carried ok h item i a (abst w')))
    (\<lambda>_ w'. wfs w' \<and> attempts known ok item (abst w) (abst w')) w"
  proof (rule wp_step [OF l], goal_cases)
    case (1 hosts w1)
    obtain ns ls where ns: "Schedule_lists policy [] [] (map fst hosts) = Inr (ns, ls)" "set (ns @ ls) \<subseteq> set (map fst hosts)"
      using s by blast
    have "wp (Schedule_try (docker_sched d) item (ns @ ls))
      (\<lambda>i w'. wfs w' \<and> (\<exists>a h. attempts known ok item (abst w1) a \<and> known h \<and> carried ok h item i a (abst w')))
      (\<lambda>_ w'. wfs w' \<and> attempts known ok item (abst w1) (abst w')) w1"
      by (rule Schedule_try_carried) (use 1 item h True ns(2) in auto)
    then show ?case using 1 ns(1) by simp
  qed auto
  then show ?thesis using True w goodD(1) by (auto simp: Schedule_def wp_fail)
qed

subsection \<open>The operations on instances\<close>

text \<open>An item for an existing instance.\<close>

lemma instance_item:
  assumes "inst_ok known ok i" and "getScheduleInstanceFromInstance i = Inr si" and "\<not> creates \<lparr>it_Action = act, it_Instance = si, it_Data = dat\<rparr>"
  shows "sched_item ok \<lparr>it_Action = act, it_Instance = si, it_Data = dat\<rparr>" and "si_HostID si \<noteq> []" and "known (si_HostID si)"
    and "si_Type si = i_Type i" and "si_VolumeName si = i_VolumeName i" and "si_Name si = i_Name i"
  using assms by (auto simp: inst_ok_def getScheduleInstanceFromInstance_def sched_item_def creates_def split: if_splits)

lemma Schedule_instance:
  assumes w: "good w" and i: "inst_ok known ok i" and si: "getScheduleInstanceFromInstance i = Inr si"
    and act: "act \<noteq> ScheduleActionCreateController" "act \<noteq> ScheduleActionCreateReplica"
  shows "wp (Schedule (docker_sched d) \<lparr>it_Action = act, it_Instance = si, it_Data = dat\<rparr> None)
    (\<lambda>r w'. good w' \<and> touched (i_Type i) (i_VolumeName i) (abst w) (abst w') \<and>
       (inst_ok known ok r \<and> i_Type r = i_Type i \<and> i_VolumeName r = i_VolumeName i) \<and>
       (act = ScheduleActionDeleteInstance \<longrightarrow> abst w' = forget_instance i (abst w)))
    (\<lambda>_ w'. good w' \<and> touched (i_Type i) (i_VolumeName i) (abst w) (abst w')) w"
proof -
  let ?item = "\<lparr>it_Action = act, it_Instance = si, it_Data = dat\<rparr>"
  have nc: "\<not> creates ?item" using act by (simp add: creates_def)
  note item = instance_item [OF i si nc]
  have t: "good w' \<and> touched (i_Type i) (i_VolumeName i) (abst w) (abst w')" if "wfs w'" "attempts known ok ?item (abst w) (abst w')" for w'
    using attempts_keep [OF that(2) item(1) goodD(2) [OF w]] good_attempts [OF w that(1) item(1) that(2)] item by simp
  have "wp (ScheduleProcess (docker_sched d) \<lparr>ss_HostID = si_HostID si\<rparr> ?item)
      (\<lambda>r w'. good w' \<and> touched (i_Type i) (i_VolumeName i) (abst w) (abst w') \<and>
         (inst_ok known ok r \<and> i_Type r = i_Type i \<and> i_VolumeName r = i_VolumeName i) \<and>
         (act = ScheduleActionDeleteInstance \<longrightarrow> abst w' = forget_instance i (abst w)))
      (\<lambda>_ w'. good w' \<and> touched (i_Type i) (i_VolumeName i) (abst w) (abst w')) w"
  proof (rule wp_mono [OF ScheduleProcess_carried [OF w item(1) _ item(3)]], goal_cases)
    case (2 r w')
    have "attempts known ok ?item (abst w) (abst w')" using attempts_one [where known = known, OF item(3)] 2 by blast
    moreover have "forget_instance r a = forget_instance i a" if "act = ScheduleActionDeleteInstance" for a
      using 2 item that by (auto simp: carried_def instance_of_def deletes_def forget_instance_def)
    moreover have "abst w' = forget_instance r (abst w)" if "act = ScheduleActionDeleteInstance"
      using 2 that by (simp add: carried_def recorded_once_def deletes_def)
    moreover have "inst_ok known ok r \<and> i_Type r = i_Type i \<and> i_VolumeName r = i_VolumeName i"
      using 2 carried_inst_ok [where known = known, OF _ item(1,3)] item(4,5) by (auto simp: carried_def instance_of_def)
    ultimately show ?case
      using 2 t [of w'] by simp
  next
    case (3 e w')
    then have "attempts known ok ?item (abst w) (abst w')" using attempts_one [where known = known, OF item(3)] attempts_refl by metis
    then show ?case using 3 t by blast
  qed simp
  then show ?thesis
    using item(2) w by (auto simp: Schedule_def wp_fail frame_intros)
qed

lemma StartInstance_wp:
  assumes "good w" and "inst_ok known ok i"
  shows "wp (StartInstance d i)
    (\<lambda>r w'. good w' \<and> touched (i_Type i) (i_VolumeName i) (abst w) (abst w') \<and> inst_ok known ok r \<and> i_Type r = i_Type i \<and>
       i_VolumeName r = i_VolumeName i)
    (\<lambda>_ w'. good w' \<and> touched (i_Type i) (i_VolumeName i) (abst w) (abst w')) w"
  unfolding StartInstance_def
  by (cases "getScheduleInstanceFromInstance i")
    (use assms in \<open>auto simp: wp_fail wp_tryE_ret frame_intros intro!: wp_mono [OF Schedule_instance]\<close>)

lemma StopInstance_wp:
  assumes "good w" and "inst_ok known ok i"
  shows "wp (StopInstance d i) (\<lambda>_ w'. good w' \<and> touched (i_Type i) (i_VolumeName i) (abst w) (abst w'))
    (\<lambda>_ w'. good w' \<and> touched (i_Type i) (i_VolumeName i) (abst w) (abst w')) w"
  unfolding StopInstance_def
  by (cases "getScheduleInstanceFromInstance i")
    (use assms in \<open>auto simp: wp_fail wp_tryE_ret frame_intros intro!: wp_mono [OF Schedule_instance]\<close>)

lemma RemoveInstance_wp:
  assumes "good w" and "inst_ok known ok i"
  shows "wp (RemoveInstance d i) (\<lambda>_ w'. good w' \<and> abst w' = forget_instance i (abst w))
    (\<lambda>_ w'. good w' \<and> touched (i_Type i) (i_VolumeName i) (abst w) (abst w')) w"
  unfolding RemoveInstance_def
  by (cases "getScheduleInstanceFromInstance i")
    (use assms in \<open>auto simp: wp_fail wp_tryE_ret frame_intros intro!: wp_mono [OF Schedule_instance]\<close>)

lemma GetVolume_good:
  assumes "good w" and "ok v"
  shows "wp (GetVolume s v) (\<lambda>r w'. good w' \<and> abst w' = abst w \<and> vol_matches (abst w) v r) (\<lambda>_ w'. good w' \<and> abst w' = abst w) w"
  by (rule wp_mono [OF GetVolume_wp [OF goodD(1) [OF assms(1)] assms(2)]])
    (use assms goodD(1) [OF assms(1)] good_same [OF assms(1)] in \<open>auto simp: stays_def\<close>)

lemma CreateReplica_wp:
  assumes w: "good w" and v: "ok v" "ok n" and there: "a_base (abst w) v \<noteq> None"
  shows "wp (CreateReplica d v n)
    (\<lambda>r w'. good w' \<and> (\<exists>rep a k. r = Some rep \<and> inst_ok known ok (r_InstanceInfo rep) \<and> i_Type (r_InstanceInfo rep) = InstanceTypeReplica \<and>
       i_VolumeName (r_InstanceInfo rep) = v \<and> grown v (abst w) a \<and> a_reps a v k = None \<and>
       grown v a (abst w') \<and> a_reps (abst w') v k \<noteq> None))
    (\<lambda>_ w'. good w' \<and> grown v (abst w) (abst w')) w"
  unfolding CreateReplica_def s_kv
proof (rule wp_step [OF GetVolume_good [OF w v(1)]], goal_cases)
  case (1 r w1)
  then obtain vol where vol: "r = Some vol" "v_Name vol = v"
    using there typedD(1) [OF goodD(2) [OF w]] by (cases r) (fastforce simp: vol_matches_def split: option.splits)+
  have w1: "good w1" "abst w1 = abst w" using 1 by auto
  show ?case
  proof (cases "prepareCreateReplica vol n")
    case (Inl e)
    then show ?thesis using w1 vol by (simp add: wp_fail frame_intros)
  next
    case (Inr sdata)
    let ?item = "\<lparr>it_Action = ScheduleActionCreateReplica,
      it_Instance = \<lparr>si_ID = n, si_Type = InstanceTypeReplica, si_HostID = [], si_VolumeName = v, si_Name = []\<rparr>, it_Data = sdata\<rparr>"
    have item: "sched_item ok ?item" "\<not> deletes ?item"
      using Inr v vol by (auto simp: sched_item_def deletes_def prepareCreateReplica_def ProcessSchedule_data_def dec_enc_dockerScheduleData
        split: if_splits)
    have "wp (Schedule (docker_sched d) ?item (Some (prepareCreateReplicaPolicy vol)))
      (\<lambda>i w'. wfs w' \<and> (\<exists>a h. attempts known ok ?item (abst w1) a \<and> known h \<and> carried ok h ?item i a (abst w')))
      (\<lambda>_ w'. wfs w' \<and> attempts known ok ?item (abst w1) (abst w')) w1"
      by (rule Schedule_carried [OF w1(1) item(1)]) (use item(2) in \<open>auto simp: prepareCreateReplicaPolicy_def\<close>)
    then show ?thesis
      unfolding vol option.case Inr sum.case
    proof (rule wp_step, goal_cases)
      case (1 i w2)
      then obtain a h where a: "wfs w2" "attempts known ok ?item (abst w) a" "known h" "carried ok h ?item i a (abst w2)"
        using w1(2) by auto
      have "attempts known ok ?item (abst w) (abst w2)"
        using attempts_trans [OF a(2)] attempts_one [where known = known, OF a(3,4)] by blast
      then have "good w2" using good_attempts [OF w1(1) a(1) item(1)] w1(2) by simp
      moreover have "grown v (abst w) a" using attempts_grown [OF a(2) item(1)] by simp
      moreover have "grown v a (abst w2)" "a_reps (abst w2) v (i_Name i) \<noteq> None" "a_reps a v (i_Name i) = None"
        using carried_grown [OF a(4) item(1)] a(4) by (auto simp: carried_def instance_of_def)
      moreover have "inst_ok known ok i" "i_Type i = InstanceTypeReplica" "i_VolumeName i = v"
        using carried_inst_ok [where known = known, OF a(4) item(1) a(3)] a(4) by (auto simp: carried_def instance_of_def)
      ultimately show ?case by (auto simp: wp_ret)
    next
      case (2 e w2)
      then show ?case using good_attempts [OF w1(1) _ item(1)] attempts_grown [OF _ item(1)] w1(2) by auto
    qed
  qed
qed (use w frame_intros in auto)

lemma CreateReplica_missing:
  assumes "good w" and "ok v" and "a_base (abst w) v = None"
  shows "wp (CreateReplica d v n) (\<lambda>r w'. r = None \<and> good w' \<and> abst w' = abst w) (\<lambda>_ w'. good w' \<and> abst w' = abst w) w"
  unfolding CreateReplica_def s_kv
  by (rule wp_step [OF GetVolume_good [OF assms(1,2)]])
    (use assms(3) in \<open>auto simp: vol_matches_def errors_Wrapf_def wp_ret split: option.splits\<close>)

lemma CreateController_wp:
  assumes w: "good w" and v: "ok v" and there: "a_base (abst w) v \<noteq> None"
  shows "wp (CreateController d v n rs)
    (\<lambda>c w'. good w' \<and> abst w' = (abst w)\<lparr>a_ctrl := (a_ctrl (abst w))(v \<mapsto> c)\<rparr>)
    (\<lambda>_ w'. good w' \<and> touched InstanceTypeController v (abst w) (abst w')) w"
proof -
  let ?item = "\<lambda>sdata. \<lparr>it_Action = ScheduleActionCreateController,
    it_Instance = \<lparr>si_ID = n, si_Type = InstanceTypeController, si_HostID = cur, si_VolumeName = v, si_Name = []\<rparr>, it_Data = sdata\<rparr>"
  have prep: "wp (prepareCreateController d v n (map fst rs))
      (\<lambda>r w'. good w' \<and> abst w' = abst w \<and> (\<exists>sdata. r = Some sdata \<and> sched_item ok (?item sdata)))
      (\<lambda>_ w'. good w' \<and> abst w' = abst w) w"
    unfolding prepareCreateController_def s_kv
  proof (rule wp_step [OF GetVolume_good [OF w v]], goal_cases)
    case (1 r w1)
    then obtain vol where vol: "r = Some vol" using there by (cases r) (auto simp: vol_matches_def split: option.splits)
    show ?case
      using 1 v unfolding vol option.case
      by (cases "controller_urls (replicas_of vol) (map fst rs)")
        (auto simp: wp_fail wp_ret sched_item_def ProcessSchedule_data_def dec_enc_dockerScheduleData)
  qed (use w in auto)
  have cur: "cur \<noteq> []" "known cur" using goodD(3) [OF w] known_ok ok_good by (auto simp: good_comp_def)
  show ?thesis
    unfolding CreateController_def
  proof (rule wp_step [OF prep], goal_cases)
    case (1 r w1)
    then obtain sdata where sdata: "r = Some sdata" "sched_item ok (?item sdata)" and w1: "good w1" "abst w1 = abst w" by auto
    have "wp (ScheduleProcess (docker_sched d) \<lparr>ss_HostID = cur\<rparr> (?item sdata))
        (\<lambda>i w'. good w' \<and> abst w' = (abst w)\<lparr>a_ctrl := (a_ctrl (abst w))(v \<mapsto> \<lparr>c_InstanceInfo = i\<rparr>)\<rparr>)
        (\<lambda>_ w'. good w' \<and> touched InstanceTypeController v (abst w) (abst w')) w1"
    proof (rule wp_mono [OF ScheduleProcess_carried [OF w1(1) sdata(2) _ cur(2)]], goal_cases)
      case (2 i w2)
      then have a: "attempts known ok (?item sdata) (abst w1) (abst w2)"
        using attempts_one [where known = known, OF cur(2)] by blast
      then show ?case
        using 2 good_attempts [OF w1(1) _ sdata(2) a] w1(2)
        by (auto simp: carried_def instance_of_def recorded_once_def deletes_def record_instance_def)
    next
      case (3 e w2)
      then have a: "attempts known ok (?item sdata) (abst w1) (abst w2)"
        using attempts_one [where known = known, OF cur(2)] attempts_refl by metis
      then show ?case
        using 3 good_attempts [OF w1(1) _ sdata(2) a] attempts_keep [OF a sdata(2) goodD(2) [OF w1(1)]] w1(2) by simp
    qed (simp add: deletes_def)
    then show ?case
      using cur(1) w1 unfolding sdata(1) option.case
      by (auto simp: Schedule_def wp_tryE wp_ret [abs_def] wp_fail frame_intros)
  qed (auto simp: frame_intros)
qed

subsection \<open>Volumes\<close>

lemma typed_base:
  "typed known ok a \<Longrightarrow> v_Name x = v \<Longrightarrow> volume_ints_ok x \<Longrightarrow> typed known ok (a\<lparr>a_base := (a_base a)(v \<mapsto> x)\<rparr>)"
  unfolding typed_def by auto

lemma SetVolumeBase_good:
  assumes "good w" and "ok (v_Name vol)" and "volume_ints_ok vol"
  shows "wp (SetVolumeBase s vol) (\<lambda>_ w'. good w' \<and> abst w' = rebased vol (abst w))
    (\<lambda>_ w'. good w' \<and> (abst w' = abst w \<or> abst w' = rebased vol (abst w))) w"
proof -
  have t: "typed known ok (rebased vol (abst w))"
    unfolding rebased_def by (rule typed_base [OF goodD(2) [OF assms(1)]]) (use assms(3) in \<open>simp_all add: volume_ints_ok_def\<close>)
  show ?thesis
    by (rule wp_mono [OF SetVolumeBase_either [OF goodD(1) [OF assms(1)] assms(2,3)]])
      (use t goodI [OF assms(1)] good_same [OF assms(1)] in \<open>auto simp: stays_def rebased_def [symmetric]\<close>)
qed

lemma GetVolumeBase_good:
  assumes "good w" and "ok v"
  shows "wp (GetVolumeBase s v) (\<lambda>r w'. good w' \<and> abst w' = abst w) (\<lambda>_ w'. good w' \<and> abst w' = abst w) w"
  by (rule wp_mono [OF GetVolumeBase_wp [OF goodD(1) [OF assms(1)] assms(2)]])
    (use assms goodD(1) [OF assms(1)] good_same [OF assms(1)] in \<open>auto simp: stays_def\<close>)

lemma DeleteVolume_good:
  assumes w: "good w" and v: "ok v"
  shows "wp (DeleteVolume s v)
    (\<lambda>_ w'. good w' \<and> only v (abst w) (abst w') \<and> a_base (abst w') v = None \<and> a_ctrl (abst w') v = None \<and> a_reps (abst w') v = Map.empty)
    (\<lambda>_ w'. good w' \<and> only v (abst w) (abst w')) w"
proof (rule wp_mono [OF wp_conj [OF DeleteVolume_rec_wp [OF goodD(1) [OF w] v] wp_conj [OF DeleteVolume_either [OF goodD(1) [OF w] v]
      DeleteVolume_sub [OF goodD(1) [OF w] v]]]], goal_cases)
  case (1 _ w')
  then show ?case using goodI [OF w, of w'] typed_sub [OF goodD(2) [OF w]] by (auto simp: stays_def only_def)
next
  case (2 e w')
  then show ?case using goodI [OF w, of w'] typed_sub [OF goodD(2) [OF w]] by (auto simp: only_def)
qed

lemma docker_CreateVolume_good:
  assumes "good w" and "ok (v_Name vol)" and "volume_ints_ok vol"
  shows "wp (docker_CreateVolume d vol) (\<lambda>r w'. r = vol \<and> good w' \<and> abst w' = rebased vol (abst w))
    (\<lambda>_ w'. good w' \<and> only (v_Name vol) (abst w) (abst w')) w"
proof -
  have s: "wp (SetVolumeBase s vol) (\<lambda>_ w'. good w' \<and> abst w' = rebased vol (abst w))
      (\<lambda>_ w'. good w' \<and> only (v_Name vol) (abst w) (abst w')) w1" if "good w1 \<and> abst w1 = abst w" for w1
    by (rule wp_mono [OF SetVolumeBase_good [of w1 vol]]) (use that assms only_rebased only_refl in auto)
  show ?thesis
    unfolding docker_CreateVolume_def s_kv
    by (rule wp_attempt_step [OF GetVolumeBase_good [OF assms(1,2)]])
      (auto simp: wp_simps frame_intros split: option.splits intro!: wp_mono [OF s])
qed

lemma docker_UpdateVolume_good:
  assumes "good w" and "ok (v_Name vol)" and "volume_ints_ok vol"
  shows "wp (UpdateVolume d vol) (\<lambda>_ w'. good w' \<and> abst w' = rebased vol (abst w))
    (\<lambda>_ w'. good w' \<and> (abst w' = abst w \<or> abst w' = rebased vol (abst w))) w"
  unfolding UpdateVolume_def s_kv
proof (rule wp_step [OF GetVolumeBase_good [OF assms(1,2)]], goal_cases)
  case (1 r w1)
  then show ?case using SetVolumeBase_good [of w1 vol] assms by simp
qed auto

text \<open>Marking a replica bad writes the base document that is there already.\<close>

lemma rebased_same: "a_base a (v_Name vol) = Some (vol\<lparr>v_Controller := None, v_Replicas := None\<rparr>) \<Longrightarrow> rebased vol a = a"
  by (simp add: rebased_def map_upd_triv)

lemma MarkBadReplica_same:
  assumes w: "good w" and v: "ok v"
  shows "good (snd (MarkBadReplica d v r w)) \<and> abst (snd (MarkBadReplica d v r w)) = abst w"
proof -
  let ?I = "\<lambda>w'. good w' \<and> abst w' = abst w"
  have upd: "?I (snd (tryE (UpdateVolume d va) h ret w1))"
    if "?I w1" "a_base (abst w) v = Some x" "v_Name x = v" "volume_ints_ok x" "va\<lparr>v_Controller := None, v_Replicas := None\<rparr> = x" for va w1 h x
  proof -
    have n: "v_Name va = v" "volume_ints_ok va" using that by (auto simp: volume_ints_ok_def)
    then have "rebased va (abst w) = abst w" using that by (intro rebased_same) simp
    then have "wp (UpdateVolume d va) (\<lambda>_. ?I) (\<lambda>_. ?I) w1"
      by (intro wp_mono [OF docker_UpdateVolume_good]) (use that n v in auto)
    then show ?thesis by (auto simp: wp_def tryE_def ret_def split: prod.splits res.splits)
  qed
  have n: "?I (snd (Now (do_env d) w1))" if "?I w1" for w1
  proof -
    have "wfs w1" using that goodD(1) by blast
    moreover have "snd (Now (do_env d) w1) = snd (env_Now (do_env d) w1)" by (simp add: Now_def split: prod.split)
    ultimately have "wfs (snd (Now (do_env d) w1))" "abst (snd (Now (do_env d) w1)) = abst w"
      using now [of w1] that by (simp_all add: calm_def stays_def)
    then show ?thesis using good_same [OF w] by blast
  qed
  obtain res w1 where g: "GetVolume s v w = (res, w1)" by fastforce
  note gv = GetVolume_good [OF w v]
  show ?thesis
  proof (cases res)
    case (Ok vo)
    then have w1: "?I w1" "vol_matches (abst w) v vo" using gv g by (auto simp: wp_def)
    show ?thesis
    proof (cases vo)
      case (Some va)
      obtain x where x: "a_base (abst w) v = Some x" "va\<lparr>v_Controller := None, v_Replicas := None\<rparr> = x"
        using w1(2) Some by (auto simp: vol_matches_def split: option.splits)
      note xx = typedD(1) [OF goodD(2) [OF w] x(1)]
      let ?upd = "\<lambda>va. tryE (UpdateVolume d va) (wrap ''fail to mark bad replica, cannot update volume'') ret"
      let ?name = "i_Name (r_InstanceInfo r)"
      let ?marked = "\<lambda>now. va\<lparr>v_Replicas := map_option (mark_first ?name now) (v_Replicas va)\<rparr>"
      have "MarkBadReplica d v r w = (if has_replica ?name (replicas_of va)
          then ?upd (?marked (fst (Now (do_env d) w1))) (snd (Now (do_env d) w1)) else ?upd va w1)"
        unfolding MarkBadReplica_def s_kv tryE_run(1) [of "GetVolume s v" w, OF g [unfolded Ok Some]] option.case Let_def
        by (simp add: st_def case_prod_unfold Let_def)
      moreover have "(?marked t)\<lparr>v_Controller := None, v_Replicas := None\<rparr> = x" for t using x(2) by simp
      ultimately show ?thesis
        using upd [OF n [OF w1(1)] x(1)] upd [OF w1(1) x(1)] x(2) xx by presburger
    qed (use g Ok w1 in \<open>simp add: MarkBadReplica_def s_kv tryE_run(1) panic_run\<close>)
  next
    case (Err e)
    then show ?thesis using gv g by (simp add: wp_def MarkBadReplica_def s_kv tryE_run(2))
  next
    case (Panic m)
    then show ?thesis using gv g by (simp add: wp_def)
  qed
qed

lemma docker_ListVolumes_good:
  assumes "good w"
  shows "wp (docker_ListVolumes d) (\<lambda>r w'. good w' \<and> abst w' = abst w \<and> list_matches (abst w) r) (\<lambda>_ w'. good w' \<and> abst w' = abst w) w"
  unfolding docker_ListVolumes_def s_kv
  by (rule wp_mono [OF ListVolumes_wp [OF goodD(1) [OF assms]]])
    (use goodD(1) [OF assms] good_same [OF assms] in \<open>auto simp: stays_def\<close>)

lemma docker_GetSettings_good:
  assumes "good w"
  shows "wp (docker_GetSettings d) (\<lambda>_ w'. good w' \<and> abst w' = abst w) (\<lambda>_ w'. good w' \<and> abst w' = abst w) w"
  unfolding docker_GetSettings_def s_kv
  by (rule wp_step [OF wp_mono [OF GetSettings_wp [OF goodD(1) [OF assms]],
      where Q' = "\<lambda>_ w'. good w' \<and> abst w' = abst w" and E' = "\<lambda>_ w'. good w' \<and> abst w' = abst w"]])
    (use goodD(1) [OF assms] good_same [OF assms] in \<open>auto simp: stays_def wp_simps split: option.splits\<close>)

end

text \<open>The docker orchestrator keeps the contract.\<close>

sublocale docker_cluster \<subseteq> orc: orchestrator "docker_Orchestrator d" "docker_good view binv pre ok known d"
    "\<lambda>w. abs_of pre (view w)" known ok
proof (unfold_locales, goal_cases)
  case (1 w)
  then show ?case by (rule goodD(2))
next
  case (2 w n)
  then show ?case using GetVolume_good [of w n] by (simp add: docker_Orchestrator_def docker_GetVolume_def)
next
  case (3 w)
  then show ?case using docker_GetSettings_good by (simp add: docker_Orchestrator_def)
next
  case (4 w vol)
  then show ?case using docker_CreateVolume_good [of w vol] by (simp add: docker_Orchestrator_def)
next
  case (5 w n)
  then show ?case using DeleteVolume_good [of w n] by (simp add: docker_Orchestrator_def docker_DeleteVolume_def)
next
  case (6 w)
  then show ?case using docker_ListVolumes_good by (simp add: docker_Orchestrator_def)
next
  case (7 w vol)
  then show ?case using docker_UpdateVolume_good [of w vol] by (simp add: docker_Orchestrator_def)
next
  case (8 w v r)
  then show ?case using MarkBadReplica_same [of w v r] by (simp add: docker_Orchestrator_def)
next
  case (9 w i)
  then show ?case using StartInstance_wp [of w i] by (simp add: docker_Orchestrator_def)
next
  case (10 w i)
  then show ?case using StopInstance_wp [of w i] by (simp add: docker_Orchestrator_def)
next
  case (11 w i)
  then show ?case using RemoveInstance_wp [of w i] by (simp add: docker_Orchestrator_def)
next
  case (12 w v n)
  then show ?case using CreateReplica_wp [of w v n] by (simp add: docker_Orchestrator_def)
next
  case (13 w v n)
  then show ?case using CreateReplica_missing [of w v n] by (simp add: docker_Orchestrator_def)
next
  case (14 w v n rs)
  then show ?case using CreateController_wp [of w v n rs] by (simp add: docker_Orchestrator_def)
qed

section \<open>The reference host\<close>

lemma get_string_len: "get_string ms k = Some s \<Longrightarrow> length s \<le> doc_len (JObj ms)"
proof -
  let ?f = "\<lambda>(k, x). case x of JStr s \<Rightarrow> length s | _ \<Rightarrow> 0"
  assume s: "get_string ms k = Some s"
  have "?f p \<le> sum_list (map ?f ms)" if "p \<in> set ms" for p
    using that by (intro member_le_sum_list) auto
  then have "length s \<le> sum_list (map ?f ms)" if "map_of ms k = Some (JStr s)" using map_of_SomeD [OF that] by fastforce
  then show ?thesis using s by (auto simp: get_string_def doc_len_def split: option.splits json.splits)
qed

lemma dec_ReplicaInfo_len: "dec_ReplicaInfo j = Some r \<Longrightarrow> length (i_ID (r_InstanceInfo r)) \<le> doc_len j"
  by (auto simp: dec_ReplicaInfo_def dec_instance_members_def zero_InstanceInfo_def bind_eq_Some_conv dest: get_string_len
    split: json.splits)

lemma dr_fresh_new: "new_id (dr_fresh w) (abs_of [''longhorn''] (dr_view w))"
  unfolding new_id_def
proof (intro allI impI)
  fix v n r
  let ?g = "\<lambda>(k, n). case n of File j \<Rightarrow> doc_len j | Dir \<Rightarrow> 0"
  assume "a_reps (abs_of [''longhorn''] (dr_view w)) v n = Some r"
  then obtain j cs where j: "map_of (er_nodes w) cs = Some (File j)" "dec_ReplicaInfo j = Some r"
    by (auto simp: abs_of_def bind_eq_Some_conv etcd_view_def er_tree_def split: option.splits enode.splits if_splits)
  have "?g (cs, File j) \<le> sum_list (map ?g (er_nodes w))"
    by (rule member_le_sum_list) (use map_of_SomeD [OF j(1)] in \<open>auto intro: image_eqI [rotated]\<close>)
  then have "length (i_ID (r_InstanceInfo r)) < length (dr_fresh w)"
    using dec_ReplicaInfo_len [OF j(2)] unfolding dr_fresh_def by simp
  then show "i_ID (r_InstanceInfo r) \<noteq> dr_fresh w" by auto
qed

interpretation drc: docker_cluster "etcd_backend er_api" dr_view dr_inv er_up "[''longhorn'']" etcd_name dr_orc
    "\<lambda>h. h = ''host1''" "\<lambda>_. True"
proof unfold_locales
  show "etcd_name h" if "h = ''host1''" for h
    using that by (simp add: etcd_name_def good_comp_def hidden_def HasPrefix_def)
  show "wp (cli_ContainerCreate (do_cli dr_orc) cfg n) (\<lambda>cid _. True \<and> new_id cid (abs_of [''longhorn''] (dr_view w))) (\<lambda>_ _. True) w"
    for w :: "'a dock_ref_scheme" and cfg n
    using dr_fresh_new [of w] by (simp add: dr_orc_def dr_cli_def dr_create_def wp_def Let_def)
  show "quietly dr_view dr_inv er_up (cli_ContainerInspect (do_cli dr_orc) i) (\<lambda>j. cj_ID j = i)" for i
    by (rule dr_quiet) (simp add: dr_orc_def dr_cli_def dr_inspect_def wp_def split: option.split)
qed (simp_all add: dr_orc_def client_Schedule_def client_post_def client_do_def Let_def wp_simps)

end
