(* ===== verification/Monitor.thy ===== *)
theory Monitor
  imports Manager
begin

text \<open>
  \<open>manager/event.go\<close> and \<open>monitor.go\<close>: the goroutines that watch an attached volume.  The
  channels of the running program are part of the world and are reached through \<open>Runtime\<close>: the
  number of channels made, those closed, and those whose receiver has returned.  Closing a
  closed channel and sending on one panic; a send that nobody will receive blocks forever,
  which is the result \<open>Panic ''send blocks forever''\<close> here (the goroutine does not go on).
  \<open>monitor_tick\<close> and \<open>cleanup_tick\<close> are one round of the two loops, \<open>monitor_loop\<close> is the loop
  over a number of ticks.
\<close>

section \<open>Channels\<close>

record chans =
  ch_next :: nat
  ch_closed :: "nat list"
  ch_gone :: "nat list"

record 'w Runtime =
  rt_chans :: "'w \<Rightarrow> chans"
  rt_put :: "chans \<Rightarrow> 'w \<Rightarrow> 'w"
  rt_Cleanup :: "VolumeInfo \<Rightarrow> 'w \<Rightarrow> 'w"

definition make_chan :: "'w Runtime \<Rightarrow> 'w \<Rightarrow> nat \<times> 'w" where
  "make_chan rt w = (let c = rt_chans rt w in (ch_next c, rt_put rt (c\<lparr>ch_next := Suc (ch_next c)\<rparr>) w))"

definition is_closed :: "'w Runtime \<Rightarrow> nat \<Rightarrow> 'w \<Rightarrow> bool" where
  "is_closed rt n w \<longleftrightarrow> n \<in> set (ch_closed (rt_chans rt w))"

definition close_chan :: "'w Runtime \<Rightarrow> nat \<Rightarrow> ('w, unit) op" where
  "close_chan rt n w =
     (let c = rt_chans rt w in
      if n \<in> set (ch_closed c) then (Panic ''close of closed channel'', w)
      else (Ok (), rt_put rt (c\<lparr>ch_closed := n # ch_closed c\<rparr>) w))"

definition send_chan :: "'w Runtime \<Rightarrow> nat \<Rightarrow> ('w, unit) op" where
  "send_chan rt n w =
     (let c = rt_chans rt w in
      (if n \<in> set (ch_closed c) then Panic ''send on closed channel''
       else if n \<in> set (ch_gone c) then Panic ''send blocks forever'' else Ok (), w))"

section \<open>event.go\<close>

text \<open>\<open>Send\<close> recovers from the panic of a closed channel and then returns false.  None is the
  nil channel.\<close>

definition Send :: "'w Runtime \<Rightarrow> nat option \<Rightarrow> ('w, bool) op" where
  "Send rt c w = (case c of
      None \<Rightarrow> (Ok False, w)
    | Some n \<Rightarrow> (case send_chan rt n w of
        (Ok _, w') \<Rightarrow> (Ok True, w')
      | (Err e, w') \<Rightarrow> (Err e, w')
      | (Panic m, w') \<Rightarrow> if m = ''send on closed channel'' then (Ok False, w') else (Panic m, w')))"

text \<open>A ticker: its timer (None before the first start, then whether it is armed) and the
  number of goroutines that wait for the timer.\<close>

record tickerImpl =
  ti_ch :: "nat option"
  ti_interval :: int
  ti_timer :: "bool option"
  ti_waiting :: nat

definition NewTicker :: "int \<Rightarrow> nat option \<Rightarrow> tickerImpl" where
  "NewTicker interval ch = \<lparr>ti_ch = ch, ti_interval = interval, ti_timer = None, ti_waiting = 0\<rparr>"

definition ticker_Start :: "tickerImpl \<Rightarrow> tickerImpl" where
  "ticker_Start t = (if ti_timer t = None then t\<lparr>ti_timer := Some True, ti_waiting := Suc (ti_waiting t)\<rparr>
     else t\<lparr>ti_timer := Some True\<rparr>)"

definition ticker_Stop :: "tickerImpl \<Rightarrow> tickerImpl" where
  "ticker_Stop t = (if ti_timer t \<noteq> None then t\<lparr>ti_timer := Some False\<rparr> else t)"

text \<open>The timer fires while a goroutine waits: the tick is sent, and the timer armed again and
  a new goroutine started when somebody took it.\<close>

definition ticker_tick :: "'w Runtime \<Rightarrow> tickerImpl \<Rightarrow> ('w, tickerImpl) op" where
  "ticker_tick rt t = tryE (Send rt (ti_ch t)) id (\<lambda>sent.
     ret (let t = t\<lparr>ti_waiting := ti_waiting t - 1, ti_timer := Some False\<rparr>
          in if sent then t\<lparr>ti_timer := Some True, ti_waiting := Suc (ti_waiting t)\<rparr> else t))"

section \<open>monitor.go\<close>

abbreviation MonitoringPeriod :: int where "MonitoringPeriod \<equiv> 2 * Second"
abbreviation MonitoringMaxRetries :: nat where "MonitoringMaxRetries \<equiv> 3"
abbreviation CleanupPeriod :: int where "CleanupPeriod \<equiv> 2 * Minute"

record monitorChan =
  mc_volume :: VolumeInfo
  mc_cronCh :: nat
  mc_monitorCh :: nat
  mc_cleanupCh :: nat

text \<open>The deferred calls run in reverse order, whichever of them panics; the first one
  recovers.\<close>

definition monitorChan_Close :: "'w Runtime \<Rightarrow> monitorChan \<Rightarrow> 'w \<Rightarrow> 'w" where
  "monitorChan_Close rt mc w = fold (\<lambda>m w. snd (m w))
     [close_chan rt (mc_cleanupCh mc), close_chan rt (mc_monitorCh mc), close_chan rt (mc_cronCh mc),
      (\<lambda>w. (Ok (), rt_Cleanup rt (mc_volume mc) w))] w"

definition CronCh :: "monitorChan \<Rightarrow> nat" where
  "CronCh mc = mc_cronCh mc"

text \<open>Beginning to monitor makes the three channels (and starts the goroutines on them).\<close>

definition Monitor_Begin :: "'w Runtime \<Rightarrow> VolumeInfo \<Rightarrow> 'w \<Rightarrow> monitorChan \<times> 'w" where
  "Monitor_Begin rt volume w =
     (let (monitorCh, w) = make_chan rt w;
          (cleanupCh, w) = make_chan rt w;
          (cronCh, w) = make_chan rt w
      in (\<lparr>mc_volume = volume, mc_cronCh = cronCh, mc_monitorCh = monitorCh, mc_cleanupCh = cleanupCh\<rparr>, w))"

definition monitor_ops :: "'w Runtime \<Rightarrow> ('w, monitorChan) MonitorOps" where
  "monitor_ops rt = \<lparr>mo_Begin = Monitor_Begin rt, mo_Close = monitorChan_Close rt,
     mo_Send = (\<lambda>mc e. send_chan rt (CronCh mc))\<rparr>"

text \<open>An error is a \<open>ControllerError\<close> when it has a method \<open>Cause\<close>: those of \<open>errs.go\<close> have one,
  and so do all those made by \<open>errors.Wrapf\<close>.\<close>

definition ControllerError_Cause :: "gerr \<Rightarrow> gerr option" where
  "ControllerError_Cause e = (case e of ctrlErr c \<Rightarrow> Some c | Wrap c m \<Rightarrow> Some c | _ \<Rightarrow> None)"

text \<open>What happens when the monitor gives up.\<close>

definition give_up :: "'w Runtime \<Rightarrow> ('w, 'm) volumeManager \<Rightarrow> VolumeInfo \<Rightarrow> nat \<Rightarrow> (('w, 'm) man, unit) op" where
  "give_up rt man volume ch = tryE (io (close_chan rt ch)) id (\<lambda>_.
     attempt (Detach man (v_Name volume)) (\<lambda>_. ret ()))"

text \<open>A round of the loop returns the number of failed attempts.\<close>

definition monitor_tick :: "'w Runtime \<Rightarrow> ('w, 'm) volumeManager \<Rightarrow> 'w Controller \<Rightarrow> VolumeInfo \<Rightarrow> nat \<Rightarrow> nat \<Rightarrow> (('w, 'm) man, nat) op" where
  "monitor_tick rt man ctrl volume ch failedAttempts = attempt (CheckController man ctrl volume) (\<lambda>r. case r of
      Inr _ \<Rightarrow> ret 0
    | Inl e \<Rightarrow> (case ControllerError_Cause e of
        Some _ \<Rightarrow> tryE (give_up rt man volume ch) id (\<lambda>_. ret failedAttempts)
      | None \<Rightarrow>
          if Suc failedAttempts > MonitoringMaxRetries
          then tryE (give_up rt man volume ch) id (\<lambda>_. ret (Suc failedAttempts))
          else ret (Suc failedAttempts)))"

fun monitor_loop :: "'w Runtime \<Rightarrow> ('w, 'm) volumeManager \<Rightarrow> 'w Controller \<Rightarrow> VolumeInfo \<Rightarrow> nat \<Rightarrow> nat \<Rightarrow> nat \<Rightarrow> (('w, 'm) man, nat) op" where
  "monitor_loop rt man ctrl volume ch 0 failedAttempts = ret failedAttempts"
| "monitor_loop rt man ctrl volume ch (Suc n) failedAttempts = (\<lambda>s.
     if is_closed rt ch (ms_w s) then (Ok failedAttempts, s)
     else tryE (monitor_tick rt man ctrl volume ch failedAttempts) id (monitor_loop rt man ctrl volume ch n) s)"

definition cleanup_tick :: "('w, 'm) volumeManager \<Rightarrow> VolumeInfo \<Rightarrow> (('w, 'm) man, unit) op" where
  "cleanup_tick man volume = attempt (Cleanup man volume) (\<lambda>_. ret ())"

section \<open>Channels of a runtime\<close>

locale runtime =
  fixes rt :: "'w Runtime"
  assumes get_put [simp]: "rt_chans rt (rt_put rt c w) = c"
    and get_cleanup [simp]: "rt_chans rt (rt_Cleanup rt v w) = rt_chans rt w"
begin

lemma close_chan_closed: "ch_closed (rt_chans rt (snd (close_chan rt n w))) =
    (if is_closed rt n w then ch_closed (rt_chans rt w) else n # ch_closed (rt_chans rt w))"
  by (simp add: close_chan_def is_closed_def Let_def)

lemma Close_closed:
  "set (ch_closed (rt_chans rt (monitorChan_Close rt mc w))) =
     {mc_cronCh mc, mc_monitorCh mc, mc_cleanupCh mc} \<union> set (ch_closed (rt_chans rt w))"
  by (auto simp: monitorChan_Close_def close_chan_def Let_def)

lemma Begin_fresh:
  assumes "\<forall>n \<in> set (ch_closed (rt_chans rt w)). n < ch_next (rt_chans rt w)" and "Monitor_Begin rt v w = (mc, w')"
  shows "distinct [mc_cronCh mc, mc_monitorCh mc, mc_cleanupCh mc] \<and>
    \<not> is_closed rt (mc_cronCh mc) w' \<and> \<not> is_closed rt (mc_monitorCh mc) w' \<and> \<not> is_closed rt (mc_cleanupCh mc) w' \<and>
    (\<forall>n \<in> set (ch_closed (rt_chans rt w')). n < ch_next (rt_chans rt w'))"
  using assms by (fastforce simp: Monitor_Begin_def make_chan_def is_closed_def Let_def)

end

end
