(* ===== verification/Wiring.thy ===== *)
theory Wiring
  imports DockerOrc Monitor
begin

text \<open>
  \<open>main.go\<close>: how the parts are put together.  What the packages keep in memory beside the
  manager (the holder of controllers, the channels, the queues of the controllers) is
  reached through the record \<open>Internals\<close>; the manager that \<open>RunManager\<close> makes is
  \<open>process_manager\<close>, over the docker orchestrator, the monitors, the controllers and the
  backups.  The locale \<open>manager_host\<close> shows that it keeps the contract \<open>volume_manager\<close>, and the
  properties of the manager are stated for it.
\<close>

section \<open>The process\<close>

record 'w Internals =
  pi_holder :: "'w \<Rightarrow> holder"
  pi_set_holder :: "holder \<Rightarrow> 'w \<Rightarrow> 'w"
  pi_chans :: "'w \<Rightarrow> chans"
  pi_set_chans :: "chans \<Rightarrow> 'w \<Rightarrow> 'w"
  pi_put :: "controller \<Rightarrow> 'w Task BgTask \<Rightarrow> ('w, unit) op"
  pi_tasks :: "controller \<Rightarrow> ('w, 'w Task BgTask list) op"
  pi_bg :: "controller \<Rightarrow> 'w \<Rightarrow> 'w bgState"
  pi_purging :: "controller \<Rightarrow> 'w \<Rightarrow> nat"
  pi_parse :: "string \<Rightarrow> json option"
  pi_decode :: "json \<Rightarrow> gerr + BackupInfo"
  pi_cron :: "string \<Rightarrow> gerr option"

definition process_getController :: "'w dockerOrc \<Rightarrow> 'w Internals \<Rightarrow> VolumeInfo option \<Rightarrow> 'w \<Rightarrow> 'w Controller option \<times> 'w" where
  "process_getController d p volume w =
     (let (c, h) = ctrl_Get volume (pi_holder p w)
      in (map_option (controller_ops (pi_parse p) (do_env d) (pi_put p) (pi_tasks p) (pi_bg p) (pi_purging p)) c, pi_set_holder p h w))"

definition process_runtime :: "'w Internals \<Rightarrow> 'w Runtime" where
  "process_runtime p = \<lparr>rt_chans = pi_chans p, rt_put = pi_set_chans p,
     rt_Cleanup = (\<lambda>v w. pi_set_holder p (snd (ctrl_Cleanup v (pi_holder p w))) w)\<rparr>"

definition process_manager :: "'w dockerOrc \<Rightarrow> 'w Internals \<Rightarrow> ('w, monitorChan) volumeManager" where
  "process_manager d p = \<lparr>vm_orc = docker_Orchestrator d, vm_monitor = monitor_ops (process_runtime p),
     vm_getController = process_getController d p, vm_getBackups = backups_ops (pi_decode p) (do_env d),
     vm_env = do_env d, vm_cron = pi_cron p\<rparr>"

text \<open>\<open>RunManager\<close> up to the servers: the orchestrator it made, or the error.\<close>

definition RunManager ::
  "(string list \<Rightarrow> gerr + 'w Backend) \<Rightarrow> ('w, 'w DockerClient) op \<Rightarrow> 'w Env \<Rightarrow> 'w HostEnv \<Rightarrow> 'w HttpClient \<Rightarrow> 'w Internals \<Rightarrow>
   string \<Rightarrow> dockerOrcConfig \<Rightarrow> 'w \<Rightarrow> 'w dockerOrc res \<times> ('w, monitorChan) man" where
  "RunManager mkBackend mkClient env henv http p orcName flags w =
     (if cfg_image flags = [] then (Err (Errorf ''Must specify engine-image''), Manager_New w)
      else if orcName \<noteq> ''docker'' then (Err (Errorf (''Invalid orchestrator '' @ orcName)), Manager_New w)
      else (case Docker.New mkBackend mkClient env henv http flags w of
          (Ok d, w') \<Rightarrow> tryE (Manager_Start (process_manager d p)) id (\<lambda>_. ret d) (Manager_New w')
        | (Err e, w') \<Rightarrow> (Err e, Manager_New w')
        | (Panic m, w') \<Rightarrow> (Panic m, Manager_New w')))"

section \<open>The manager keeps its contract\<close>

locale manager_host = docker_cluster b view binv up pre ok d known full_id
  for b :: "'w Backend" and view binv up pre ok and d :: "'w dockerOrc" and known full_id +
  fixes p :: "'w Internals"
  assumes holder_calm: "binv w \<Longrightarrow> calm view binv up w (pi_set_holder p h w)"
    and chans_calm: "binv w \<Longrightarrow> calm view binv up w (pi_set_chans p c w)"
    and exec_calm: "binv w \<Longrightarrow> calm view binv up w (snd (env_Exec (do_env d) t cmd args w))"
    and proc_calm: "binv w \<Longrightarrow> calm view binv up w (snd (env_Proc (do_env d) args w))"
    and uuid_calm: "binv w \<Longrightarrow> calm view binv up w (snd (env_UUID (do_env d) w))"
    and uuid_len: "18 \<le> length (fst (env_UUID (do_env d) w))"
    and uuid_name: "ok n \<Longrightarrow> ok (n @ ''-replica-'' @ take 18 (fst (env_UUID (do_env d) w)))"
    and chans_get: "pi_chans p (pi_set_chans p c w) = c"
    and chans_holder: "pi_chans p (pi_set_holder p h w) = pi_chans p w"
begin

lemma calm_harmless: "calm view binv up w w' \<Longrightarrow> good w \<Longrightarrow> harmless good (\<lambda>w. abs_of pre (view w)) w w'"
  by (auto simp: harmless_def calm_def stays_def good_def)

lemma good_binv: "good w \<Longrightarrow> binv w"
  by (simp add: good_def)

lemma quiet_harmless: "quiet m Q \<Longrightarrow> harmless_op good (\<lambda>w. abs_of pre (view w)) m"
  unfolding harmless_op_def
proof (intro allI impI)
  fix w assume m: "quiet m Q" and w: "good w"
  show "wp m (\<lambda>_. harmless good (\<lambda>w. abs_of pre (view w)) w) (\<lambda>_. harmless good (\<lambda>w. abs_of pre (view w)) w) w"
    by (rule wp_mono [OF quietlyD [OF m]]) (use w calm_harmless calm_refl [where binv = binv] good_binv in auto)
qed

lemma Endpoint_quiet: "quiet (ctrl_Endpoint parse (do_env d) c) (\<lambda>_. True)"
  unfolding ctrl_Endpoint_def ctrl_info_def Execute_def ExecuteWithTimeout_def
  by (rule quietly_attempt [where P = "\<lambda>_. True"], rule quietly_tryE [where P = "\<lambda>_. True"])
    (auto intro!: quiet_intros quietly_st exec_calm split: ExecResult.split option.split)

lemma close_calm: "binv w \<Longrightarrow> calm view binv up w (snd (close_chan (process_runtime p) n w))"
  by (auto simp: close_chan_def process_runtime_def Let_def chans_calm calm_refl)

lemma Close_calm: "binv w \<Longrightarrow> calm view binv up w (monitorChan_Close (process_runtime p) mc w)"
proof -
  let ?rt = "process_runtime p"
  have step: "calm view binv up w (snd (close_chan ?rt n w'))" if "calm view binv up w w'" for n w w'
    using calm_trans [OF that close_calm [OF calm_binv [OF that]]] .
  assume "binv w"
  then have c: "calm view binv up w (snd (close_chan ?rt (mc_cronCh mc) (snd (close_chan ?rt (mc_monitorCh mc)
      (snd (close_chan ?rt (mc_cleanupCh mc) w))))))"
    by (intro step calm_refl)
  show ?thesis
    using calm_trans [OF c holder_calm [OF calm_binv [OF c]]]
    by (simp add: monitorChan_Close_def process_runtime_def)
qed

lemma Begin_calm: "binv w \<Longrightarrow> calm view binv up w (snd (Monitor_Begin (process_runtime p) vol w))"
proof -
  have step: "calm view binv up w (snd (make_chan (process_runtime p) w'))" if "calm view binv up w w'" for w w'
    using calm_trans [OF that chans_calm [OF calm_binv [OF that]]] by (simp add: make_chan_def process_runtime_def Let_def)
  assume "binv w"
  then have "calm view binv up w (snd (make_chan (process_runtime p) (snd (make_chan (process_runtime p) (snd (make_chan (process_runtime p) w))))))"
    by (intro step calm_refl)
  then show ?thesis by (auto simp: Monitor_Begin_def split: prod.splits)
qed

end

sublocale manager_host \<subseteq> rt: runtime "process_runtime p"
  by unfold_locales (simp_all add: process_runtime_def chans_get chans_holder)

sublocale manager_host \<subseteq> vm: volume_manager "docker_Orchestrator d" "docker_good view binv pre ok known d"
    "\<lambda>w. abs_of pre (view w)" known ok "process_manager d p"
proof (unfold_locales, goal_cases)
  case 1
  then show ?case by (simp add: process_manager_def)
next
  case (2 w v)
  then show ?case
    using calm_harmless [OF holder_calm] good_binv
    by (auto simp: process_manager_def process_getController_def split: prod.split)
next
  case (3 vol w)
  then obtain c where "v_Controller vol = Some c" "i_Running (c_InstanceInfo c)"
    by (auto simp: controller_running_def split: option.splits)
  then show ?case
    using ctrl_Get_running [of vol c "pi_holder p w"] by (auto simp: process_manager_def process_getController_def)
next
  case (4 v w ctrl)
  then show ?case
    using quiet_harmless [OF Endpoint_quiet]
    by (auto simp: process_manager_def process_getController_def controller_ops_def split: prod.splits)
next
  case (5 w)
  then show ?case using calm_harmless [OF now] good_binv by (simp add: process_manager_def)
next
  case (6 w)
  then show ?case using calm_harmless [OF uuid_calm] good_binv uuid_len by (simp add: process_manager_def)
next
  case (7 n w)
  then show ?case using uuid_name by (simp add: process_manager_def)
next
  case (8 w vol)
  then show ?case using calm_harmless [OF Begin_calm] good_binv by (simp add: process_manager_def monitor_ops_def)
next
  case (9 w m)
  then show ?case using calm_harmless [OF Close_calm] good_binv by (simp add: process_manager_def monitor_ops_def)
qed

context manager_host
begin

lemma manages: "volume_manager (docker_Orchestrator d) good (\<lambda>w. abs_of pre (view w)) known ok (process_manager d p)"
  by (rule vm.volume_manager_axioms)

lemma runs: "runtime (process_runtime p)"
  by (rule rt.runtime_axioms)

end

section \<open>A reference process\<close>

record man_ref = dock_ref +
  mr_holder :: holder
  mr_chans :: chans

definition mr_internals :: "man_ref Internals" where
  "mr_internals = \<lparr>pi_holder = mr_holder, pi_set_holder = (\<lambda>h w. w\<lparr>mr_holder := h\<rparr>), pi_chans = mr_chans,
     pi_set_chans = (\<lambda>c w. w\<lparr>mr_chans := c\<rparr>), pi_put = (\<lambda>_ _. ret ()), pi_tasks = (\<lambda>_. ret []),
     pi_bg = (\<lambda>_ _. \<lparr>bg_lastRunBgTask = None, bg_runningBgTask = None\<rparr>), pi_purging = (\<lambda>_ _. 0), pi_parse = (\<lambda>_. None),
     pi_decode = (\<lambda>_. Inl (Ext ''decode'')), pi_cron = (\<lambda>_. None)\<rparr>"

interpretation mr: manager_host "etcd_backend er_api" dr_view dr_inv er_up "[''longhorn'']" etcd_name dr_orc
    "\<lambda>h. h = ''host1''" "\<lambda>_. True" mr_internals
proof unfold_locales
  show "calm dr_view dr_inv er_up w (pi_set_holder mr_internals h w)" if "dr_inv w" for w h
    using that by (intro dr_calm) (simp_all add: mr_internals_def)
  show "calm dr_view dr_inv er_up w (pi_set_chans mr_internals c w)" if "dr_inv w" for w c
    using that by (intro dr_calm) (simp_all add: mr_internals_def)
  show "calm dr_view dr_inv er_up w (snd (env_Exec (do_env dr_orc) t cmd args w))" if "dr_inv w" for w :: man_ref and t cmd args
    using that by (intro dr_calm) (simp_all add: dr_orc_def dr_env_def)
  show "calm dr_view dr_inv er_up w (snd (env_Proc (do_env dr_orc) args w))" if "dr_inv w" for w :: man_ref and args
    using that by (intro dr_calm) (simp_all add: dr_orc_def dr_env_def)
  show "calm dr_view dr_inv er_up w (snd (env_UUID (do_env dr_orc) w))" if "dr_inv w" for w :: man_ref
    using that by (intro dr_calm) (simp_all add: dr_orc_def dr_env_def)
  show "18 \<le> length (fst (env_UUID (do_env dr_orc) w))" for w :: man_ref
    by (simp add: dr_orc_def dr_env_def)
  show "etcd_name (n @ ''-replica-'' @ take 18 (fst (env_UUID (do_env dr_orc) w)))" if "etcd_name n" for n and w :: man_ref
    using that by (cases n) (auto simp: dr_orc_def dr_env_def etcd_name_def good_comp_def hidden_def HasPrefix_def)
qed (simp_all add: mr_internals_def)

end
