(* ===== verification/Adding.thy ===== *)
theory Adding
  imports Wiring
begin

text \<open>
  The replicas that a check of the controller adds in the background.  The states of the
  manager under any interleaving of checks and of the goroutines they start are \<open>adding_reach\<close>;
  the counters of \<open>addingReplicasCount\<close> count exactly the goroutines that have begun and not
  ended.
\<close>

section \<open>What an operation does to the counters and the goroutines\<close>

definition bg_part :: "('w, 'm) man \<Rightarrow> (string \<Rightarrow> int) \<times> 'w addJob list" where
  "bg_part s = (adding (ms_addingReplicas s), ms_bg s)"

lemma bg_keeps_io [keeps_intros]: "keeps (\<lambda>s. bg_part s = x) (io m)"
  by (simp add: keeps_def io_def bg_part_def Let_def split: prod.split)

lemma io_fields: "io m s = (r, s') \<Longrightarrow> ms_addingReplicas s' = ms_addingReplicas s \<and> ms_bg s' = ms_bg s"
  by (auto simp: io_def split: prod.splits)

lemma bg_keeps_iost: "bg_part (snd (iost f s)) = bg_part s"
  by (simp add: iost_def bg_part_def split: prod.split)

lemma keeps_together [keeps_intros]: "(\<And>x. x \<in> set xs \<Longrightarrow> keeps I (f x)) \<Longrightarrow> keeps I (together f xs)"
  unfolding together_def by (intro keeps_intros)

lemma bg_keeps_completeVolumeState [keeps_intros]: "keeps (\<lambda>s. bg_part s = x) (completeVolumeState man vol)"
  unfolding completeVolumeState_def Let_def by (intro keeps_intros) (simp add: bg_keeps_iost)

lemma bg_keeps_Get [keeps_intros]: "keeps (\<lambda>s. bg_part s = x) (Manager_Get man n)"
  unfolding Manager_Get_def by (intro keeps_intros)

lemma bg_keeps_stopMonitoring [keeps_intros]: "keeps (\<lambda>s. bg_part s = x) (stopMonitoring man vol)"
  by (simp add: keeps_def stopMonitoring_def bg_part_def split: option.split)

lemma bg_keeps_doDetach [keeps_intros]: "keeps (\<lambda>s. bg_part s = x) (doDetach man vol)"
  unfolding doDetach_def stop_replica_def by (intro keeps_intros) (auto intro!: keeps_intros split: prod.split)

lemma bg_keeps_Detach [keeps_intros]: "keeps (\<lambda>s. bg_part s = x) (Detach man n)"
  unfolding Detach_def by (intro keeps_intros)

lemma bg_keeps_startMonitoring [keeps_intros]: "keeps (\<lambda>s. bg_part s = x) (startMonitoring man vol)"
  by (simp add: keeps_def startMonitoring_def bg_part_def Let_def split: prod.split)

lemma bg_keeps_updateCron [keeps_intros]: "keeps (\<lambda>s. bg_part s = x) (updateCron man vol jobs)"
  by (simp add: keeps_def updateCron_def io_def bg_part_def Let_def split: option.split prod.split)

lemma bg_keeps_collectE_stop [keeps_intros]: "keeps (\<lambda>s. bg_part s = x) (stop_replica man r)"
  unfolding stop_replica_def by (intro keeps_intros)

lemma bg_keeps_attach_start [keeps_intros]: "keeps (\<lambda>s. bg_part s = x) (attach_start man vol rs)"
  unfolding attach_start_def start_replica_def Let_def by (intro keeps_intros) (auto intro!: keeps_intros split: prod.split)

lemma bg_keeps_attach_replicas [keeps_intros]: "keeps (\<lambda>s. bg_part s = x) (attach_replicas man vol)"
  unfolding attach_replicas_def Let_def by (auto intro!: keeps_intros split: prod.split option.split)

lemma bg_keeps_doAttach [keeps_intros]: "keeps (\<lambda>s. bg_part s = x) (doAttach man vol)"
  unfolding doAttach_def by (intro keeps_intros)

lemma bg_keeps_Attach [keeps_intros]: "keeps (\<lambda>s. bg_part s = x) (Attach man n)"
  unfolding Attach_def by (intro keeps_intros)

lemma bg_keeps_create_replicas [keeps_intros]: "keeps (\<lambda>s. bg_part s = x) (create_replicas man n k)"
  by (induction k) (auto intro!: keeps_intros)

lemma bg_keeps_doCreate [keeps_intros]: "keeps (\<lambda>s. bg_part s = x) (doCreate man vol)"
  unfolding doCreate_def Let_def by (intro keeps_intros) (simp add: bg_keeps_iost)

lemma bg_keeps_Delete [keeps_intros]: "keeps (\<lambda>s. bg_part s = x) (Manager_Delete man n)"
  unfolding Manager_Delete_def by (intro keeps_intros) (auto intro!: keeps_intros split: prod.split)

lemma bg_keeps_createFromBackup [keeps_intros]: "keeps (\<lambda>s. bg_part s = x) (createFromBackup man vol backup)"
  unfolding createFromBackup_def or_cleanup_def cleanupFailedCreate_def
  by (intro keeps_intros) (simp add: bg_keeps_iost)

lemma bg_keeps_Create [keeps_intros]: "keeps (\<lambda>s. bg_part s = x) (Create man vol)"
  unfolding Create_def Let_def by (intro keeps_intros)

lemma bg_keeps_UpdateRecurring [keeps_intros]: "keeps (\<lambda>s. bg_part s = x) (UpdateRecurring man n jobs)"
  unfolding UpdateRecurring_def Let_def by (intro keeps_intros)

lemma bg_keeps_ReplicaRemove [keeps_intros]: "keeps (\<lambda>s. bg_part s = x) (ReplicaRemove man v r)"
  unfolding ReplicaRemove_def by (intro keeps_intros)

lemma bg_keeps_cleanup_bad: "m \<in> set (cleanup_bad man now r) \<Longrightarrow> keeps (\<lambda>s. bg_part s = x) m"
  by (cases "ParseTime (r_BadTimestamp r)") (auto simp: cleanup_bad_def split: if_splits intro!: keeps_intros)

lemma bg_keeps_Cleanup [keeps_intros]: "keeps (\<lambda>s. bg_part s = x) (Cleanup man v)"
  unfolding Cleanup_def
  by (intro keeps_intros) (auto simp: bg_keeps_iost intro: bg_keeps_cleanup_bad)

lemma bg_same: "(\<And>x. keeps (\<lambda>s. bg_part s = x) m) \<Longrightarrow> m s = (r, s') \<Longrightarrow> bg_part s' = bg_part s"
  by (metis (mono_tags) keepsD)

lemma adding_update [simp]: "adding (AList.update v n m) = (adding m)(v := n)"
  by (simp add: adding_def fun_eq_iff)

lemma bg_count_read: "bg_part (snd (addingReplicasCount v 0 s)) = bg_part s"
  by (simp add: addingReplicasCount_def Let_def bg_part_def fun_eq_iff)

text \<open>A check leaves the counters alone, and starts at most one goroutine, for a volume that needs one.\<close>

lemma createAndAdd_bg:
  assumes "createAndAddReplicaToController man v ctrl s = (r, s')"
  shows "adding (ms_addingReplicas s') = adding (ms_addingReplicas s) \<and> (ms_bg s' = ms_bg s \<or>
    (\<exists>j. r = Ok () \<and> ms_bg s' = ms_bg s @ [j] \<and> aj_volume j = v \<and> \<not> aj_begun j))"
  using assms unfolding createAndAddReplicaToController_def
  by (auto simp: tryE_def panic_def dest!: io_fields split: prod.splits res.splits option.splits)

definition needs_replica :: "ReplicaInfo list \<Rightarrow> VolumeInfo \<Rightarrow> int gomap \<Rightarrow> bool" where
  "needs_replica replicas volume counts \<longleftrightarrow> with_mode ReplicaModeRW replicas \<noteq> [] \<and>
     int (length (with_mode ReplicaModeRW replicas)) < v_NumberOfReplicas volume \<and> with_mode ReplicaModeWO replicas = [] \<and>
     adding counts (v_Name volume) = 0"

lemma CheckController_bg:
  assumes "CheckController man ctrl volume s = (r, s')"
  shows "adding (ms_addingReplicas s') = adding (ms_addingReplicas s) \<and> (ms_bg s' = ms_bg s \<or>
    (\<exists>j replicas w1. r = Ok () \<and> ms_bg s' = ms_bg s @ [j] \<and> aj_volume j = v_Name volume \<and> \<not> aj_begun j \<and>
       ct_GetReplicaStates ctrl (ms_w s) = (Ok replicas, w1) \<and> needs_replica replicas volume (ms_addingReplicas s)))"
proof -
  obtain r1 w1 where g: "ct_GetReplicaStates ctrl (ms_w s) = (r1, w1)" by fastforce
  let ?s1 = "s\<lparr>ms_w := w1\<rparr>"
  have g1: "io (ct_GetReplicaStates ctrl) s = (r1, ?s1)" by (simp add: io_def g)
  show ?thesis
  proof (cases r1)
    case (Ok replicas)
    let ?bad = "concat (map (remove_bad man ctrl volume) (with_mode ReplicaModeERR replicas))"
    have k: "keeps (\<lambda>s. bg_part s = x) (together (\<lambda>m. m) ?bad)" for x
      by (rule keeps_together) (auto simp: remove_bad_def intro!: keeps_intros)
    obtain r2 s2 where b: "together (\<lambda>m. m) ?bad ?s1 = (r2, s2)" by fastforce
    have s2: "bg_part s2 = bg_part s" using bg_same [OF k b] by (simp add: bg_part_def)
    show ?thesis
    proof (cases r2)
      case r2: (Ok u)
      let ?good = "with_mode ReplicaModeRW replicas" and ?wo = "with_mode ReplicaModeWO replicas"
      have c: "(if ?good = [] then Detach man (v_Name volume)
          else st (addingReplicasCount (v_Name volume) 0) (\<lambda>addingReplicas.
            if int (length ?good) < v_NumberOfReplicas volume \<and> ?wo = [] \<and> addingReplicas = 0
            then createAndAddReplicaToController man (v_Name volume) ctrl else ret ())) s2 = (r, s')"
        using assms Ok r2 b g1 by (simp add: CheckController_def Let_def tryE_def)
      show ?thesis
      proof (cases "?good = []")
        case True
        then have "bg_part s' = bg_part s2" using c bg_same [OF bg_keeps_Detach, where s = s2] by simp
        then show ?thesis using s2 by (simp add: bg_part_def)
      next
        case False
        let ?n = "fst (addingReplicasCount (v_Name volume) 0 s2)" and ?s3 = "snd (addingReplicasCount (v_Name volume) 0 s2)"
        have n: "?n = adding (ms_addingReplicas s) (v_Name volume)" and s3: "bg_part ?s3 = bg_part s"
          using s2 bg_count_read [of "v_Name volume" s2] by (auto simp: addingReplicasCount_def bg_part_def Let_def)
        show ?thesis
        proof (cases "int (length ?good) < v_NumberOfReplicas volume \<and> ?wo = [] \<and> ?n = 0")
          case True
          then have "createAndAddReplicaToController man (v_Name volume) ctrl ?s3 = (r, s')"
            using c False by (simp add: st_def split: prod.splits)
          from createAndAdd_bg [OF this] show ?thesis
            using True False n s3 g Ok by (auto simp: bg_part_def needs_replica_def)
        next
          case f: False
          then have "s' = ?s3" using c False by (auto simp: st_def ret_def split: prod.splits if_splits)
          then show ?thesis using s3 by (simp add: bg_part_def)
        qed
      qed
    qed (use assms Ok b g1 s2 in \<open>auto simp: CheckController_def Let_def tryE_def bg_part_def\<close>)
  qed (use assms g1 in \<open>auto simp: CheckController_def Let_def tryE_def bg_part_def\<close>)
qed

section \<open>Interleavings\<close>

text \<open>The requests of the API.\<close>

datatype request =
    RCreate VolumeInfo | RDelete string | RAttach string | RDetach string
  | RUpdateRecurring string "RecurringJob list" | RReplicaRemove string string | RCleanup VolumeInfo

fun serve :: "('w, 'm) volumeManager \<Rightarrow> request \<Rightarrow> (('w, 'm) man, unit) op" where
  "serve man (RCreate v) = tryE (Create man v) id (\<lambda>_. ret ())"
| "serve man (RDelete n) = Manager_Delete man n"
| "serve man (RAttach n) = Attach man n"
| "serve man (RDetach n) = Detach man n"
| "serve man (RUpdateRecurring n jobs) = UpdateRecurring man n jobs"
| "serve man (RReplicaRemove v r) = ReplicaRemove man v r"
| "serve man (RCleanup v) = Cleanup man v"

lemma bg_keeps_serve: "keeps (\<lambda>s. bg_part s = x) (serve man q)"
  by (cases q) (auto intro!: keeps_intros)

inductive adding_reach :: "('w, 'm) volumeManager \<Rightarrow> ('w, 'm) man \<Rightarrow> bool" for man where
  start: "adding_reach man (Manager_New w)"
| check: "adding_reach man s \<Longrightarrow> CheckController man ctrl volume s = (r, s') \<Longrightarrow> adding_reach man s'"
| serve: "adding_reach man s \<Longrightarrow> serve man q s = (r', s') \<Longrightarrow> adding_reach man s'"
| world: "adding_reach man s \<Longrightarrow> adding_reach man (s\<lparr>ms_w := w\<rparr>)"
| begin_job: "adding_reach man s \<Longrightarrow> adding_reach man (bg_begin n s)"
| end_job: "adding_reach man s \<Longrightarrow> bg_end man n s = (r, s') \<Longrightarrow> adding_reach man s'"

definition begun :: "string \<Rightarrow> 'w addJob list \<Rightarrow> nat" where
  "begun v js = length (filter (\<lambda>j. aj_begun j \<and> aj_volume j = v) js)"

lemma begun_append [simp]: "begun v (js @ ks) = begun v js + begun v ks"
  by (simp add: begun_def)

lemma begun_Cons: "begun v (j # js) = (if aj_begun j \<and> aj_volume j = v then 1 else 0) + begun v js"
  by (simp add: begun_def)

lemma begun_Nil [simp]: "begun v [] = 0"
  by (simp add: begun_def)

lemma begun_update:
  "n < length js \<Longrightarrow> begun v (js[n := j]) + begun v [js ! n] = begun v js + begun v [j]"
proof -
  assume n: "n < length js"
  have "begun v js = begun v (take n js) + begun v [js ! n] + begun v (drop (Suc n) js)"
    using arg_cong [OF id_take_nth_drop [OF n], of "begun v"] by (simp add: begun_Cons)
  then show ?thesis using n by (simp add: upd_conv_take_nth_drop begun_Cons)
qed

lemma begun_remove:
  "n < length js \<Longrightarrow> begun v (take n js @ drop (Suc n) js) + begun v [js ! n] = begun v js"
  using arg_cong [OF id_take_nth_drop, of n js "begun v"] by (simp add: begun_Cons)

lemma bg_add_part: "bg_add man j s = (r, s') \<Longrightarrow> bg_part s' = bg_part s"
proof (rule bg_same)
  show "keeps (\<lambda>s. bg_part s = x) (bg_add man j)" for x
    unfolding bg_add_def by (intro keeps_intros)
qed

lemma adding_invariant:
  "adding_reach man s \<Longrightarrow> adding (ms_addingReplicas s) v = int (begun v (ms_bg s))"
proof (induction rule: adding_reach.induct)
  case (start w)
  then show ?case by (simp add: Manager_New_def adding_def)
next
  case (check s ctrl volume r s')
  then show ?case using CheckController_bg [OF check(2)] by (auto simp: begun_Cons)
next
  case (serve s q r s')
  then show ?case using bg_same [OF bg_keeps_serve serve(2)] by (simp add: bg_part_def)
next
  case (begin_job s n)
  then show ?case
    using begun_update [of n "ms_bg s" v "(ms_bg s ! n)\<lparr>aj_begun := True\<rparr>"]
    by (auto simp: bg_begin_def addingReplicasCount_def Let_def begun_Cons split: if_splits)
next
  case (end_job s n r s')
  show ?case
  proof (cases "n < length (ms_bg s) \<and> aj_begun (ms_bg s ! n)")
    case True
    obtain r1 s1 where b: "bg_add man (ms_bg s ! n) s = (r1, s1)" by fastforce
    have s1: "adding (ms_addingReplicas s1) = adding (ms_addingReplicas s)" "ms_bg s1 = ms_bg s"
      using bg_add_part [OF b] by (simp_all add: bg_part_def)
    have s': "adding (ms_addingReplicas s') = (adding (ms_addingReplicas s))(aj_volume (ms_bg s ! n) :=
        adding (ms_addingReplicas s) (aj_volume (ms_bg s ! n)) - 1)" "ms_bg s' = take n (ms_bg s) @ drop (Suc n) (ms_bg s)"
      using end_job(2) True b s1 by (auto simp: bg_end_def addingReplicasCount_def Let_def)
    show ?thesis
      using begun_remove [of n "ms_bg s" v] True end_job(3) unfolding s' by (auto simp: begun_Cons split: if_splits)
  qed (use end_job in \<open>auto simp: bg_end_def\<close>)
qed simp

section \<open>A small manager for examples\<close>

text \<open>An orchestrator and a controller that always succeed and keep nothing, over any world.\<close>

definition ex_inst :: InstanceInfo where
  "ex_inst = ex_instance ''vol1'' ''replica'' ''rep2''"

definition ex_orc :: "'w Orchestrator" where
  "ex_orc = \<lparr>orc_CreateVolume = ret, orc_DeleteVolume = (\<lambda>_. ret ()), orc_GetVolume = (\<lambda>n. ret (Some (ex_volume n))),
     orc_ListVolumes = ret [], orc_MarkBadReplica = (\<lambda>_ _. ret ()), orc_UpdateVolume = (\<lambda>_. ret ()),
     orc_CreateController = (\<lambda>_ _ _. ret \<lparr>c_InstanceInfo = ex_inst\<rparr>),
     orc_CreateReplica = (\<lambda>_ _. ret (Some \<lparr>r_InstanceInfo = ex_inst, r_Mode = [], r_BadTimestamp = []\<rparr>)),
     orc_StartInstance = ret, orc_StopInstance = ret, orc_RemoveInstance = ret, orc_ListHosts = ret [], orc_GetHost = (\<lambda>_. ret None),
     orc_Process = None, orc_GetCurrentHostID = ''host1'', orc_GetAddress = (\<lambda>_. ret []), orc_GetSettings = ret None,
     orc_SetSettings = (\<lambda>_. ret ())\<rparr>"

definition ex_env :: "'w Env" where
  "ex_env = \<lparr>env_Now = (\<lambda>w. (0, w)), env_Sleep = (\<lambda>_ w. w), env_UUID = (\<lambda>w. (replicate 36 (CHR ''0''), w)), env_Stat = (\<lambda>_. ret True),
     env_HttpGet = (\<lambda>_. ret ()), env_Exec = (\<lambda>_ _ _ w. (TimedOut, w)),
     env_Proc = (\<lambda>_ w. (\<lparr>pr_start = Some (Ext ''not found''), pr_stdout = [], pr_json = None, pr_stderr = [], pr_wait = None\<rparr>, w)),
     env_InterfaceAddrs = ret []\<rparr>"

definition ex_ctrl :: "ReplicaInfo list \<Rightarrow> 'w Controller" where
  "ex_ctrl rs = \<lparr>ct_Name = ''vol1'', ct_Endpoint = ret ''/dev/longhorn/vol1'', ct_GetReplicaStates = ret rs, ct_AddReplica = (\<lambda>_. ret ()),
     ct_RemoveReplica = (\<lambda>_. ret ()), ct_Put = (\<lambda>_. ret ()), ct_ListTasks = ret [], ct_LatestBgTasks = ret [],
     ct_Create = (\<lambda>n _. ret n), ct_List = ret [], ct_Get = (\<lambda>_. ret None), ct_Delete = (\<lambda>_. ret ()), ct_Revert = (\<lambda>_. ret ()),
     ct_Purge = ret (), ct_StartBackup = (\<lambda>_ _. ret ()), ct_Restore = (\<lambda>_. ret ()), ct_DeleteBackup = (\<lambda>_. ret ())\<rparr>"

definition ex_man_with :: "('w, 'm) MonitorOps \<Rightarrow> ('w, 'm) volumeManager" where
  "ex_man_with mo = \<lparr>vm_orc = ex_orc, vm_monitor = mo,
     vm_getController = (\<lambda>_ w. (Some (ex_ctrl []), w)), vm_getBackups = (\<lambda>_. \<lparr>mb_List = (\<lambda>_. ret []), mb_Get = (\<lambda>_. ret None),
       mb_Delete = (\<lambda>_. ret ()), mb_ListVolumes = ret [], mb_GetVolume = (\<lambda>_. fail (Ext ''none''))\<rparr>),
     vm_env = ex_env, vm_cron = (\<lambda>_. None)\<rparr>"

definition ex_man :: "('w, nat) volumeManager" where
  "ex_man = ex_man_with \<lparr>mo_Begin = (\<lambda>_ w. (0, w)), mo_Close = (\<lambda>_ w. w), mo_Send = (\<lambda>_ _. ret ())\<rparr>"

definition ex_rw :: ReplicaInfo where
  "ex_rw = \<lparr>r_InstanceInfo = ex_instance ''vol1'' ''replica'' ''rep1'', r_Mode = ReplicaModeRW, r_BadTimestamp = []\<rparr>"

definition ex_job :: "'w addJob" where
  "ex_job = \<lparr>aj_volume = ''vol1'', aj_ctrl = ex_ctrl [ex_rw],
     aj_replica = \<lparr>r_InstanceInfo = ex_inst, r_Mode = [], r_BadTimestamp = []\<rparr>, aj_begun = False\<rparr>"

lemmas ex_defs = ex_orc_def ex_env_def ex_man_def ex_man_with_def ex_ctrl_def

lemma ex_check:
  "CheckController ex_man (ex_ctrl [ex_rw]) (ex_volume ''vol1'') (Manager_New ()) =
     (Ok (), (Manager_New ())\<lparr>ms_addingReplicas := [(''vol1'', 0)], ms_bg := [ex_job]\<rparr>)"
  by (simp add: CheckController_def ex_defs Manager_New_def io_def with_mode_def ex_rw_def together_def run_simps st_def Let_def
      addingReplicasCount_def adding_def ex_volume_def createAndAddReplicaToController_def GetReplicaName_def RandomID_def tryE_def
      ex_job_def)

section \<open>Properties\<close>

text \<open>C18: under every interleaving of checks of the controllers, requests and the goroutines that
  add replicas, the counter of a volume is the number of its goroutines that have begun and
  not ended; it is never negative.\<close>

theorem adding_counts:
  assumes "adding_reach man s"
  shows "adding (ms_addingReplicas s) v = int (begun v (ms_bg s)) \<and> 0 \<le> adding (ms_addingReplicas s) v"
  using adding_invariant [OF assms] by simp

theorem adding_counts_witness:
  "\<exists>s :: (unit, nat) man. begun ''vol1'' (ms_bg s) = 1 \<and>
     adding (ms_addingReplicas s) ''vol1'' = int (begun ''vol1'' (ms_bg s)) \<and> 0 \<le> adding (ms_addingReplicas s) ''vol1''"
proof -
  let ?s = "bg_begin 0 ((Manager_New () :: (unit, nat) man)\<lparr>ms_addingReplicas := [(''vol1'', 0)], ms_bg := [ex_job]\<rparr>)"
  have "adding_reach ex_man ?s"
    by (rule adding_reach.begin_job, rule adding_reach.check [OF adding_reach.start ex_check])
  moreover have "begun ''vol1'' (ms_bg ?s) = 1"
    by (simp add: bg_begin_def ex_job_def addingReplicasCount_def Let_def begun_def)
  ultimately show ?thesis using adding_counts [of ex_man ?s "''vol1''"] by blast
qed

text \<open>C19: a check of a controller starts at most one goroutine, and only when the controller
  reports at least one replica that can be read and written, fewer of them than the volume is
  to have, none that is being rebuilt, and no goroutine of the volume has begun.  It leaves
  the counters as they were: until that goroutine begins, the next check finds the same.\<close>

theorem check_starts_one_when_needed:
  assumes "CheckController man ctrl volume s = (r, s')"
  shows "adding (ms_addingReplicas s') = adding (ms_addingReplicas s) \<and> (ms_bg s' = ms_bg s \<or>
    (\<exists>j replicas w1. r = Ok () \<and> ms_bg s' = ms_bg s @ [j] \<and> aj_volume j = v_Name volume \<and> \<not> aj_begun j \<and>
       ct_GetReplicaStates ctrl (ms_w s) = (Ok replicas, w1) \<and> needs_replica replicas volume (ms_addingReplicas s)))"
  using CheckController_bg [OF assms] .

theorem check_starts_one_when_needed_witness:
  "\<exists>(s :: (unit, nat) man) s'. s' \<noteq> s \<and> CheckController ex_man (ex_ctrl [ex_rw]) (ex_volume ''vol1'') s = (Ok (), s') \<and>
    adding (ms_addingReplicas s') = adding (ms_addingReplicas s) \<and> (ms_bg s' = ms_bg s \<or>
    (\<exists>j replicas w1. Ok () = Ok () \<and> ms_bg s' = ms_bg s @ [j] \<and> aj_volume j = v_Name (ex_volume ''vol1'') \<and> \<not> aj_begun j \<and>
       ct_GetReplicaStates (ex_ctrl [ex_rw]) (ms_w s) = (Ok replicas, w1) \<and> needs_replica replicas (ex_volume ''vol1'') (ms_addingReplicas s)))"
proof -
  have "(Manager_New () :: (unit, nat) man)\<lparr>ms_addingReplicas := [(''vol1'', 0)], ms_bg := [ex_job]\<rparr> \<noteq> Manager_New ()"
    by (simp add: Manager_New_def)
  then show ?thesis
    using ex_check check_starts_one_when_needed [OF ex_check] by metis
qed

text \<open>Two checks before the goroutine of the first one begins start two goroutines for one missing replica.\<close>

theorem two_checks_two_goroutines:
  "\<exists>s :: (unit, nat) man. adding_reach ex_man s \<and> v_NumberOfReplicas (ex_volume ''vol1'') - int (length [ex_rw]) = 1 \<and>
     length (ms_bg s) = 2"
proof -
  let ?s = "(Manager_New () :: (unit, nat) man)\<lparr>ms_addingReplicas := [(''vol1'', 0)], ms_bg := [ex_job]\<rparr>"
  have "CheckController ex_man (ex_ctrl [ex_rw]) (ex_volume ''vol1'') ?s = (Ok (), ?s\<lparr>ms_bg := [ex_job, ex_job]\<rparr>)"
    by (simp add: CheckController_def ex_defs Manager_New_def io_def with_mode_def ex_rw_def together_def run_simps st_def Let_def
      addingReplicasCount_def adding_def ex_volume_def createAndAddReplicaToController_def GetReplicaName_def RandomID_def tryE_def
      ex_job_def)
  then have "adding_reach ex_man (?s\<lparr>ms_bg := [ex_job, ex_job]\<rparr>)"
    using adding_reach.check [OF adding_reach.check [OF adding_reach.start ex_check]] by blast
  then show ?thesis by (intro exI [of _ "?s\<lparr>ms_bg := [ex_job, ex_job]\<rparr>"]) (simp add: ex_volume_def)
qed

end
