(* ===== verification/Tending.thy ===== *)
theory Tending
  imports Adding
begin

text \<open>
  What a manager tends: the volumes it monitors.  Whatever the manager does, whether an
  operation returns, fails or panics, every volume that it monitors has its base document and
  a controller in the store.  The locale \<open>manager_process\<close> adds to the contract
  \<open>volume_manager\<close> that the tools and channels the manager reaches leave the store alone; the lemmas go
  through the operations, and \<open>manager_reach\<close> joins them: requests, rounds of the monitors,
  goroutines that add replicas, and steps of others that leave the monitored volumes alone.
\<close>

section \<open>Operations that end somehow\<close>

text \<open>Where an operation returns \<open>Q\<close> holds, where it fails or panics \<open>I\<close> does.\<close>

definition ends :: "('w, 'a) op \<Rightarrow> ('a \<Rightarrow> 'w \<Rightarrow> bool) \<Rightarrow> ('w \<Rightarrow> bool) \<Rightarrow> 'w \<Rightarrow> bool" where
  "ends m Q I w = (case m w of (r, w') \<Rightarrow> (case r of Ok a \<Rightarrow> Q a w' | Err _ \<Rightarrow> I w' | Panic _ \<Rightarrow> I w'))"

named_theorems ends_simps "how an operation ends"

lemma ends_ret [ends_simps]: "ends (ret a) Q I w = Q a w"
  by (simp add: ends_def ret_def)

lemma ends_fail [ends_simps]: "ends (fail e) Q I w = I w"
  by (simp add: ends_def fail_def)

lemma ends_panic [ends_simps]: "ends (panic m) Q I w = I w"
  by (simp add: ends_def panic_def)

lemma ends_st [ends_simps]: "ends (st f k) Q I w = ends (k (fst (f w))) Q I (snd (f w))"
  by (simp add: ends_def st_def split: prod.split)

lemma ends_mono: "ends m Q I w \<Longrightarrow> (\<And>a w'. Q a w' \<Longrightarrow> Q' a w') \<Longrightarrow> (\<And>w'. I w' \<Longrightarrow> I' w') \<Longrightarrow> ends m Q' I' w"
  by (auto simp: ends_def split: res.splits prod.splits)

lemma ends_tryE [ends_simps]: "ends (tryE m h k) Q I w = ends m (\<lambda>a. ends (k a) Q I) I w"
  by (simp add: ends_def tryE_def split: res.splits prod.splits)

lemma ends_attempt: "ends m (\<lambda>a. ends (k (Inr a)) Q I) (\<lambda>w'. I w' \<and> (\<forall>e. ends (k (Inl e)) Q I w')) w \<Longrightarrow> ends (attempt m k) Q I w"
  by (cases "m w"; cases "fst (m w)") (auto simp: ends_def attempt_def)

lemma ends_step:
  assumes "ends m Q1 I1 w" and "\<And>a w'. Q1 a w' \<Longrightarrow> ends (k a) Q I w'" and "\<And>w'. I1 w' \<Longrightarrow> I w'"
  shows "ends (tryE m h k) Q I w"
  unfolding ends_tryE by (rule ends_mono [OF assms(1)]) (use assms(2,3) in auto)

lemma ends_attempt_step:
  assumes "ends m Q1 I1 w" and "\<And>a w'. Q1 a w' \<Longrightarrow> ends (k (Inr a)) Q I w'"
    and "\<And>e w'. I1 w' \<Longrightarrow> ends (k (Inl e)) Q I w'" and "\<And>w'. I1 w' \<Longrightarrow> I w'"
  shows "ends (attempt m k) Q I w"
  by (rule ends_attempt, rule ends_mono [OF assms(1)]) (use assms(2-4) in auto)

lemma ends_wp: "wp m Q (\<lambda>_. I) w \<Longrightarrow> ends m Q I w"
  by (auto simp: wp_def ends_def split: res.splits prod.splits)

lemma ends_keeps: "keeps I m \<Longrightarrow> I w \<Longrightarrow> ends m (\<lambda>_. I) I w"
  by (auto simp: ends_def dest: keepsD split: res.splits prod.splits)

lemma keeps_ends: "(\<And>w. I w \<Longrightarrow> ends m (\<lambda>_. I) I w) \<Longrightarrow> keeps I m"
proof (rule keepsI)
  fix w assume *: "\<And>w. I w \<Longrightarrow> ends m (\<lambda>_. I) I w" "I w"
  obtain r w' where r: "m w = (r, w')" by fastforce
  show "I (snd (m w))" using *(1) [OF *(2)] by (cases r) (auto simp: ends_def r)
qed

lemma ends_result: "ends m Q I w \<Longrightarrow> (\<And>r w'. m w = (Ok r, w') \<Longrightarrow> P r) \<Longrightarrow> ends m (\<lambda>r w'. Q r w' \<and> P r) I w"
  by (auto simp: ends_def split: prod.splits res.splits)

lemma ends_both: "ends m Q I w \<Longrightarrow> wp m Q' E w \<Longrightarrow> ends m (\<lambda>a w'. Q a w' \<and> Q' a w') I w"
  by (auto simp: ends_def wp_def split: res.splits prod.splits)

text \<open>What a specification says beside what every end keeps.\<close>

lemma ends_wp_keeps:
  assumes "wp m Q (\<lambda>_. I) w" and "\<And>x. keeps (\<lambda>s. f s = x) m"
  shows "ends m (\<lambda>a w'. Q a w' \<and> f w' = f w) (\<lambda>w'. I w' \<and> f w' = f w) w"
  using assms(1) keepsD [OF assms(2) [of "f w"] refl] by (auto simp: wp_def ends_def split: res.splits prod.splits)

section \<open>What no operation of these changes\<close>

lemma mon_keeps_io [keeps_intros]: "keeps (\<lambda>s. ms_monitors s = x) (io m)"
  by (simp add: keeps_def io_def Let_def split: prod.split)

lemma mon_keeps_completeVolumeState [keeps_intros]: "keeps (\<lambda>s. ms_monitors s = x) (completeVolumeState man vol)"
  unfolding completeVolumeState_def Let_def by (intro keeps_intros) (simp add: iost_eq)

lemma mon_keeps_Get [keeps_intros]: "keeps (\<lambda>s. ms_monitors s = x) (Manager_Get man n)"
  unfolding Manager_Get_def by (intro keeps_intros)

lemma mon_keeps_create_replicas [keeps_intros]: "keeps (\<lambda>s. ms_monitors s = x) (create_replicas man n k)"
  by (induction k) (auto intro!: keeps_intros)

lemma mon_keeps_doCreate [keeps_intros]: "keeps (\<lambda>s. ms_monitors s = x) (doCreate man vol)"
  unfolding doCreate_def Let_def by (intro keeps_intros) (simp add: iost_eq)

lemma mon_keeps_complete_all [keeps_intros]: "keeps (\<lambda>s. ms_monitors s = x) (complete_all man vs)"
  by (induction vs) (auto intro!: keeps_intros)

lemma bg_keeps_complete_all [keeps_intros]: "keeps (\<lambda>s. bg_part s = x) (complete_all man vs)"
  by (induction vs) (auto intro!: keeps_intros)

lemma bg_keeps_Start [keeps_intros]: "keeps (\<lambda>s. bg_part s = x) (Manager_Start man)"
  unfolding Manager_Start_def Manager_List_def by (intro keeps_intros)

lemma io_eq: "io m s = (fst (m (ms_w s)), s\<lparr>ms_w := snd (m (ms_w s))\<rparr>)"
  by (simp add: io_def split: prod.split)

lemma attach_scan_marked:
  assumes "(k, r) \<in> set rs" and "\<not> unmarked r"
  shows "\<exists>stops'. attach_scan rs stops reps None = (stops', None)"
  using assms(1)
proof (induction rs arbitrary: stops reps)
  case (Cons x rs)
  obtain k' r' where x: "x = (k', r')" by fastforce
  show ?case
  proof (cases "unmarked r'")
    case True
    then have "(k, r) \<in> set rs" using Cons.prems assms(2) by (auto simp: x)
    then show ?thesis using Cons.IH True by (auto simp: x unmarked_def Let_def)
  next
    case False
    then show ?thesis by (cases "ParseTime (r_BadTimestamp r')") (auto simp: x unmarked_def Let_def)
  qed
qed simp

text \<open>What a loop over the replicas stops and starts is among them.\<close>

lemma attach_scan_stops:
  "\<lbrakk>attach_scan rs stops reps recent = (stops', x); set stops \<subseteq> A; snd ` set rs \<subseteq> A\<rbrakk> \<Longrightarrow> set stops' \<subseteq> A"
  by (induction rs stops reps recent rule: attach_scan.induct)
    (auto simp: Let_def split: if_splits sum.splits option.splits prod.splits)

lemma attach_scan_good:
  assumes "attach_scan rs [] [] None = (stops, Some (reps, recent))"
  shows "recent = None" and "set reps \<subseteq> set rs"
proof -
  have "\<forall>(k, r) \<in> set rs. unmarked r" using attach_scan_marked [of _ _ rs "[]" "[]"] assms by fastforce
  from attach_scan_unmarked [OF this, of "[]" "[]"] show "recent = None" and "set reps \<subseteq> set rs" using assms by auto
qed

section \<open>The invariant\<close>

definition has_controller :: "kv_abs \<Rightarrow> string \<Rightarrow> bool" where
  "has_controller a n \<longleftrightarrow> a_base a n \<noteq> None \<and> a_ctrl a n \<noteq> None"

text \<open>Every monitored volume has its base document and a controller.\<close>

definition tended :: "('w \<Rightarrow> kv_abs) \<Rightarrow> ('w, 'm) man \<Rightarrow> bool" where
  "tended absv s \<longleftrightarrow> (\<forall>n. map_of (ms_monitors s) n \<noteq> None \<longrightarrow> has_controller (absv (ms_w s)) n)"

text \<open>A volume whose instances are all its own, and a replica of a volume.\<close>

definition own_replica :: "(string \<Rightarrow> bool) \<Rightarrow> (string \<Rightarrow> bool) \<Rightarrow> string \<Rightarrow> ReplicaInfo \<Rightarrow> bool" where
  "own_replica known ok n r \<longleftrightarrow> inst_ok known ok (r_InstanceInfo r) \<and> i_Type (r_InstanceInfo r) = InstanceTypeReplica \<and>
     i_VolumeName (r_InstanceInfo r) = n"

definition own_volume :: "(string \<Rightarrow> bool) \<Rightarrow> (string \<Rightarrow> bool) \<Rightarrow> string \<Rightarrow> VolumeInfo \<Rightarrow> bool" where
  "own_volume known ok n vol \<longleftrightarrow> v_Name vol = n \<and>
     (\<forall>c. v_Controller vol = Some c \<longrightarrow> inst_ok known ok (c_InstanceInfo c) \<and> i_VolumeName (c_InstanceInfo c) = n) \<and>
     (\<forall>(k, r) \<in> set (replicas_of vol). own_replica known ok n r)"

text \<open>An operation that leaves the store alone, however it ends.\<close>

definition leaves :: "('w \<Rightarrow> bool) \<Rightarrow> ('w \<Rightarrow> kv_abs) \<Rightarrow> ('w, 'a) op \<Rightarrow> bool" where
  "leaves good absv m \<longleftrightarrow> (\<forall>w. good w \<longrightarrow> harmless good absv w (snd (m w)))"

lemma wp_snd: "wp m (\<lambda>_. I) (\<lambda>_. I) w \<Longrightarrow> I (snd (m w))"
  by (auto simp: wp_def split: prod.splits res.splits)

lemma leaves_wp: "(\<And>w. good w \<Longrightarrow> wp m (\<lambda>_ w'. good w' \<and> absv w' = absv w) (\<lambda>_ w'. good w' \<and> absv w' = absv w) w) \<Longrightarrow> leaves good absv m"
  unfolding leaves_def harmless_def by (intro allI impI wp_snd [where I = "\<lambda>w'. good w' \<and> absv w' = absv w" for w]) blast

text \<open>A goroutine that adds a replica: the replica is one of its volume, the controller one that the
  manager was given.\<close>

definition job_ok :: "(string \<Rightarrow> bool) \<Rightarrow> (string \<Rightarrow> bool) \<Rightarrow> ('w, 'm) volumeManager \<Rightarrow> 'w addJob \<Rightarrow> bool" where
  "job_ok known ok man j \<longleftrightarrow> own_replica known ok (aj_volume j) (aj_replica j) \<and>
     (\<exists>v w. fst (vm_getController man v w) = Some (aj_ctrl j))"

text \<open>Requests that name volumes and replicas as the store can hold them.\<close>

fun request_ok :: "(string \<Rightarrow> bool) \<Rightarrow> request \<Rightarrow> bool" where
  "request_ok ok (RCreate v) = (ok (v_Name v) \<and> volume_ints_ok v)"
| "request_ok ok (RDelete n) = ok n"
| "request_ok ok (RAttach n) = ok n"
| "request_ok ok (RDetach n) = ok n"
| "request_ok ok (RUpdateRecurring n jobs) = (ok n \<and> (\<forall>j \<in> set jobs. int_ok (j_Retain j)))"
| "request_ok ok (RReplicaRemove v r) = ok v"
| "request_ok ok (RCleanup v) = ok (v_Name v)"

text \<open>What a manager goes through: it is made, started and asked; its monitors tick, its goroutines run;
  and others change the store as long as they leave the controllers of the volumes it monitors.\<close>

inductive manager_reach :: "('w \<Rightarrow> bool) \<Rightarrow> ('w \<Rightarrow> kv_abs) \<Rightarrow> (string \<Rightarrow> bool) \<Rightarrow> ('w, 'm) volumeManager \<Rightarrow> 'w Runtime \<Rightarrow> ('w, 'm) man \<Rightarrow> bool"
  for good absv ok man rt where
  new: "good w \<Longrightarrow> manager_reach good absv ok man rt (Manager_New w)"
| start: "manager_reach good absv ok man rt s \<Longrightarrow> Manager_Start man s = (r, s') \<Longrightarrow> manager_reach good absv ok man rt s'"
| serve: "manager_reach good absv ok man rt s \<Longrightarrow> request_ok ok q \<Longrightarrow> serve man q s = (r, s') \<Longrightarrow> manager_reach good absv ok man rt s'"
| tick: "manager_reach good absv ok man rt s \<Longrightarrow> ok (v_Name volume) \<Longrightarrow> fst (vm_getController man v w) = Some ctrl \<Longrightarrow>
    monitor_tick rt man ctrl volume ch k s = (x, s') \<Longrightarrow> manager_reach good absv ok man rt s'"
| cleanup: "manager_reach good absv ok man rt s \<Longrightarrow> ok (v_Name volume) \<Longrightarrow> cleanup_tick man volume s = (r, s') \<Longrightarrow>
    manager_reach good absv ok man rt s'"
| begin_job: "manager_reach good absv ok man rt s \<Longrightarrow> manager_reach good absv ok man rt (bg_begin n s)"
| end_job: "manager_reach good absv ok man rt s \<Longrightarrow> bg_end man n s = (r, s') \<Longrightarrow> manager_reach good absv ok man rt s'"
| others: "manager_reach good absv ok man rt s \<Longrightarrow> good w \<Longrightarrow>
    (\<forall>n. map_of (ms_monitors s) n \<noteq> None \<longrightarrow> has_controller (absv (ms_w s)) n \<longrightarrow> has_controller (absv w) n) \<Longrightarrow>
    manager_reach good absv ok man rt (s\<lparr>ms_w := w\<rparr>)"

locale manager_process = volume_manager orc good absv known ok man
  for orc :: "'w Orchestrator" and good absv known ok and man :: "('w, 'm) volumeManager" +
  fixes rt :: "'w Runtime"
  assumes restore: "fst (vm_getController man v w) = Some ctrl \<Longrightarrow> leaves good absv (ct_Restore ctrl u)"
    and states: "fst (vm_getController man v w) = Some ctrl \<Longrightarrow> leaves good absv (ct_GetReplicaStates ctrl)"
    and add_replica: "fst (vm_getController man v w) = Some ctrl \<Longrightarrow> leaves good absv (ct_AddReplica ctrl r)"
    and remove_replica: "fst (vm_getController man v w) = Some ctrl \<Longrightarrow> leaves good absv (ct_RemoveReplica ctrl r)"
    and get_backup: "leaves good absv (mb_Get (vm_getBackups man t) u)"
    and send: "leaves good absv (mo_Send (vm_monitor man) m e)"
    and close: "leaves good absv (close_chan rt ch)"
begin

text \<open>A good store and tended volumes; and one volume that is not monitored.\<close>

definition tidy :: "('w, 'm) man \<Rightarrow> bool" where "tidy s \<longleftrightarrow> inv s \<and> tended absv s"

definition apart :: "string \<Rightarrow> ('w, 'm) man \<Rightarrow> bool" where "apart n s \<longleftrightarrow> tidy s \<and> map_of (ms_monitors s) n = None"

lemma tidy_inv: "tidy s \<Longrightarrow> inv s"
  by (simp add: tidy_def)

lemma apart_tidy: "apart n s \<Longrightarrow> tidy s"
  by (simp add: apart_def)

text \<open>What the steps of the store keep.\<close>

lemma tidy_upd:
  assumes "tidy s" and "good w'" and "\<And>n. has_controller (ab s) n \<Longrightarrow> has_controller (absv w') n"
  shows "tidy (s\<lparr>ms_w := w'\<rparr>)"
  using assms by (simp add: tidy_def tended_def)

lemma tidy_same: "tidy s \<Longrightarrow> good w' \<Longrightarrow> absv w' = ab s \<Longrightarrow> tidy (s\<lparr>ms_w := w'\<rparr>)"
  by (erule tidy_upd) simp_all

lemma tidy_still: "tidy s \<Longrightarrow> still s s' \<Longrightarrow> ms_monitors s' = ms_monitors s \<Longrightarrow> tidy s'"
  by (simp add: tidy_def tended_def harmless_def)

lemma apart_upd:
  assumes "apart n s" and "good w'" and "only n (ab s) (absv w')"
  shows "apart n (s\<lparr>ms_w := w'\<rparr>)"
proof -
  have "has_controller (absv w') u = has_controller (ab s) u" if "u \<noteq> n" for u
    using assms(3) that by (simp add: has_controller_def only_def)
  moreover have "map_of (ms_monitors s) n = None" using assms(1) by (simp add: apart_def)
  ultimately have "has_controller (absv w') u" if "map_of (ms_monitors s) u \<noteq> None" for u
    using that assms(1) by (cases "u = n") (simp_all add: apart_def tidy_def tended_def)
  then show ?thesis using assms(1,2) by (simp add: apart_def tidy_def tended_def)
qed

lemma unmonitored: "tidy s \<Longrightarrow> \<not> has_controller (ab s) n \<Longrightarrow> apart n s"
  by (auto simp: apart_def tidy_def tended_def)

lemma keeps_apart_io: "keeps tidy (io m) \<Longrightarrow> keeps (apart n) (io m)"
  by (simp add: keeps_def apart_def io_eq)

lemma leaves_tidy: "leaves good absv m \<Longrightarrow> keeps tidy (io m)"
  by (rule keepsI) (auto simp: io_eq leaves_def harmless_def dest: tidy_inv intro: tidy_same)

lemma ends_io: "ends (io m) Q I s = ends m (\<lambda>a w'. Q a (s\<lparr>ms_w := w'\<rparr>)) (\<lambda>w'. I (s\<lparr>ms_w := w'\<rparr>)) (ms_w s)"
  by (cases "m (ms_w s)") (simp add: ends_def io_def)

subsection \<open>Instances\<close>

text \<open>Whatever happens to a replica, the bases and the controllers are as they were.\<close>

lemma touched_replica_has: "touched InstanceTypeReplica n a b \<Longrightarrow> has_controller b = has_controller a"
  by (auto simp: touched_def has_controller_def fun_eq_iff)

lemma forget_touched:
  "inst_ok known ok i \<Longrightarrow> touched (i_Type i) (i_VolumeName i) a (forget_instance i a)"
  by (auto simp: inst_ok_def touched_def forget_instance_def)

lemma remove_touched:
  assumes "good w" and "inst_ok known ok i"
  shows "wp (orc_RemoveInstance orc i) (\<lambda>_ w'. good w' \<and> touched (i_Type i) (i_VolumeName i) (absv w) (absv w'))
    (\<lambda>_ w'. good w' \<and> touched (i_Type i) (i_VolumeName i) (absv w) (absv w')) w"
  by (rule wp_mono [OF remove [OF assms]]) (use forget_touched [OF assms(2)] in auto)

lemma instance_ops:
  assumes "m = orc_StartInstance orc i \<or> m = orc_StopInstance orc i \<or> m = orc_RemoveInstance orc i" and "inst_ok known ok i"
  shows "good w \<Longrightarrow> good (snd (m w)) \<and> touched (i_Type i) (i_VolumeName i) (absv w) (absv (snd (m w)))"
  using assms start [OF _ assms(2), of w] stop [OF _ assms(2), of w] remove_touched [OF _ assms(2), of w]
  by (auto simp: wp_def split: prod.splits res.splits)

lemma instance_apart:
  assumes "m = orc_StartInstance orc i \<or> m = orc_StopInstance orc i \<or> m = orc_RemoveInstance orc i"
    and "inst_ok known ok i" and "i_VolumeName i = n"
  shows "keeps (apart n) (io m)"
  by (rule keepsI)
    (use instance_ops [OF assms(1,2)] assms(3) in \<open>auto simp: io_eq intro!: apart_upd touched_only dest: apart_tidy tidy_inv\<close>)

lemma replica_tidy:
  assumes "m = orc_StartInstance orc i \<or> m = orc_StopInstance orc i \<or> m = orc_RemoveInstance orc i"
    and "inst_ok known ok i" and "i_Type i = InstanceTypeReplica"
  shows "keeps tidy (io m)"
proof (rule keepsI)
  fix s assume s: "tidy s"
  have "good (snd (m (ms_w s)))" "touched InstanceTypeReplica (i_VolumeName i) (ab s) (absv (snd (m (ms_w s))))"
    using instance_ops [OF assms(1,2), of "ms_w s"] tidy_inv [OF s] assms(3) by auto
  then show "tidy (snd (io m s))" using tidy_upd [OF s] touched_replica_has by (simp add: io_eq)
qed

subsection \<open>Reading\<close>

lemma found_own: "found a n (Some vol) \<Longrightarrow> typed known ok a \<Longrightarrow> own_volume known ok n vol"
  using foundD [of a n vol] by (auto simp: own_volume_def own_replica_def)

lemma Get_ends:
  assumes "tidy s" and "ok n"
  shows "ends (Manager_Get man n) (\<lambda>r s'. tidy s' \<and> found (ab s') n r) tidy s"
  using Manager_Get_wp [OF tidy_inv [OF assms(1)] assms(2)]
proof (rule ends_mono [OF ends_wp_keeps [where f = ms_monitors]], goal_cases)
  case 1
  then show ?case by (intro keeps_intros)
next
  case (2 r s')
  then show ?case using tidy_still [OF assms(1), of s'] by (auto simp: harmless_def)
qed (use tidy_still [OF assms(1)] in auto)

subsection \<open>Detaching and deleting\<close>

lemma stopMonitoring_ends: "tidy s \<Longrightarrow> v_Name vol = n \<Longrightarrow> ends (stopMonitoring man vol) (\<lambda>_. apart n) (apart n) s"
  by (rule ends_wp, rule wp_mono [OF stopMonitoring_wp [OF tidy_inv]])
    (auto simp: apart_def tidy_def tended_def harmless_def split: if_splits)

lemma stop_replicas_apart:
  assumes "\<forall>(k, r) \<in> set rs. own_replica known ok n r"
  shows "keeps (apart n) (together (\<lambda>(k, r). stop_replica man r) rs)"
  using assms
  by (intro keeps_together) (auto simp: stop_replica_def own_replica_def intro!: keeps_intros instance_apart)

lemma doDetach_result: "doDetach man vol s = (Ok r, s') \<Longrightarrow> replicas_of r = replicas_of vol"
  by (auto simp: doDetach_def tryE_Ok_iff ret_def replicas_of_def split: option.splits)

lemma doDetach_ends:
  assumes "tidy s" and v: "own_volume known ok n vol"
  shows "ends (doDetach man vol) (\<lambda>r s'. apart n s' \<and> replicas_of r = replicas_of vol) (apart n) s"
proof (rule ends_result [OF _ doDetach_result])
  have n: "v_Name vol = n" and c: "\<And>c. v_Controller vol = Some c \<Longrightarrow> inst_ok known ok (c_InstanceInfo c) \<and> i_VolumeName (c_InstanceInfo c) = n"
    and rs: "\<forall>(k, r) \<in> set (replicas_of vol). own_replica known ok n r"
    using v by (auto simp: own_volume_def)
  show "ends (doDetach man vol) (\<lambda>_. apart n) (apart n) s"
    unfolding doDetach_def orc
  proof (rule ends_step [OF stopMonitoring_ends [OF assms(1) n]], rule ends_keeps, goal_cases)
    case (1 _ s1)
    show ?case
      by (intro keeps_tryE stop_replicas_apart [OF rs]; cases "v_Controller vol")
        (use c in \<open>auto intro!: keeps_intros instance_apart\<close>)
  qed auto
qed

lemma Detach_ends:
  assumes "tidy s" and "ok n"
  shows "ends (Detach man n) (\<lambda>_. apart n) tidy s"
  unfolding Detach_def
proof (rule ends_step [OF Get_ends [OF assms]], goal_cases)
  case (1 r s1)
  show ?case
  proof (cases r)
    case None
    then show ?thesis using 1 unmonitored [of s1 n] by (simp add: ends_ret has_controller_def)
  next
    case (Some vol)
    then have "own_volume known ok n vol" using 1 found_own good_typed [OF tidy_inv] by blast
    from doDetach_ends [OF conjunct1 [OF 1] this] show ?thesis
      unfolding Some option.case by (rule ends_step) (simp_all add: ends_ret apart_tidy)
  qed
qed

lemma Detach_tidy: "ok n \<Longrightarrow> keeps tidy (Detach man n)"
  by (rule keeps_ends, rule ends_mono [OF Detach_ends]) (auto dest: apart_tidy)

lemma Delete_tidy:
  assumes "ok n"
  shows "keeps tidy (Manager_Delete man n)"
proof (rule keeps_ends)
  fix s assume s: "tidy s"
  have d: "keeps (apart n) (io (orc_DeleteVolume orc n))"
  proof (rule keepsI)
    fix s assume s: "apart n s"
    show "apart n (snd (io (orc_DeleteVolume orc n) s))"
      using delete_volume [OF tidy_inv [OF apart_tidy [OF s]] assms] apart_upd [OF s]
      by (auto simp: io_eq wp_def split: prod.splits res.splits)
  qed
  show "ends (Manager_Delete man n) (\<lambda>_. tidy) tidy s"
    unfolding Manager_Delete_def orc
  proof (rule ends_step [OF Get_ends [OF s assms]], goal_cases)
    case (1 r s1)
    show ?case
    proof (cases r)
      case None
      then show ?thesis using 1 by (simp add: ends_ret)
    next
      case (Some vol)
      then have v: "own_volume known ok n vol" using 1 found_own good_typed [OF tidy_inv] by blast
      show ?thesis
        unfolding Some option.case
      proof (rule ends_step [OF doDetach_ends [OF conjunct1 [OF 1] v]], goal_cases)
        case (1 v' s2)
        have "keeps (apart n) (forE (\<lambda>(k, r). tryE (io (orc_RemoveInstance orc (r_InstanceInfo r)))
            (wrap (''error removing replica container '' @ i_Name (r_InstanceInfo r))) (\<lambda>_. ret ())) (replicas_of vol))"
          using v by (intro keeps_forE) (auto simp: own_volume_def own_replica_def intro!: keeps_tryE keeps_ret instance_apart)
        then show ?case
          using 1 by (intro ends_mono [OF ends_keeps [where I = "apart n"]] keeps_tryE d keeps_ret) (auto dest: apart_tidy)
      qed (auto dest: apart_tidy)
    qed
  qed
qed

subsection \<open>Attaching\<close>

text \<open>A volume that is there and not monitored.\<close>

definition based :: "string \<Rightarrow> ('w, 'm) man \<Rightarrow> bool" where "based n s \<longleftrightarrow> apart n s \<and> a_base (ab s) n \<noteq> None"

lemma replica_based:
  assumes "m = orc_StartInstance orc i \<or> m = orc_StopInstance orc i" and "inst_ok known ok i" and "i_VolumeName i = n"
  shows "keeps (based n) (io m)"
proof (rule keepsI)
  fix s assume s: "based n s"
  have m: "m = orc_StartInstance orc i \<or> m = orc_StopInstance orc i \<or> m = orc_RemoveInstance orc i" using assms(1) by blast
  have "apart n (snd (io m s))" using instance_apart [OF m assms(2,3)] s by (simp add: keeps_def based_def)
  moreover have "a_base (ab (snd (io m s))) = a_base (ab s)"
    using instance_ops [OF m assms(2), of "ms_w s"] touched_base [of "i_Type i" "i_VolumeName i" "ab s"] s
    by (simp add: io_eq based_def apart_def tidy_def)
  ultimately show "based n (snd (io m s))" using s by (simp add: based_def)
qed

lemma startMonitoring_tidy:
  assumes "tidy s" and "has_controller (ab s) (v_Name vol)"
  shows "ends (startMonitoring man vol) (\<lambda>_. tidy) I s"
proof -
  have "harmless good absv (ms_w s) (snd (mo_Begin (vm_monitor man) vol (ms_w s)))" using monitor_begin [OF tidy_inv [OF assms(1)]] .
  then show ?thesis
    using assms by (auto simp: ends_def startMonitoring_def tidy_def tended_def harmless_def split: prod.split if_splits)
qed

lemma CreateController_ends:
  assumes s: "based n s" and n: "ok n"
  shows "ends (io (orc_CreateController orc n nm rs))
    (\<lambda>c s'. tidy s' \<and> has_controller (ab s') n \<and> inst_ok known ok (c_InstanceInfo c) \<and> i_VolumeName (c_InstanceInfo c) = n) (apart n) s"
proof -
  have w: "good (ms_w s)" "a_base (ab s) n \<noteq> None" "apart n s" using s tidy_inv apart_tidy by (auto simp: based_def)
  show ?thesis
    unfolding ends_io
  proof (rule ends_wp, rule wp_mono [OF create_controller [OF w(1) n w(2)]], goal_cases)
    case (1 c w')
    then have "only n (ab s) (absv w')" by (simp add: only_def)
    then have "tidy (s\<lparr>ms_w := w'\<rparr>)" using apart_upd [OF w(3)] 1 apart_tidy by blast
    moreover have "inst_ok known ok (c_InstanceInfo c) \<and> i_VolumeName (c_InstanceInfo c) = n"
      using typedD(2) [OF good_typed, of w' n c] 1 by simp
    ultimately show ?case using 1 w(2) by (simp add: has_controller_def)
  qed (use apart_upd [OF w(3)] touched_only in auto)
qed

lemma attach_start_ends:
  assumes s: "based n s" and n: "ok n" and v: "own_volume known ok n vol" and rs: "\<forall>(k, r) \<in> set rs. own_replica known ok n r"
  shows "ends (attach_start man vol rs) (\<lambda>r s'. tidy s' \<and> own_volume known ok n r) tidy s"
proof -
  have vn: "v_Name vol = n" using v by (simp add: own_volume_def)
  have "keeps (based n) (together (\<lambda>(k, r). start_replica man r) rs)"
    using rs by (intro keeps_together) (auto simp: start_replica_def own_replica_def intro!: keeps_intros replica_based)
  from ends_keeps [OF this s] show ?thesis
    unfolding attach_start_def orc Let_def vn
  proof (rule ends_step, goal_cases)
    case (1 _ s1)
    show ?case
    proof (rule ends_step [OF CreateController_ends [OF 1 n]], goal_cases)
      case (1 c s2)
      have "ends (startMonitoring man (vol\<lparr>v_Controller := Some c\<rparr>)) (\<lambda>_. tidy) tidy s2"
        by (rule startMonitoring_tidy) (use 1 vn in auto)
      then show ?case
        by (rule ends_step) (use 1 v in \<open>auto simp: ends_ret own_volume_def replicas_of_def\<close>)
    qed (rule apart_tidy)
  qed (auto simp: based_def dest: apart_tidy)
qed

lemma attach_replicas_ends:
  assumes s: "based n s" and n: "ok n" and v: "own_volume known ok n vol"
  shows "ends (attach_replicas man vol) (\<lambda>r s'. tidy s' \<and> own_volume known ok n r) tidy s"
proof -
  obtain stops x where scan: "attach_scan (replicas_of vol) [] [] None = (stops, x)" by fastforce
  have rs: "\<forall>(k, r) \<in> set (replicas_of vol). own_replica known ok n r" using v by (simp add: own_volume_def)
  have "set stops \<subseteq> snd ` set (replicas_of vol)" using attach_scan_stops [OF scan] by simp
  then have st: "keeps (based n) (stop_replica man r)" if "r \<in> set stops" for r
    using that rs by (fastforce simp: stop_replica_def own_replica_def intro!: keeps_intros replica_based)
  have tidy: "based n s' \<Longrightarrow> tidy s'" for s' by (simp add: based_def apart_def)
  show ?thesis
  proof (cases x)
    case None
    have "ends (collectE (stop_replica man) stops) (\<lambda>_. based n) (based n) s"
      using st by (intro ends_keeps keeps_collectE s)
    then show ?thesis
      unfolding attach_replicas_def scan None prod.case option.case by (rule ends_step) (use tidy in \<open>auto simp: ends_panic\<close>)
  next
    case (Some p)
    obtain reps recent where p: "p = (reps, recent)" by fastforce
    note g = attach_scan_good [OF scan [unfolded Some p]]
    have rr: "\<forall>(k, r) \<in> set reps. own_replica known ok n r" using g(2) rs by auto
    have "ends (together (stop_replica man) stops) (\<lambda>_. based n) (based n) s"
      using st by (intro ends_keeps keeps_together s)
    then show ?thesis
      unfolding attach_replicas_def scan Some p g(1) prod.case option.case Let_def
    proof (rule ends_step, goal_cases)
      case (1 _ s1)
      then show ?case using attach_start_ends [OF 1 n v rr] tidy by (simp add: ends_fail)
    qed (rule tidy)
  qed
qed

lemma doAttach_ends:
  assumes s: "tidy s" and n: "ok n" and f: "found (ab s) n (Some vol)"
  shows "ends (doAttach man vol) (\<lambda>r s'. tidy s' \<and> own_volume known ok n r) tidy s"
proof -
  note fd = foundD [OF f good_typed [OF tidy_inv [OF s]]]
  have v: "own_volume known ok n vol" by (rule found_own [OF f good_typed [OF tidy_inv [OF s]]])
  show ?thesis
  proof (cases "controller_here man vol")
    case True
    then have "has_controller (ab s) n" using fd(1,4) by (auto simp: has_controller_def controller_here_def split: option.splits)
    then have "ends (startMonitoring man vol) (\<lambda>_. tidy) tidy s" by (intro startMonitoring_tidy [OF s]) (simp add: fd(5))
    then show ?thesis
      unfolding doAttach_def using True v by (auto simp: ends_ret intro: ends_step)
  next
    case False
    let ?det = "if v_Controller vol \<noteq> None
        then tryE (Detach man n) (wrap (''failed to detach before reattaching volume '' @ n)) ret else ret ()"
    have d: "ends (Detach man n) (\<lambda>_. based n) tidy s"
      by (rule ends_mono [OF ends_both [OF Detach_ends [OF s n] Detach_wp [OF tidy_inv [OF s] n]]]) (use fd(4) in \<open>auto simp: based_def\<close>)
    have "based n s" if "v_Controller vol = None"
      using unmonitored [OF s, of n] fd(1,4) that by (simp add: based_def has_controller_def)
    then have "ends ?det (\<lambda>_. based n) tidy s"
      using d by (auto simp: ends_ret [abs_def] ends_tryE)
    then show ?thesis
      unfolding doAttach_def fd(5) if_not_P [OF False] by (rule ends_step) (rule attach_replicas_ends [OF _ n v])
  qed
qed

lemma Attach_tidy:
  assumes "ok n"
  shows "keeps tidy (Attach man n)"
proof (rule keeps_ends)
  fix s assume s: "tidy s"
  show "ends (Attach man n) (\<lambda>_. tidy) tidy s"
    unfolding Attach_def
  proof (rule ends_step [OF Get_ends [OF s assms]], goal_cases)
    case (1 r s1)
    then show ?case
      using doAttach_ends [OF _ assms, of s1] by (cases r) (auto simp: ends_panic ends_ret intro!: ends_step)
  qed
qed

subsection \<open>Creating\<close>

lemma doCreate_ends:
  assumes s: "apart n s" and n: "ok n" "v_Name volume = n" "volume_ints_ok volume"
  shows "ends (doCreate man volume) (\<lambda>r s'. apart n s' \<and> (\<exists>vol. r = Some vol \<and> found (ab s') n (Some vol))) (apart n) s"
proof -
  have a: "apart n s'" if "inv s'" "only n (ab s) (ab s')" "ms_monitors s' = ms_monitors s" for s'
    using apart_upd [OF s that(1,2)] that(3) by (simp add: apart_def tidy_def tended_def)
  have "wp (doCreate man volume) (\<lambda>r s'. inv s' \<and> created volume (ab s) (ab s') r) (\<lambda>_ s'. inv s' \<and> only n (ab s) (ab s')) s"
    using doCreate_wp [OF tidy_inv [OF apart_tidy [OF s]], of volume] n by simp
  from ends_wp_keeps [OF this, of ms_monitors] show ?thesis
  proof (rule ends_mono, goal_cases)
    case 1
    show ?case by (intro keeps_intros)
  next
    case (2 r s')
    then show ?case using a [of s'] n(2) by (auto simp: created_def)
  qed (use a in auto)
qed

lemma or_cleanup_ends:
  assumes "ends m Q tidy s" and "v_Name vol = n" and "ok n" and "\<And>a s'. Q a s' \<Longrightarrow> ends (k a) (\<lambda>_. tidy) tidy s'"
  shows "ends (or_cleanup man vol msg m k) (\<lambda>_. tidy) tidy s"
  unfolding or_cleanup_def
proof (rule ends_attempt_step [OF assms(1)], goal_cases)
  case (2 e s')
  have "keeps tidy (tryE (cleanupFailedCreate man vol) id (\<lambda>_. fail (wrap msg e)))"
    unfolding cleanupFailedCreate_def assms(2) by (intro keeps_intros Delete_tidy [OF assms(3)])
  from ends_keeps [OF this 2] show ?case by (simp add: ends_tryE)
qed (use assms(4) in auto)

lemma getController_tidy:
  assumes "tidy s"
  shows "tidy (snd (iost (vm_getController man v) s))"
  using tidy_same [OF assms] getController [OF tidy_inv [OF assms], of v] by (simp add: iost_eq harmless_def)

lemma createFromBackup_ends:
  assumes s: "apart n s" and n: "ok n" "v_Name volume = n" "volume_ints_ok volume"
  shows "ends (createFromBackup man volume backup) (\<lambda>_. tidy) tidy s"
proof (cases backup)
  case None
  then show ?thesis using apart_tidy [OF s] by (simp add: createFromBackup_def ends_panic)
next
  case (Some b)
  show ?thesis
  proof (cases "ParseInt (bk_VolumeSize b)")
    case (Inl e)
    then show ?thesis using Some apart_tidy [OF s] by (simp add: createFromBackup_def ends_fail)
  next
    case (Inr sz)
    have "ends (doCreate man (volume\<lparr>v_Size := word_of_int sz\<rparr>))
        (\<lambda>r s'. apart n s' \<and> (\<exists>vol. r = Some vol \<and> found (ab s') n (Some vol))) (apart n) s"
      by (rule doCreate_ends [OF s n(1)]) (use n in \<open>simp_all add: volume_ints_ok_def\<close>)
    then show ?thesis
      unfolding createFromBackup_def Some Inr option.case sum.case
    proof (rule ends_step, goal_cases)
      case (1 r s1)
      then obtain vol where vol: "r = Some vol" "found (ab s1) n (Some vol)" and s1: "tidy s1" by (auto dest: apart_tidy)
      have vn: "v_Name vol = n" by (rule foundD(5) [OF vol(2) good_typed [OF tidy_inv [OF s1]]])
      show ?case
        unfolding vol(1) option.case
      proof (rule or_cleanup_ends [OF doAttach_ends [OF s1 n(1) vol(2)] vn n(1)], goal_cases)
        case (1 v2 s2)
        let ?c = "iost (vm_getController man (Some v2)) s2"
        have t2: "tidy (snd ?c)" using getController_tidy 1 by blast
        have v2: "v_Name v2 = n" using 1 by (simp add: own_volume_def)
        show ?case
        proof (cases "fst ?c")
          case None
          then show ?thesis using t2 by (simp add: ends_st ends_panic)
        next
          case (Some ctrl)
          then have "fst (vm_getController man (Some v2) (ms_w s2)) = Some ctrl" by (simp add: iost_eq)
          from ends_keeps [OF leaves_tidy [OF restore [OF this]] t2]
          have "ends (or_cleanup man v2 ''failed to restore the backup'' (io (ct_Restore ctrl (bk_URL b))) (\<lambda>_.
              or_cleanup man v2 ''failed to detach after restoring the backup'' (doDetach man v2) (\<lambda>vol. ret (Some vol)))) (\<lambda>_. tidy) tidy (snd ?c)"
          proof (rule or_cleanup_ends [OF _ v2 n(1)], goal_cases)
            case (1 _ s3)
            have "ends (doDetach man v2) (\<lambda>_. tidy) tidy s3"
              by (rule ends_mono [OF doDetach_ends [OF 1, of n]]) (use \<open>tidy s2 \<and> own_volume known ok n v2\<close> in \<open>auto dest: apart_tidy\<close>)
            then show ?case by (rule or_cleanup_ends [OF _ v2 n(1)]) (simp add: ends_ret)
          qed
          then show ?thesis using Some by (simp add: ends_st)
        qed
      qed
    qed (rule apart_tidy)
  qed
qed

lemma Create_tidy:
  assumes n: "ok (v_Name volume)" and v: "volume_ints_ok volume"
  shows "keeps tidy (Create man volume)"
proof (rule keeps_ends)
  let ?n = "v_Name volume"
  fix s assume s: "tidy s"
  have g: "keeps (apart n) (io (orc_GetSettings orc))" for n
    by (rule keeps_apart_io [OF leaves_tidy [OF leaves_wp [OF get_settings]]])
  show "ends (Create man volume) (\<lambda>_. tidy) tidy s"
    unfolding Create_def orc
  proof (rule ends_step [OF Get_ends [OF s n]], goal_cases)
    case (1 r s1)
    show ?case
    proof (cases r)
      case None
      then have a: "apart ?n s1" using 1 unmonitored [of s1 ?n] by (simp add: has_controller_def)
      show ?thesis
        unfolding None
      proof (simp only: simp_thms if_False, rule ends_attempt_step [OF ends_keeps [OF g a]], goal_cases)
        case (1 si s2)
        show ?case
        proof (cases si)
          case (Some settings)
          let ?vol = "if v_EngineImage volume = [] then volume\<lparr>v_EngineImage := s_EngineImage settings\<rparr> else volume"
          have vol: "v_Name ?vol = ?n" "volume_ints_ok ?vol" using v by (simp_all add: volume_ints_ok_def)
          have "keeps (apart ?n) (io (mb_Get (vm_getBackups man t) u))" for t u by (rule keeps_apart_io [OF leaves_tidy [OF get_backup]])
          from ends_keeps [OF this 1]
          have b: "ends (tryE (io (mb_Get (vm_getBackups man t) u)) h (createFromBackup man ?vol)) (\<lambda>_. tidy) tidy s2" for t u h
            by (rule ends_step) (rule createFromBackup_ends [OF _ n vol], assumption, rule apart_tidy)
          have c: "ends (doCreate man ?vol) (\<lambda>_. tidy) tidy s2"
            by (rule ends_mono [OF doCreate_ends [OF 1 n vol]]) (auto dest: apart_tidy)
          show ?thesis
            unfolding Some sum.case option.case Let_def
            using b c apart_tidy [OF 1] by (simp only: ends_fail split: if_split) simp
        qed (use 1 in \<open>auto simp: ends_fail dest: apart_tidy\<close>)
      qed (auto simp: ends_fail dest: apart_tidy)
    qed (use 1 in \<open>simp add: ends_fail\<close>)
  qed
qed

subsection \<open>What creating a volume leaves of the others\<close>

text \<open>The base documents of \<open>a\<close>, and every entry that is not of volume \<open>n\<close>.\<close>

definition framed :: "string \<Rightarrow> kv_abs \<Rightarrow> ('w, 'm) man \<Rightarrow> bool" where
  "framed n a s \<longleftrightarrow> inv s \<and> only n a (ab s) \<and> a_base (ab s) = a_base a"

lemma framed_start: "inv s \<Longrightarrow> framed n (ab s) s"
  by (simp add: framed_def frame_intros)

lemma framed_within: "framed n a s \<Longrightarrow> within n s s' \<Longrightarrow> framed n a s'"
  unfolding framed_def using only_trans by metis

lemma framed_still: "framed n a s \<Longrightarrow> still s s' \<Longrightarrow> framed n a s'"
  by (simp add: framed_def harmless_def)

lemma leaves_framed: "leaves good absv m \<Longrightarrow> keeps (framed n a) (io m)"
  unfolding leaves_def keeps_def framed_def harmless_def by (simp add: io_eq)

lemma instance_framed:
  assumes "m = orc_StartInstance orc i \<or> m = orc_StopInstance orc i \<or> m = orc_RemoveInstance orc i"
    and "inst_ok known ok i" and "i_VolumeName i = n"
  shows "keeps (framed n a) (io m)"
proof (rule keepsI)
  fix s assume s: "framed n a s"
  then have "good (snd (m (ms_w s)))" "touched (i_Type i) n (ab s) (absv (snd (m (ms_w s))))"
    using instance_ops [OF assms(1,2), of "ms_w s"] assms(3) by (auto simp: framed_def)
  then show "framed n a (snd (io m s))"
    by (intro framed_within [OF s]) (use touched_only touched_base in \<open>auto simp: io_eq\<close>)
qed

lemma stop_framed: "own_replica known ok n r \<Longrightarrow> keeps (framed n a) (stop_replica man r)"
  by (auto simp: stop_replica_def own_replica_def intro!: keeps_intros instance_framed)

lemma monitoring_framed:
  "keeps (framed n a) (startMonitoring man vol)" "keeps (framed n a) (stopMonitoring man vol)"
proof -
  have "wp (startMonitoring man vol) (\<lambda>_. framed n a) (\<lambda>_. framed n a) s" "wp (stopMonitoring man vol) (\<lambda>_. framed n a) (\<lambda>_. framed n a) s"
    if s: "framed n a s" for s
  proof -
    have i: "inv s" using s by (simp add: framed_def)
    show "wp (startMonitoring man vol) (\<lambda>_. framed n a) (\<lambda>_. framed n a) s" "wp (stopMonitoring man vol) (\<lambda>_. framed n a) (\<lambda>_. framed n a) s"
      by (rule wp_mono [OF startMonitoring_wp [OF i]] wp_mono [OF stopMonitoring_wp [OF i]]; use framed_still [OF s] in blast)+
  qed
  then show "keeps (framed n a) (startMonitoring man vol)" "keeps (framed n a) (stopMonitoring man vol)"
    by (auto intro!: keepsI intro: wp_snd)
qed

lemma doDetach_framed:
  assumes "own_volume known ok n vol"
  shows "keeps (framed n a) (doDetach man vol)"
proof -
  have "keeps (framed n a) (together (\<lambda>(k, r). stop_replica man r) (replicas_of vol))"
    using assms by (intro keeps_together) (auto simp: own_volume_def intro: stop_framed)
  then show ?thesis
    unfolding doDetach_def orc
    by (intro keeps_tryE monitoring_framed; cases "v_Controller vol")
      (use assms in \<open>auto simp: own_volume_def intro!: keeps_intros instance_framed\<close>)
qed

lemma attach_start_framed:
  assumes s: "framed n a s" "a_base a n \<noteq> None" and n: "ok n" and v: "own_volume known ok n vol" and rs: "\<forall>(k, r) \<in> set rs. own_replica known ok n r"
  shows "ends (attach_start man vol rs) (\<lambda>r s'. framed n a s' \<and> own_volume known ok n r) (framed n a) s"
proof -
  have vn: "v_Name vol = n" using v by (simp add: own_volume_def)
  have "keeps (framed n a) (together (\<lambda>(k, r). start_replica man r) rs)"
    using rs by (intro keeps_together) (auto simp: start_replica_def own_replica_def intro!: keeps_intros instance_framed)
  from ends_keeps [OF this s(1)] show ?thesis
    unfolding attach_start_def orc Let_def vn
  proof (rule ends_step, goal_cases)
    case (1 _ s1)
    then have s1: "good (ms_w s1)" "a_base (ab s1) n \<noteq> None" using s(2) by (auto simp: framed_def)
    have "ends (io (orc_CreateController orc n (GetControllerName n) rs))
        (\<lambda>c s'. framed n a s' \<and> inst_ok known ok (c_InstanceInfo c) \<and> i_VolumeName (c_InstanceInfo c) = n) (framed n a) s1"
      unfolding ends_io
    proof (rule ends_wp, rule wp_mono [OF create_controller [OF s1(1) n s1(2)]], goal_cases)
      case (1 c w')
      then have "within n s1 (s1\<lparr>ms_w := w'\<rparr>)" by (simp add: only_def)
      moreover have "inst_ok known ok (c_InstanceInfo c) \<and> i_VolumeName (c_InstanceInfo c) = n"
        using typedD(2) [OF good_typed, of w' n c] 1 by simp
      ultimately show ?case using framed_within [OF \<open>framed n a s1\<close>] by blast
    qed (use framed_within [OF \<open>framed n a s1\<close>] touched_only touched_base in auto)
    then show ?case
    proof (rule ends_step, goal_cases)
      case (1 c s2)
      have "ends (startMonitoring man (vol\<lparr>v_Controller := Some c\<rparr>)) (\<lambda>_. framed n a) (framed n a) s2"
        by (rule ends_keeps [OF monitoring_framed(1)]) (use 1 in blast)
      then show ?case
        by (rule ends_step) (use 1 v in \<open>auto simp: ends_ret own_volume_def replicas_of_def\<close>)
    qed auto
  qed auto
qed

lemma attach_replicas_framed:
  assumes s: "framed n a s" "a_base a n \<noteq> None" and n: "ok n" and v: "own_volume known ok n vol"
  shows "ends (attach_replicas man vol) (\<lambda>r s'. framed n a s' \<and> own_volume known ok n r) (framed n a) s"
proof -
  obtain stops x where scan: "attach_scan (replicas_of vol) [] [] None = (stops, x)" by fastforce
  have rs: "\<forall>(k, r) \<in> set (replicas_of vol). own_replica known ok n r" using v by (simp add: own_volume_def)
  have "set stops \<subseteq> snd ` set (replicas_of vol)" using attach_scan_stops [OF scan] by simp
  then have st: "keeps (framed n a) (stop_replica man r)" if "r \<in> set stops" for r
    using that rs by (fastforce intro!: stop_framed)
  show ?thesis
  proof (cases x)
    case None
    have "ends (collectE (stop_replica man) stops) (\<lambda>_. framed n a) (framed n a) s"
      using st by (intro ends_keeps keeps_collectE s(1))
    then show ?thesis
      unfolding attach_replicas_def scan None prod.case option.case by (rule ends_step) (auto simp: ends_panic)
  next
    case (Some p)
    obtain reps recent where p: "p = (reps, recent)" by fastforce
    note g = attach_scan_good [OF scan [unfolded Some p]]
    have rr: "\<forall>(k, r) \<in> set reps. own_replica known ok n r" using g(2) rs by auto
    have "ends (together (stop_replica man) stops) (\<lambda>_. framed n a) (framed n a) s"
      using st by (intro ends_keeps keeps_together s(1))
    then show ?thesis
      unfolding attach_replicas_def scan Some p g(1) prod.case option.case Let_def
    proof (rule ends_step, goal_cases)
      case (1 _ s1)
      then show ?case using attach_start_framed [OF 1 s(2) n v rr] by (simp add: ends_fail)
    qed
  qed
qed

lemma doAttach_framed:
  assumes s: "inv s" and n: "ok n" and f: "found (ab s) n (Some vol)"
  shows "ends (doAttach man vol) (\<lambda>r s'. framed n (ab s) s' \<and> own_volume known ok n r) (framed n (ab s)) s"
proof -
  note fd = foundD [OF f good_typed [OF s]]
  have v: "own_volume known ok n vol" by (rule found_own [OF f good_typed [OF s]])
  have at: "ends (attach_replicas man vol) (\<lambda>r s'. framed n (ab s) s' \<and> own_volume known ok n r) (framed n (ab s)) s1" if "framed n (ab s) s1" for s1
    by (rule attach_replicas_framed [OF that fd(4) n v])
  have here: "ends (tryE (startMonitoring man vol) id (\<lambda>_. ret vol)) (\<lambda>r s'. framed n (ab s) s' \<and> own_volume known ok n r) (framed n (ab s)) s"
    by (rule ends_step [OF ends_keeps [OF monitoring_framed(1) framed_start [OF s]]]) (use v in \<open>simp_all add: ends_ret\<close>)
  have "ends (if v_Controller vol \<noteq> None
        then tryE (Detach man n) (wrap (''failed to detach before reattaching volume '' @ n)) ret else ret ())
      (\<lambda>_. framed n (ab s)) (framed n (ab s)) s"
    using ends_wp [OF wp_mono [OF Detach_wp [OF s n], of "\<lambda>_. framed n (ab s)" "\<lambda>_. framed n (ab s)"]] framed_start [OF s]
    by (auto simp: ends_ret [abs_def] ends_tryE framed_def)
  from ends_step [OF this at] show ?thesis
    using here unfolding doAttach_def fd(5) by (cases "controller_here man vol") (simp_all only: if_True if_False)
qed

text \<open>However it ends, creating a volume changes no other volume; when it returns, the volume is there.\<close>

abbreviation mine :: "string \<Rightarrow> kv_abs \<Rightarrow> ('w, 'm) man \<Rightarrow> bool" where
  "mine n a s \<equiv> inv s \<and> only n a (ab s)"

lemma or_cleanup_mine:
  assumes "ends m Q (mine n a) s" and "v_Name vol = n" and "ok n" and "\<And>x s'. Q x s' \<Longrightarrow> ends (k x) R (mine n a) s'"
  shows "ends (or_cleanup man vol msg m k) R (mine n a) s"
  unfolding or_cleanup_def
proof (rule ends_attempt_step [OF assms(1)], goal_cases)
  case (2 e s')
  have "wp (Manager_Delete man n) (\<lambda>_. mine n a) (\<lambda>_. mine n a) s'"
    by (rule wp_mono [OF Delete_wp [OF conjunct1 [OF 2] assms(3)]]) (use 2 only_trans in blast)+
  then have "ends (cleanupFailedCreate man vol) (\<lambda>_. mine n a) (mine n a) s'"
    unfolding cleanupFailedCreate_def assms(2) by (intro ends_attempt_step [OF ends_wp]) (auto simp: ends_simps split: sum.split)
  then have "ends (tryE (cleanupFailedCreate man vol) id (\<lambda>_. fail (wrap msg e))) R (mine n a) s'"
    by (rule ends_step) (simp_all add: ends_fail)
  then show ?case by simp
qed (use assms(4) in auto)

lemma framed_mine: "framed n a' s \<Longrightarrow> only n a a' \<Longrightarrow> mine n a s"
  unfolding framed_def using only_trans by metis

lemma createFromBackup_mine:
  assumes s: "mine n a s" and n: "ok n" "v_Name volume = n" "volume_ints_ok volume"
  shows "ends (createFromBackup man volume backup) (\<lambda>_ s'. mine n a s' \<and> a_base (ab s') n \<noteq> None) (mine n a) s"
proof (cases "\<exists>b sz. backup = Some b \<and> ParseInt (bk_VolumeSize b) = Inr sz")
  case False
  then show ?thesis using s by (auto simp: createFromBackup_def ends_simps split: option.splits sum.splits)
next
  case True
  then obtain b sz where b: "backup = Some b" "ParseInt (bk_VolumeSize b) = Inr sz" by blast
  let ?v = "volume\<lparr>v_Size := word_of_int sz\<rparr>"
  have "wp (doCreate man ?v) (\<lambda>r s'. mine n a s' \<and> (\<exists>vol. r = Some vol \<and> found (ab s') n (Some vol))) (\<lambda>_. mine n a) s"
    by (rule wp_mono [OF doCreate_wp [OF conjunct1 [OF s], of ?v]])
      (use n s only_trans in \<open>auto simp: volume_ints_ok_def created_def\<close>)
  then show ?thesis
    unfolding createFromBackup_def b option.case sum.case
  proof (rule ends_step [OF ends_wp], goal_cases)
    case (1 r s1)
    then obtain vol where vol: "r = Some vol" "found (ab s1) n (Some vol)" and s1: "inv s1" "only n a (ab s1)" by blast
    note fd = foundD [OF vol(2) good_typed [OF s1(1)]]
    let ?F = "framed n (ab s1)"
    have m: "?F s' \<Longrightarrow> mine n a s'" for s' using framed_mine [OF _ s1(2)] .
    have mb: "?F s' \<Longrightarrow> mine n a s' \<and> a_base (ab s') n \<noteq> None" for s' using m fd(4) by (auto simp: framed_def)
    have "ends (doAttach man vol) (\<lambda>r s'. ?F s' \<and> own_volume known ok n r) (mine n a) s1"
      by (rule ends_mono [OF doAttach_framed [OF s1(1) n(1) vol(2)]]) (use m in blast)+
    then show ?case
      unfolding vol(1) option.case
    proof (rule or_cleanup_mine [OF _ fd(5) n(1)], goal_cases)
      case (1 v2 s2)
      let ?c = "vm_getController man (Some v2) (ms_w s2)"
      have t2: "?F (snd (iost (vm_getController man (Some v2)) s2))"
        by (rule framed_still) (use 1 getController [of "ms_w s2" "Some v2"] in \<open>auto simp: iost_eq framed_def\<close>)
      have v2: "v_Name v2 = n" "own_volume known ok n v2" using 1 by (simp_all add: own_volume_def)
      show ?case
      proof (cases "fst ?c")
        case None
        then show ?thesis using m [OF t2] by (simp add: ends_st iost_eq ends_panic)
      next
        case (Some ctrl)
        have r: "ends (io (ct_Restore ctrl (bk_URL b))) (\<lambda>_. ?F) (mine n a) (snd (iost (vm_getController man (Some v2)) s2))"
          by (rule ends_mono [OF ends_keeps [OF leaves_framed [OF restore [OF Some]] t2]]) (use m in blast)+
        have d: "ends (doDetach man v2) (\<lambda>_. ?F) (mine n a) s3" if "?F s3" for s3
          by (rule ends_mono [OF ends_keeps [OF doDetach_framed [OF v2(2)] that]]) (use m in blast)+
        have "ends (or_cleanup man v2 ''failed to restore the backup'' (io (ct_Restore ctrl (bk_URL b))) (\<lambda>_.
            or_cleanup man v2 ''failed to detach after restoring the backup'' (doDetach man v2) (\<lambda>vol. ret (Some vol))))
            (\<lambda>_ s'. mine n a s' \<and> a_base (ab s') n \<noteq> None) (mine n a) (snd (iost (vm_getController man (Some v2)) s2))"
          by (rule or_cleanup_mine [OF r v2(1) n(1)], rule or_cleanup_mine [OF d v2(1) n(1)]) (use mb in \<open>simp_all add: ends_ret\<close>)
        then show ?thesis using Some by (simp add: ends_st iost_eq)
      qed
    qed
  qed blast
qed

lemma Create_mine:
  assumes s: "inv s" and n: "ok (v_Name volume)" and v: "volume_ints_ok volume"
  shows "ends (Create man volume) (\<lambda>_ s'. mine (v_Name volume) (ab s) s' \<and> a_base (ab s) (v_Name volume) = None \<and> a_base (ab s') (v_Name volume) \<noteq> None)
    (mine (v_Name volume) (ab s)) s"
proof -
  let ?n = "v_Name volume" and ?a = "ab s"
  have "ends (Manager_Get man ?n) (\<lambda>r s'. still s s' \<and> found (ab s) ?n r) (mine ?n ?a) s"
    by (rule ends_wp, rule wp_mono [OF Manager_Get_wp [OF s n]]) (auto simp: harmless_def frame_intros)
  then show ?thesis
    unfolding Create_def orc
  proof (rule ends_step, goal_cases)
    case (1 r s1)
    show ?case
    proof (cases r)
      case None
      then have s1: "inv s1" "ab s1 = ?a" "a_base ?a ?n = None" using 1 by (auto simp: harmless_def)
      have m1: "mine ?n ?a s1" using s1 by (simp add: frame_intros)
      have g: "ends (io (orc_GetSettings orc)) (\<lambda>_. mine ?n ?a) (mine ?n ?a) s1"
        unfolding ends_io by (rule ends_wp, rule wp_mono [OF get_settings [OF s1(1)]]) (use s1(2) in \<open>auto simp: frame_intros\<close>)
      show ?thesis
        unfolding None
      proof (simp only: simp_thms if_False, rule ends_attempt_step [OF g], goal_cases)
        case (1 si s2)
        show ?case
        proof (cases si)
          case (Some settings)
          let ?vol = "if v_EngineImage volume = [] then volume\<lparr>v_EngineImage := s_EngineImage settings\<rparr> else volume"
          have vol: "v_Name ?vol = ?n" "volume_ints_ok ?vol" using v by (simp_all add: volume_ints_ok_def)
          have "ends (io (mb_Get (vm_getBackups man t) u)) (\<lambda>_. mine ?n ?a) (mine ?n ?a) s2" for t u
            using get_backup [of t u] 1 by (auto simp: ends_def io_eq leaves_def harmless_def split: res.split)
          then have b: "ends (tryE (io (mb_Get (vm_getBackups man t) u)) h (createFromBackup man ?vol))
              (\<lambda>_ s'. mine ?n ?a s' \<and> a_base ?a ?n = None \<and> a_base (ab s') ?n \<noteq> None) (mine ?n ?a) s2" for t u h
            by (rule ends_step) (rule ends_mono [OF createFromBackup_mine [OF _ n vol]], use s1(3) in auto)
          have c: "ends (doCreate man ?vol) (\<lambda>_ s'. mine ?n ?a s' \<and> a_base ?a ?n = None \<and> a_base (ab s') ?n \<noteq> None) (mine ?n ?a) s2"
            by (rule ends_wp, rule wp_mono [OF doCreate_wp [OF conjunct1 [OF 1], of ?vol]])
              (use n vol 1 s1(3) only_trans in \<open>auto simp: created_def\<close>)
          show ?thesis
            unfolding Some sum.case option.case Let_def
            using b c 1 by (simp only: ends_fail split: if_split) simp
        qed (use 1 in \<open>auto simp: ends_fail\<close>)
      qed (auto simp: ends_fail)
    qed (use 1 in \<open>auto simp: ends_fail harmless_def frame_intros\<close>)
  qed
qed

subsection \<open>The other requests\<close>

lemma matches_ints:
  assumes "vol_matches a n (Some vol)" and "typed known ok a"
  shows "v_Name vol = n" and "volume_ints_ok vol"
proof -
  obtain x where x: "a_base a n = Some x" "vol\<lparr>v_Controller := None, v_Replicas := None\<rparr> = x"
    using assms(1) by (auto simp: vol_matches_def split: option.splits)
  show "v_Name vol = n" and "volume_ints_ok vol" using typedD(1) [OF assms(2) x(1)] x(2) by (auto simp: volume_ints_ok_def)
qed

lemma UpdateVolume_tidy:
  assumes "ok (v_Name vol)" and "volume_ints_ok vol"
  shows "keeps tidy (io (orc_UpdateVolume orc vol))"
proof (rule keepsI)
  fix s assume s: "tidy s"
  have "has_controller (rebased vol a) n" if "has_controller a n" for a n using that by (simp add: has_controller_def)
  then show "tidy (snd (io (orc_UpdateVolume orc vol) s))"
    using update_volume [OF tidy_inv [OF s] assms] tidy_upd [OF s] by (auto simp: io_eq wp_def split: prod.splits res.splits)
qed

lemma UpdateRecurring_tidy:
  assumes n: "ok n" and j: "\<forall>j \<in> set jobs. int_ok (j_Retain j)"
  shows "keeps tidy (UpdateRecurring man n jobs)"
proof (rule keeps_ends)
  fix s assume s: "tidy s"
  have "ends (io (orc_GetVolume orc n)) (\<lambda>r s'. tidy s' \<and> vol_matches (ab s') n r) tidy s"
    unfolding ends_io by (rule ends_wp, rule wp_mono [OF get_volume [OF tidy_inv [OF s] n]]) (auto intro: tidy_same [OF s])
  then show "ends (UpdateRecurring man n jobs) (\<lambda>_. tidy) tidy s"
    unfolding UpdateRecurring_def orc
  proof (rule ends_step, goal_cases)
    case (1 r s1)
    show ?case
    proof (cases r)
      case (Some vol)
      let ?vol = "vol\<lparr>v_RecurringJobs := Some jobs\<rparr>"
      note m = matches_ints [OF _ good_typed [OF tidy_inv [OF conjunct1 [OF 1]]], of n vol]
      have v: "ok (v_Name ?vol)" "volume_ints_ok ?vol" using m 1 Some n j by (auto simp: volume_ints_ok_def)
      have "keeps tidy (updateCron man ?vol jobs)"
        using leaves_tidy [OF send] by (fastforce simp: keeps_def updateCron_def split: option.split)
      then show ?thesis
        unfolding Some option.case Let_def
        using 1 by (intro ends_keeps keeps_intros UpdateVolume_tidy [OF v]) auto
    qed (use 1 in \<open>simp add: ends_panic\<close>)
  qed
qed

lemma own_replica_tidy:
  assumes "own_replica known ok n r"
  shows "keeps tidy (io (orc_StopInstance orc (r_InstanceInfo r)))" and "keeps tidy (io (orc_RemoveInstance orc (r_InstanceInfo r)))"
    and "keeps tidy (io (orc_StartInstance orc (r_InstanceInfo r)))"
  using replica_tidy [of _ "r_InstanceInfo r"] assms by (auto simp: own_replica_def)

lemma ReplicaRemove_tidy:
  assumes "ok n"
  shows "keeps tidy (ReplicaRemove man n replica)"
proof (rule keeps_ends)
  fix s assume s: "tidy s"
  show "ends (ReplicaRemove man n replica) (\<lambda>_. tidy) tidy s"
    unfolding ReplicaRemove_def orc
  proof (rule ends_step [OF Get_ends [OF s assms]], goal_cases)
    case (1 v s1)
    show ?case
    proof (cases v)
      case (Some vol)
      show ?thesis
      proof (cases "map_of (replicas_of vol) replica")
        case r: (Some r)
        have "own_volume known ok n vol" using 1 Some found_own good_typed [OF tidy_inv] by blast
        then have "own_replica known ok n r" using map_of_SomeD [OF r] by (auto simp: own_volume_def)
        note own_replica_tidy [OF this]
        then show ?thesis
          unfolding Some r option.case using 1 by (intro ends_keeps keeps_intros) auto
      qed (use 1 Some in \<open>simp add: ends_fail\<close>)
    qed (use 1 in \<open>simp add: ends_panic\<close>)
  qed
qed

lemma Cleanup_tidy:
  assumes "ok (v_Name v)"
  shows "keeps tidy (Cleanup man v)"
proof (rule keeps_ends)
  fix s assume s: "tidy s"
  show "ends (Cleanup man v) (\<lambda>_. tidy) tidy s"
    unfolding Cleanup_def
  proof (rule ends_step [OF Get_ends [OF s assms]], goal_cases)
    case (1 r s1)
    show ?case
    proof (cases r)
      case (Some vol)
      have o: "own_volume known ok (v_Name v) vol" using 1 Some found_own good_typed [OF tidy_inv] by blast
      have "keeps tidy m" if "(k, r) \<in> set (replicas_of vol)" "m \<in> set (cleanup_bad man now r)" for k r m now
      proof -
        have "own_replica known ok (v_Name v) r" using o that(1) by (auto simp: own_volume_def)
        from own_replica_tidy [OF this] show ?thesis
          using that(2) by (auto simp: cleanup_bad_def split: if_splits sum.splits intro!: keeps_intros)
      qed
      then have "keeps tidy (together (\<lambda>m. m) (concat (map (\<lambda>(k, r). cleanup_bad man now r) (replicas_of vol))))" for now
        by (intro keeps_together) auto
      moreover have "tidy (snd (iost (env_Now (vm_env man)) s1))"
        using tidy_same [OF conjunct1 [OF 1]] now [OF tidy_inv [OF conjunct1 [OF 1]]] by (simp add: iost_eq harmless_def)
      ultimately show ?thesis
        unfolding Some option.case ends_st by (rule ends_keeps)
    qed (use 1 in \<open>simp add: ends_ret\<close>)
  qed
qed

lemma serve_tidy:
  assumes "request_ok ok q"
  shows "keeps tidy (serve man q)"
  using assms by (cases q) (auto intro!: keeps_tryE keeps_ret Create_tidy Delete_tidy Attach_tidy Detach_tidy UpdateRecurring_tidy ReplicaRemove_tidy Cleanup_tidy)

subsection \<open>Starting\<close>

text \<open>The volumes the orchestrator lists, completed.\<close>

lemma complete_all_wp:
  assumes "inv s" and "\<forall>v \<in> set vs. vol_matches (ab s) (v_Name v) (Some v)"
  shows "wp (complete_all man vs) (\<lambda>r s'. still s s' \<and> (\<forall>v \<in> set r. found (ab s) (v_Name v) (Some v))) (\<lambda>_ s'. still s s') s"
  using assms
proof (induction vs arbitrary: s)
  case (Cons v vs)
  show ?case
    unfolding complete_all.simps
  proof (rule wp_step [OF completeVolumeState_wp [OF Cons.prems(1), of v]], goal_cases)
    case (1 v' s1)
    then have s1: "inv s1" "ab s1 = ab s" and v': "found (ab s) (v_Name v') (Some v')"
      using Cons.prems(2) found_matches by (auto simp: harmless_def)
    show ?case
      by (rule wp_step [OF Cons.IH [OF s1(1)]]) (use s1 v' Cons.prems(2) in \<open>auto simp: wp_ret harmless_def\<close>)
  qed (auto simp: harmless_def)
qed (simp add: wp_ret harmless_def)

lemma startMonitoring_fixed:
  assumes "has_controller a (v_Name vol)"
  shows "keeps (\<lambda>s. tidy s \<and> ab s = a) (startMonitoring man vol)"
proof (rule keepsI)
  fix s assume s: "tidy s \<and> ab s = a"
  have "harmless good absv (ms_w s) (snd (mo_Begin (vm_monitor man) vol (ms_w s)))" using monitor_begin tidy_inv s by blast
  then show "tidy (snd (startMonitoring man vol s)) \<and> ab (snd (startMonitoring man vol s)) = a"
    using s assms by (auto simp: startMonitoring_def tidy_def tended_def harmless_def split: prod.split if_splits)
qed

lemma Start_tidy: "keeps tidy (Manager_Start man)"
proof (rule keeps_ends)
  fix s assume s: "tidy s"
  have "ends (io (orc_ListVolumes orc)) (\<lambda>r s'. tidy s' \<and> list_matches (ab s') r) tidy s"
    unfolding ends_io by (rule ends_wp, rule wp_mono [OF list_volumes [OF tidy_inv [OF s]]]) (use tidy_same [OF s] in auto)
  then have l: "ends (Manager_List man) (\<lambda>r s'. tidy s' \<and> (\<forall>v \<in> set r. found (ab s') (v_Name v) (Some v))) tidy s"
    unfolding Manager_List_def orc
  proof (rule ends_step, goal_cases)
    case (1 vs s1)
    then have s1: "tidy s1" "\<forall>v \<in> set vs. vol_matches (ab s1) (v_Name v) (Some v)" by (auto simp: list_matches_def)
    show ?case
      using ends_wp_keeps [OF complete_all_wp [OF tidy_inv [OF s1(1)] s1(2)] mon_keeps_complete_all]
      by (rule ends_mono) (use tidy_still [OF s1(1)] in \<open>auto simp: harmless_def\<close>)
  qed
  show "ends (Manager_Start man) (\<lambda>_. tidy) tidy s"
    unfolding Manager_Start_def
  proof (rule ends_step [OF l], goal_cases)
    case (1 vs s1)
    let ?I = "\<lambda>s'. tidy s' \<and> ab s' = ab s1"
    have "keeps ?I (if controller_here man v then startMonitoring man v else ret ())" if v: "v \<in> set vs" for v
    proof (intro keeps_if keeps_ret)
      assume h: "controller_here man v"
      have "found (ab s1) (v_Name v) (Some v)" using 1 v by blast
      from foundD(1,4) [OF this good_typed [OF tidy_inv [OF conjunct1 [OF 1]]]] h have "has_controller (ab s1) (v_Name v)"
        by (auto simp: has_controller_def controller_here_def split: option.splits)
      then show "keeps ?I (startMonitoring man v)" by (rule startMonitoring_fixed)
    qed
    then have "keeps ?I (forE (\<lambda>v. if controller_here man v then startMonitoring man v else ret ()) vs)" by (rule keeps_forE)
    from ends_keeps [OF this] show ?case by (rule ends_mono) (use 1 in auto)
  qed
qed

subsection \<open>Checks and the goroutines they start\<close>

definition all_tidy :: "('w, 'm) man \<Rightarrow> bool" where "all_tidy s \<longleftrightarrow> tidy s \<and> (\<forall>j \<in> set (ms_bg s). job_ok known ok man j)"

lemma all_tidy_io: "keeps tidy (io m) \<Longrightarrow> keeps all_tidy (io m)"
  by (simp add: keeps_def all_tidy_def io_eq)

lemma all_tidy_keeps: "keeps tidy m \<Longrightarrow> (\<And>x. keeps (\<lambda>s. bg_part s = x) m) \<Longrightarrow> keeps all_tidy m"
proof (rule keepsI)
  fix s assume *: "keeps tidy m" "\<And>x. keeps (\<lambda>s. bg_part s = x) m" "all_tidy s"
  have "bg_part (snd (m s)) = bg_part s" using bg_same [OF *(2), of s "fst (m s)"] by simp
  moreover have "tidy (snd (m s))" using *(1,3) by (simp add: keeps_def all_tidy_def)
  ultimately show "all_tidy (snd (m s))" using *(3) by (simp add: all_tidy_def bg_part_def)
qed

lemma CreateReplica_ends:
  assumes s: "tidy s" and n: "ok n" "ok name"
  shows "ends (io (orc_CreateReplica orc n name)) (\<lambda>r s'. tidy s' \<and> (\<forall>rep. r = Some rep \<longrightarrow> own_replica known ok n rep)) tidy s"
proof -
  have up: "tidy (s\<lparr>ms_w := w'\<rparr>)" if "good w'" "grown n (ab s) (absv w')" for w'
    using tidy_upd [OF s that(1)] touched_replica_has [OF grown_touched [OF that(2)]] by simp
  show ?thesis
  proof (cases "a_base (ab s) n")
    case None
    then show ?thesis
      unfolding ends_io
      by (intro ends_wp wp_mono [OF create_replica_missing [OF tidy_inv [OF s] n]]) (auto intro: tidy_same [OF s])
  next
    case (Some x)
    then have "a_base (ab s) n \<noteq> None" by simp
    from create_replica [OF tidy_inv [OF s] n this] show ?thesis
      unfolding ends_io
      by (intro ends_wp, elim wp_mono) (auto simp: own_replica_def intro!: up dest: grown_trans)
  qed
qed

lemma StartInstance_ends:
  assumes s: "tidy s" and r: "own_replica known ok n r"
  shows "ends (io (orc_StartInstance orc (r_InstanceInfo r))) (\<lambda>i s'. tidy s' \<and> own_replica known ok n (r\<lparr>r_InstanceInfo := i\<rparr>)) tidy s"
proof -
  have up: "tidy (s\<lparr>ms_w := w'\<rparr>)" if "good w'" "touched InstanceTypeReplica n (ab s) (absv w')" for w'
    using tidy_upd [OF s that(1)] touched_replica_has [OF that(2)] by simp
  have i: "inst_ok known ok (r_InstanceInfo r)" "i_Type (r_InstanceInfo r) = InstanceTypeReplica" "i_VolumeName (r_InstanceInfo r) = n"
    using r by (auto simp: own_replica_def)
  show ?thesis
    unfolding ends_io
    by (rule ends_wp, rule wp_mono [OF start [OF tidy_inv [OF s] i(1)]]) (use i up in \<open>auto simp: own_replica_def\<close>)
qed

lemma all_tidy_ends_io: "all_tidy s \<Longrightarrow> ends (io m) (\<lambda>r s'. tidy s' \<and> Q r) tidy s \<Longrightarrow> ends (io m) (\<lambda>r s'. all_tidy s' \<and> Q r) all_tidy s"
  unfolding ends_io by (erule ends_mono) (auto simp: all_tidy_def)

lemma createAndAdd_all_tidy:
  assumes n: "ok n" and ctrl: "fst (vm_getController man v w) = Some ctrl"
  shows "keeps all_tidy (createAndAddReplicaToController man n ctrl)"
proof (rule keeps_ends)
  fix s assume s: "all_tidy s"
  have ts: "all_tidy s' \<Longrightarrow> tidy s'" for s' by (simp add: all_tidy_def)
  have "ends (io (GetReplicaName man n)) (\<lambda>r s'. tidy s' \<and> ok r) tidy s"
    by (rule ends_mono [OF ends_wp [OF wp_mono [OF GetReplicaName_wp [OF tidy_inv [OF ts [OF s]] n]]]])
      (use tidy_still [OF ts [OF s]] in auto)
  from all_tidy_ends_io [OF s this] show "ends (createAndAddReplicaToController man n ctrl) (\<lambda>_. all_tidy) all_tidy s"
    unfolding createAndAddReplicaToController_def orc
  proof (rule ends_step, goal_cases)
    case (1 name s1)
    then have s1: "all_tidy s1" "ok name" by auto
    show ?case
    proof (rule ends_step [OF all_tidy_ends_io [OF s1(1) CreateReplica_ends [OF ts [OF s1(1)] n s1(2)]]], goal_cases)
      case (1 r s2)
      show ?case
      proof (cases r)
        case (Some rep)
        then have rep: "own_replica known ok n rep" using 1 by blast
        show ?thesis
          unfolding Some option.case
          by (rule ends_step [OF all_tidy_ends_io [OF conjunct1 [OF 1] StartInstance_ends [OF ts [OF conjunct1 [OF 1]] rep]]])
            (use ctrl in \<open>auto simp: ends_def all_tidy_def tidy_def tended_def job_ok_def\<close>)
      qed (use 1 in \<open>simp add: ends_panic\<close>)
    qed
  qed
qed

lemma count_all_tidy: "all_tidy s \<Longrightarrow> all_tidy (snd (addingReplicasCount n i s))"
  by (simp add: addingReplicasCount_def all_tidy_def tidy_def tended_def Let_def)

lemma count_keeps: "(\<And>c. keeps all_tidy (k c)) \<Longrightarrow> keeps all_tidy (st (addingReplicasCount n 0) k)"
  using count_all_tidy by (auto simp: keeps_def st_def split: prod.split) (metis snd_conv)

lemma CheckController_all_tidy:
  assumes n: "ok (v_Name volume)" and ctrl: "fst (vm_getController man v w) = Some ctrl"
  shows "keeps all_tidy (CheckController man ctrl volume)"
proof -
  have bad: "keeps all_tidy m" if "m \<in> set (remove_bad man ctrl volume r)" for m r
  proof -
    have "keeps tidy (io (orc_MarkBadReplica orc (v_Name volume) r))"
      by (rule leaves_tidy) (use mark_bad [OF _ n] in \<open>simp add: leaves_def harmless_def\<close>)
    then show ?thesis
      using that leaves_tidy [OF remove_replica [OF ctrl]] by (auto simp: remove_bad_def intro!: keeps_tryE keeps_ret all_tidy_io)
  qed
  have "keeps all_tidy (Detach man (v_Name volume))" by (rule all_tidy_keeps [OF Detach_tidy [OF n] bg_keeps_Detach])
  moreover have "keeps all_tidy (createAndAddReplicaToController man (v_Name volume) ctrl)" by (rule createAndAdd_all_tidy [OF n ctrl])
  ultimately show ?thesis
    unfolding CheckController_def Let_def
    using bad leaves_tidy [OF states [OF ctrl]]
    by (intro keeps_tryE keeps_if keeps_together count_keeps all_tidy_io keeps_ret) auto
qed

lemma bg_begin_all_tidy: "all_tidy s \<Longrightarrow> all_tidy (bg_begin n s)"
proof -
  assume s: "all_tidy s"
  show ?thesis
  proof (cases "n < length (ms_bg s) \<and> \<not> aj_begun (ms_bg s ! n)")
    case True
    then have "job_ok known ok man ((ms_bg s ! n)\<lparr>aj_begun := True\<rparr>)" using s by (auto simp: all_tidy_def job_ok_def)
    then show ?thesis
      using s True set_update_subset_insert [of "ms_bg s" n "(ms_bg s ! n)\<lparr>aj_begun := True\<rparr>"]
      by (auto simp: bg_begin_def addingReplicasCount_def all_tidy_def tidy_def tended_def Let_def)
  qed (use s in \<open>auto simp: bg_begin_def\<close>)
qed

lemma bg_add_all_tidy:
  assumes "job_ok known ok man j"
  shows "keeps all_tidy (bg_add man j)"
proof -
  have r: "own_replica known ok (aj_volume j) (aj_replica j)" using assms by (simp add: job_ok_def)
  obtain v w where "fst (vm_getController man v w) = Some (aj_ctrl j)" using assms by (auto simp: job_ok_def)
  from leaves_tidy [OF add_replica [OF this]] show ?thesis
    unfolding bg_add_def orc using own_replica_tidy [OF r]
    by (intro keeps_attempt keeps_case_sum keeps_ret all_tidy_io) auto
qed

lemma bg_end_all_tidy: "keeps all_tidy (bg_end man n)"
proof (rule keepsI)
  fix s assume s: "all_tidy s"
  show "all_tidy (snd (bg_end man n s))"
  proof (cases "n < length (ms_bg s) \<and> aj_begun (ms_bg s ! n)")
    case True
    then have "job_ok known ok man (ms_bg s ! n)" using s by (auto simp: all_tidy_def)
    then have s1: "all_tidy (snd (bg_add man (ms_bg s ! n) s))" using bg_add_all_tidy s by (simp add: keeps_def)
    obtain r s' where e: "bg_add man (ms_bg s ! n) s = (r, s')" by fastforce
    then show ?thesis
      using s1 True by (auto simp: bg_end_def e addingReplicasCount_def all_tidy_def tidy_def tended_def Let_def dest: in_set_takeD in_set_dropD)
  qed (use s in \<open>auto simp: bg_end_def\<close>)
qed

lemma monitor_tick_all_tidy:
  assumes n: "ok (v_Name volume)" and ctrl: "fst (vm_getController man v w) = Some ctrl"
  shows "keeps all_tidy (monitor_tick rt man ctrl volume ch k)"
proof -
  have "keeps all_tidy (give_up rt man volume ch)"
    unfolding give_up_def
    by (intro keeps_tryE keeps_attempt keeps_ret all_tidy_io leaves_tidy close all_tidy_keeps [OF Detach_tidy [OF n] bg_keeps_Detach])
  then show ?thesis
    unfolding monitor_tick_def using CheckController_all_tidy [OF n ctrl]
    by (intro keeps_attempt keeps_case_sum keeps_case_option keeps_if keeps_tryE keeps_ret) auto
qed

lemma cleanup_tick_all_tidy: "ok (v_Name volume) \<Longrightarrow> keeps all_tidy (cleanup_tick man volume)"
  unfolding cleanup_tick_def by (intro keeps_attempt keeps_ret all_tidy_keeps Cleanup_tidy bg_keeps_Cleanup)

lemma serve_all_tidy: "request_ok ok q \<Longrightarrow> keeps all_tidy (serve man q)"
  by (intro all_tidy_keeps serve_tidy bg_keeps_serve)

subsection \<open>Every state\<close>

lemma reach_all_tidy: "manager_reach good absv ok man rt s \<Longrightarrow> all_tidy s"
proof (induction rule: manager_reach.induct)
  case (new w)
  then show ?case by (simp add: all_tidy_def tidy_def tended_def Manager_New_def)
next
  case (start s r s')
  have "bg_part s' = bg_part s" by (rule bg_same [OF bg_keeps_Start start(2)])
  then show ?case using keepsD [OF Start_tidy _ start(2)] start(3) by (simp add: all_tidy_def bg_part_def)
next
  case (serve s q r s')
  then show ?case using keepsD [OF serve_all_tidy] by blast
next
  case (tick s volume v w ctrl ch k x s')
  then show ?case using keepsD [OF monitor_tick_all_tidy] by blast
next
  case (cleanup s volume r s')
  then show ?case using keepsD [OF cleanup_tick_all_tidy] by blast
next
  case (begin_job s n)
  then show ?case by (intro bg_begin_all_tidy)
next
  case (end_job s n r s')
  then show ?case using keepsD [OF bg_end_all_tidy] by blast
next
  case (others s w)
  then show ?case by (simp add: all_tidy_def tidy_def tended_def)
qed

lemma reach_tended: "manager_reach good absv ok man rt s \<Longrightarrow> inv s \<and> tended absv s"
  using reach_all_tidy by (simp add: all_tidy_def tidy_def)

end

section \<open>The process\<close>

context manager_host
begin

lemma calm_leaves: "(\<And>w. binv w \<Longrightarrow> calm view binv up w (snd (m w))) \<Longrightarrow> leaves good (\<lambda>w. abs_of pre (view w)) m"
  using calm_harmless good_binv by (simp add: leaves_def)

lemma quiet_leaves: "quiet m Q \<Longrightarrow> leaves good (\<lambda>w. abs_of pre (view w)) m"
  by (rule leaves_wp) (use quiet_harmless [of m Q] in \<open>simp add: harmless_op_def harmless_def [abs_def]\<close>)

lemma Execute_leaves: "leaves good (\<lambda>w. abs_of pre (view w)) (tryE (Execute (do_env d) c args) h (\<lambda>_. ret ()))"
  by (rule quiet_leaves, rule quietly_tryE [where P = "\<lambda>_. True" and Q = "\<lambda>_. True"])
    (auto simp: Execute_def ExecuteWithTimeout_def intro!: quiet_intros quietly_st exec_calm split: ExecResult.split option.split)

lemma GetReplicaStates_world:
  "snd (GetReplicaStates env c w) = snd (env_Proc env [''longhorn'', ''--url'', co_url c, ''ls''] w)"
  by (auto simp: GetReplicaStates_def st_def CmdOutLines_def Let_def panic_def fail_def ret_def split: prod.splits res.splits option.splits)

lemma backups_Get_world: "snd (backups_Get decode env bk u w) = snd (env_Proc env [''longhorn'', ''backup'', ''inspect'', u] w)"
  by (auto simp: backups_Get_def backup_cmd_def st_def fail_def split: prod.splits option.splits)

end

sublocale manager_host \<subseteq> mp: manager_process "docker_Orchestrator d" "docker_good view binv pre ok known d"
    "\<lambda>w. abs_of pre (view w)" known ok "process_manager d p" "process_runtime p"
proof (unfold_locales, goal_cases)
  case (1 v w ctrl u)
  then show ?case
    using Execute_leaves
    by (auto simp: process_manager_def process_getController_def controller_ops_def Restore_def split: prod.splits)
next
  case (2 v w ctrl)
  have "leaves good (\<lambda>w. abs_of pre (view w)) (GetReplicaStates (do_env d) c)" for c
    by (rule calm_leaves) (simp add: GetReplicaStates_world proc_calm)
  then show ?case
    using 2 by (auto simp: process_manager_def process_getController_def controller_ops_def split: prod.splits)
next
  case (3 v w ctrl r)
  then show ?case
    using Execute_leaves
    by (auto simp: process_manager_def process_getController_def controller_ops_def AddReplica_def Let_def split: prod.splits)
next
  case (4 v w ctrl r)
  then show ?case
    using Execute_leaves
    by (auto simp: process_manager_def process_getController_def controller_ops_def RemoveReplica_def Let_def split: prod.splits)
next
  case (5 t u)
  show ?case
    by (rule calm_leaves) (simp add: process_manager_def backups_ops_def Let_def backups_Get_world proc_calm)
next
  case (6 m e)
  show ?case
    by (rule calm_leaves) (simp add: process_manager_def monitor_ops_def send_chan_def Let_def calm_refl)
next
  case (7 ch)
  show ?case by (rule calm_leaves) (rule close_calm)
qed

context manager_host
begin

lemma processes: "manager_process (docker_Orchestrator d) good (\<lambda>w. abs_of pre (view w)) known ok (process_manager d p) (process_runtime p)"
  by (rule mp.manager_process_axioms)

end

end
