(* ===== verification/ManagerProps.thy ===== *)
theory ManagerProps
  imports Tending
begin

text \<open>
  Properties of the volume manager over the docker orchestrator and etcd.  The hypotheses are
  those of \<open>manager_host\<close> and a good state of the store; the reference process of \<open>Wiring\<close>
  shows that they can hold.
\<close>

abbreviation man_abs :: "('w \<Rightarrow> tree) \<Rightarrow> string list \<Rightarrow> ('w, 'm) man \<Rightarrow> kv_abs" where
  "man_abs view pre s \<equiv> abs_of pre (view (ms_w s))"

abbreviation man_good where "man_good view binv pre ok known d s \<equiv> docker_good view binv pre ok known d (ms_w s)"

section \<open>A reference state\<close>

definition mr_empty :: man_ref where
  "mr_empty = \<lparr>er_nodes = [], er_up = True, dr_containers = [], dr_clock = 0, mr_holder = holder_start,
     mr_chans = \<lparr>ch_next = 0, ch_closed = [], ch_gone = []\<rparr>\<rparr>"

abbreviation mr_abs :: "man_ref \<Rightarrow> kv_abs" where "mr_abs w \<equiv> abs_of [''longhorn''] (dr_view w)"
abbreviation mr_good :: "man_ref \<Rightarrow> bool" where
  "mr_good \<equiv> docker_good dr_view dr_inv [''longhorn''] etcd_name (\<lambda>h. h = ''host1'') dr_orc"
abbreviation mr_man :: "(man_ref, monitorChan) volumeManager" where "mr_man \<equiv> process_manager dr_orc mr_internals"

lemma mr_empty_wf: "dr_inv mr_empty" "kv_wf [''longhorn''] (dr_view mr_empty)" "er_up mr_empty"
  using ref_store.etcd_empty [of mr_empty] by (auto simp: etcd_wf_def mr_empty_def er_tree_def er_sane_def)

lemma mr_empty_abs: "mr_abs mr_empty = \<lparr>a_settings = None, a_hosts = Map.empty, a_base = Map.empty, a_ctrl = Map.empty, a_reps = \<lambda>_. Map.empty\<rparr>"
  by (simp add: mr_empty_def abs_of_def etcd_view_def er_tree_def fun_eq_iff)

lemma mr_empty_good: "mr_good mr_empty"
  using mr_empty_wf mr_empty_abs by (simp add: docker_good_def typed_def dr_orc_def GetCurrentHostID_def)

lemma ex_names_more: "etcd_name ''ctrl''" "etcd_name ''new1''"
  by (simp_all add: etcd_name_def good_comp_def hidden_def HasPrefix_def)

abbreviation mr_start :: "(man_ref, monitorChan) man" where "mr_start \<equiv> Manager_New mr_empty"

text \<open>A state with a volume, its controller and a replica.\<close>

lemma mr_stored:
  obtains w where "mr_good w" "er_up w" "a_base (mr_abs w) ''vol1'' \<noteq> None" "a_ctrl (mr_abs w) ''vol1'' = v_Controller (ex_volume ''vol1'')"
    "a_reps (mr_abs w) ''vol1'' = map_of (replicas_of (ex_volume ''vol1''))"
proof -
  let ?v = "ex_volume ''vol1''"
  let ?a = "(mr_abs mr_empty)\<lparr>a_base := (a_base (mr_abs mr_empty))(v_Name ?v \<mapsto> ?v\<lparr>v_Controller := None, v_Replicas := None\<rparr>),
      a_ctrl := (a_ctrl (mr_abs mr_empty))(v_Name ?v := v_Controller ?v), a_reps := (a_reps (mr_abs mr_empty))(v_Name ?v := map_of (replicas_of ?v))\<rparr>"
  have t: "typed (\<lambda>h. h = ''host1'') etcd_name ?a"
    using ex_names ex_names_more
    by (auto simp: mr_empty_abs typed_def ex_volume_def ex_instance_def inst_ok_def replicas_of_def volume_ints_ok_def int_ok_def
      split: if_splits)
  have "wp (SetVolume (etcd_kv er_api [''longhorn'']) ?v) (\<lambda>_ w'. mr_good w' \<and> er_up w' \<and> mr_abs w' = ?a) (\<lambda>_ _. False) mr_empty"
    unfolding etcd_kv_def
    by (rule wp_mono [OF ref_store.etcd.SetVolume_wp])
      (use mr_empty_wf ex_volume_ok [of etcd_name "''vol1''"] ex_names t in
        \<open>auto simp: docker_good_def stays_def mr_empty_abs dr_orc_def GetCurrentHostID_def\<close>)
  then show ?thesis
    using that by (auto simp: mr_empty_abs ex_volume_def elim!: wp_OkE)
qed

section \<open>Changing the recurring jobs\<close>

context manager_host
begin

lemma UpdateRecurring_ends:
  assumes t: "good (ms_w t)" and up: "up (ms_w t)" and n: "ok n" and j: "\<forall>j \<in> set jobs. int_ok (j_Retain j)"
    and x: "a_base (abst (ms_w t)) n = Some x"
  shows "ends (UpdateRecurring (process_manager d p) n jobs)
    (\<lambda>_ s'. ValidateJobs (pi_cron p) jobs = None \<and> good (ms_w s') \<and>
       abst (ms_w s') = (abst (ms_w t))\<lparr>a_base := (a_base (abst (ms_w t)))(n \<mapsto> x\<lparr>v_RecurringJobs := Some jobs\<rparr>)\<rparr>)
    (\<lambda>s'. good (ms_w s') \<and>
       abst (ms_w s') = (abst (ms_w t))\<lparr>a_base := (a_base (abst (ms_w t)))(n \<mapsto> x\<lparr>v_RecurringJobs := Some jobs\<rparr>)\<rparr>) t"
proof -
  let ?a = "(abst (ms_w t))\<lparr>a_base := (a_base (abst (ms_w t)))(n \<mapsto> x\<lparr>v_RecurringJobs := Some jobs\<rparr>)\<rparr>"
  let ?P = "\<lambda>s'. good (ms_w s') \<and> abst (ms_w s') = ?a"
  have man: "vm_orc (process_manager d p) = docker_Orchestrator d" "vm_cron (process_manager d p) = pi_cron p"
    "orc_GetVolume (docker_Orchestrator d) = docker_GetVolume d" "orc_UpdateVolume (docker_Orchestrator d) = UpdateVolume d"
    by (simp_all add: process_manager_def docker_Orchestrator_def)
  have get: "wp (io (docker_GetVolume d n)) (\<lambda>r s1. good (ms_w s1) \<and> abst (ms_w s1) = abst (ms_w t) \<and> up (ms_w s1) \<and>
      (\<exists>vol. r = Some vol \<and> vol\<lparr>v_Controller := None, v_Replicas := None\<rparr> = x)) (\<lambda>_ _. False) t"
    unfolding wp_io docker_GetVolume_def s_kv
    by (rule wp_mono [OF GetVolume_wp [OF goodD(1) [OF t] n]])
      (use up x goodD(1) [OF t] good_same [OF t] in \<open>auto simp: stays_def vol_matches_def split: option.splits\<close>)
  have xn: "v_Name x = n" "volume_ints_ok x" using typedD(1) [OF goodD(2) [OF t] x] by auto
  have upd: "wp (io (UpdateVolume d (vol\<lparr>v_RecurringJobs := Some jobs\<rparr>))) (\<lambda>_. ?P) (\<lambda>_ _. False) s1"
    if s1: "good (ms_w s1)" "abst (ms_w s1) = abst (ms_w t)" "up (ms_w s1)" and v: "vol\<lparr>v_Controller := None, v_Replicas := None\<rparr> = x"
    for s1 :: "('w, monitorChan) man" and vol
  proof -
    let ?vol = "vol\<lparr>v_RecurringJobs := Some jobs\<rparr>"
    have vol: "v_Name ?vol = n" "volume_ints_ok ?vol" using v xn j by (auto simp: volume_ints_ok_def)
    have "rebased ?vol (abst (ms_w t)) = ?a" using v xn(1) by (cases vol) (auto simp: rebased_def)
    then show ?thesis
      unfolding wp_io
      by (intro wp_mono [OF wp_conj [OF docker_UpdateVolume_good UpdateVolume_wp]])
        (use s1 goodD(1) [OF s1(1)] vol n in auto)
  qed
  have send: "keeps ?P (updateCron (process_manager d p) vol jobs)" for vol
  proof (rule keepsI)
    fix s1 :: "('w, monitorChan) man" assume "?P s1"
    then show "?P (snd (updateCron (process_manager d p) vol jobs s1))"
      using mp.send unfolding leaves_def harmless_def by (auto simp: updateCron_def io_eq split: option.split)
  qed
  show ?thesis
    unfolding UpdateRecurring_def man
  proof (rule ends_step [OF ends_wp [OF get]], goal_cases)
    case (1 r s1)
    then obtain vol where vol: "r = Some vol" "vol\<lparr>v_Controller := None, v_Replicas := None\<rparr> = x" by blast
    have s1: "good (ms_w s1)" "abst (ms_w s1) = abst (ms_w t)" "up (ms_w s1)" using 1 by auto
    show ?case
      unfolding vol(1) option.case Let_def
    proof (rule ends_step [OF ends_wp [OF upd [OF s1 vol(2)]]], goal_cases)
      case (1 _ s2)
      show ?case
      proof (cases "ValidateJobs (pi_cron p) jobs")
        case None
        show ?thesis
          unfolding None option.case by (rule ends_mono [OF ends_keeps [OF send 1]]) (simp_all add: fun_upd_def)
      qed (use 1 in \<open>simp add: ends_fail\<close>)
    qed simp
  qed simp
qed

end

definition ex_badjob :: RecurringJob where
  "ex_badjob = \<lparr>j_Name = [], j_Cron = [], j_Task = ''snapshot'', j_Retain = 1\<rparr>"

section \<open>Properties\<close>

text \<open>C7: deleting a volume.  When it returns, nothing of the volume is left in the store (no
  base document, no controller, no replica) and it is no longer monitored; whether it returns or
  fails, every other volume, the hosts and the settings are as they were, the store is
  well-formed and nothing panics.\<close>

theorem Manager_Delete_exact:
  assumes "manager_host b view binv up pre ok d known full_id p"
    and "man_good view binv pre ok known d s" and "ok n"
  shows "wp (Manager_Delete (process_manager d p) n)
    (\<lambda>_ s'. man_good view binv pre ok known d s' \<and> only n (man_abs view pre s) (man_abs view pre s') \<and>
       a_base (man_abs view pre s') n = None \<and> (a_base (man_abs view pre s) n \<noteq> None \<longrightarrow>
         a_ctrl (man_abs view pre s') n = None \<and> a_reps (man_abs view pre s') n = Map.empty \<and> map_of (ms_monitors s') n = None))
    (\<lambda>_ s'. man_good view binv pre ok known d s' \<and> only n (man_abs view pre s) (man_abs view pre s')) s"
  using volume_manager.Delete_wp [OF manager_host.manages [OF assms(1)] assms(2,3)] .

theorem Manager_Delete_exact_witness:
  "\<exists>s. a_base (man_abs dr_view [''longhorn''] s) ''vol1'' \<noteq> None \<and> a_ctrl (man_abs dr_view [''longhorn''] s) ''vol1'' \<noteq> None \<and>
    wp (Manager_Delete mr_man ''vol1'')
    (\<lambda>_ s'. mr_good (ms_w s') \<and> only ''vol1'' (man_abs dr_view [''longhorn''] s) (man_abs dr_view [''longhorn''] s') \<and>
       a_base (man_abs dr_view [''longhorn''] s') ''vol1'' = None \<and> (a_base (man_abs dr_view [''longhorn''] s) ''vol1'' \<noteq> None \<longrightarrow>
         a_ctrl (man_abs dr_view [''longhorn''] s') ''vol1'' = None \<and> a_reps (man_abs dr_view [''longhorn''] s') ''vol1'' = Map.empty \<and>
         map_of (ms_monitors s') ''vol1'' = None))
    (\<lambda>_ s'. mr_good (ms_w s') \<and> only ''vol1'' (man_abs dr_view [''longhorn''] s) (man_abs dr_view [''longhorn''] s')) s"
proof (rule mr_stored)
  fix w assume w: "mr_good w" "a_base (mr_abs w) ''vol1'' \<noteq> None" "a_ctrl (mr_abs w) ''vol1'' = v_Controller (ex_volume ''vol1'')"
  have "a_ctrl (mr_abs w) ''vol1'' \<noteq> None" using w(3) by (simp add: ex_volume_def)
  with w(1,2) show ?thesis
    using Manager_Delete_exact [OF mr.manager_host_axioms, of "Manager_New w" "''vol1''"] ex_names
    by (intro exI [of _ "Manager_New w"]) (simp add: Manager_New_def)
qed

text \<open>C10: detaching a volume.  When it returns, a volume that exists has no controller in the
  store and no monitor; its base document is as it was, and so is every other volume, whether
  it returns or fails.\<close>

theorem Detach_releases:
  assumes "manager_host b view binv up pre ok d known full_id p"
    and "man_good view binv pre ok known d s" and "ok n"
  shows "wp (Detach (process_manager d p) n)
    (\<lambda>_ s'. man_good view binv pre ok known d s' \<and> only n (man_abs view pre s) (man_abs view pre s') \<and>
       a_base (man_abs view pre s') = a_base (man_abs view pre s) \<and>
       (a_base (man_abs view pre s) n \<noteq> None \<longrightarrow> a_ctrl (man_abs view pre s') n = None \<and> map_of (ms_monitors s') n = None))
    (\<lambda>_ s'. man_good view binv pre ok known d s' \<and> only n (man_abs view pre s) (man_abs view pre s') \<and>
       a_base (man_abs view pre s') = a_base (man_abs view pre s)) s"
  by (rule wp_mono [OF volume_manager.Detach_wp [OF manager_host.manages [OF assms(1)] assms(2,3)]]) auto

theorem Detach_releases_witness:
  "\<exists>s. a_base (man_abs dr_view [''longhorn''] s) ''vol1'' \<noteq> None \<and> a_ctrl (man_abs dr_view [''longhorn''] s) ''vol1'' \<noteq> None \<and>
    wp (Detach mr_man ''vol1'')
    (\<lambda>_ s'. mr_good (ms_w s') \<and> only ''vol1'' (man_abs dr_view [''longhorn''] s) (man_abs dr_view [''longhorn''] s') \<and>
       a_base (man_abs dr_view [''longhorn''] s') = a_base (man_abs dr_view [''longhorn''] s) \<and>
       (a_base (man_abs dr_view [''longhorn''] s) ''vol1'' \<noteq> None \<longrightarrow>
          a_ctrl (man_abs dr_view [''longhorn''] s') ''vol1'' = None \<and> map_of (ms_monitors s') ''vol1'' = None))
    (\<lambda>_ s'. mr_good (ms_w s') \<and> only ''vol1'' (man_abs dr_view [''longhorn''] s) (man_abs dr_view [''longhorn''] s') \<and>
       a_base (man_abs dr_view [''longhorn''] s') = a_base (man_abs dr_view [''longhorn''] s)) s"
proof (rule mr_stored)
  fix w assume w: "mr_good w" "a_base (mr_abs w) ''vol1'' \<noteq> None" "a_ctrl (mr_abs w) ''vol1'' = v_Controller (ex_volume ''vol1'')"
  have "a_ctrl (mr_abs w) ''vol1'' \<noteq> None" using w(3) by (simp add: ex_volume_def)
  with w(1,2) show ?thesis
    using Detach_releases [OF mr.manager_host_axioms, of "Manager_New w" "''vol1''"] ex_names
    by (intro exI [of _ "Manager_New w"]) (simp add: Manager_New_def)
qed

text \<open>C8: creating a volume that is not made from a backup.  When it returns, there was no volume of
  that name, the stored base document is the one that was asked for (with the time of creation,
  and the engine image of the settings where none was given), the result is the stored volume,
  and it has at least as many replicas as it is to have; whether it returns or fails, every
  other volume is as it was.\<close>

theorem Create_makes_replicas:
  assumes "manager_host b view binv up pre ok d known full_id p"
    and "man_good view binv pre ok known d s" and "ok (v_Name volume)" and "volume_ints_ok volume" and "v_FromBackup volume = []"
  shows "wp (Create (process_manager d p) volume)
    (\<lambda>r s'. man_good view binv pre ok known d s' \<and> a_base (man_abs view pre s) (v_Name volume) = None \<and>
       (\<exists>img. img \<noteq> [] \<and> (v_EngineImage volume \<noteq> [] \<longrightarrow> img = v_EngineImage volume) \<and>
          created (volume\<lparr>v_EngineImage := img\<rparr>) (man_abs view pre s) (man_abs view pre s') r))
    (\<lambda>_ s'. man_good view binv pre ok known d s' \<and> only (v_Name volume) (man_abs view pre s) (man_abs view pre s')) s"
  using volume_manager.Create_wp [OF manager_host.manages [OF assms(1)] assms(2-5)] .

definition ex_new :: VolumeInfo where
  "ex_new = (ex_volume ''new1'')\<lparr>v_Controller := None, v_Replicas := None\<rparr>"

theorem Create_makes_replicas_witness:
  "wp (Create mr_man ex_new)
    (\<lambda>r s'. mr_good (ms_w s') \<and> a_base (man_abs dr_view [''longhorn''] mr_start) (v_Name ex_new) = None \<and>
       (\<exists>img. img \<noteq> [] \<and> (v_EngineImage ex_new \<noteq> [] \<longrightarrow> img = v_EngineImage ex_new) \<and>
          created (ex_new\<lparr>v_EngineImage := img\<rparr>) (man_abs dr_view [''longhorn''] mr_start) (man_abs dr_view [''longhorn''] s') r))
    (\<lambda>_ s'. mr_good (ms_w s') \<and> only (v_Name ex_new) (man_abs dr_view [''longhorn''] mr_start) (man_abs dr_view [''longhorn''] s'))
    mr_start"
proof (rule Create_makes_replicas [OF mr.manager_host_axioms])
  show "mr_good (ms_w mr_start)" using mr_empty_good by (simp add: Manager_New_def)
qed (use ex_names_more in \<open>simp_all add: ex_new_def ex_volume_def volume_ints_ok_def int_ok_def\<close>)

text \<open>C9: attaching a volume that exists and whose replicas were not marked bad.  When it returns,
  the volume has a controller in the store and is monitored, and every other volume is as it
  was, whether it returns or fails; nothing panics.\<close>

theorem Attach_runs:
  assumes "manager_host b view binv up pre ok d known full_id p"
    and "man_good view binv pre ok known d s" and "ok n" and "a_base (man_abs view pre s) n \<noteq> None"
    and "\<forall>k r. a_reps (man_abs view pre s) n k = Some r \<longrightarrow> unmarked r"
  shows "wp (Attach (process_manager d p) n)
    (\<lambda>_ s'. man_good view binv pre ok known d s' \<and> only n (man_abs view pre s) (man_abs view pre s') \<and>
       a_ctrl (man_abs view pre s') n \<noteq> None \<and> map_of (ms_monitors s') n \<noteq> None)
    (\<lambda>_ s'. man_good view binv pre ok known d s' \<and> only n (man_abs view pre s) (man_abs view pre s')) s"
  by (rule wp_mono [OF volume_manager.Attach_wp [OF manager_host.manages [OF assms(1)] assms(2-5)]]) auto

theorem Attach_runs_witness:
  "\<exists>s. a_base (man_abs dr_view [''longhorn''] s) ''vol1'' \<noteq> None \<and> a_reps (man_abs dr_view [''longhorn''] s) ''vol1'' ''rep1'' \<noteq> None \<and>
    wp (Attach mr_man ''vol1'')
    (\<lambda>_ s'. mr_good (ms_w s') \<and> only ''vol1'' (man_abs dr_view [''longhorn''] s) (man_abs dr_view [''longhorn''] s') \<and>
       a_ctrl (man_abs dr_view [''longhorn''] s') ''vol1'' \<noteq> None \<and> map_of (ms_monitors s') ''vol1'' \<noteq> None)
    (\<lambda>_ s'. mr_good (ms_w s') \<and> only ''vol1'' (man_abs dr_view [''longhorn''] s) (man_abs dr_view [''longhorn''] s')) s"
proof (rule mr_stored)
  fix w assume w: "mr_good w" "a_base (mr_abs w) ''vol1'' \<noteq> None"
    "a_reps (mr_abs w) ''vol1'' = map_of (replicas_of (ex_volume ''vol1''))"
  have "\<forall>k r. a_reps (mr_abs w) ''vol1'' k = Some r \<longrightarrow> unmarked r"
    unfolding w(3) by (simp add: replicas_of_def ex_volume_def unmarked_def)
  then show ?thesis
    using Attach_runs [OF mr.manager_host_axioms, of "Manager_New w" "''vol1''"] ex_names w
    by (intro exI [of _ "Manager_New w"]) (simp add: Manager_New_def replicas_of_def ex_volume_def)
qed

lemma only_same:
  assumes "only n a a'" and "a_base a' n = a_base a n" and "a_ctrl a' n = a_ctrl a n" and "a_reps a' n = a_reps a n"
  shows "a' = (a :: kv_abs)"
proof (rule kv_abs.equality)
  show "a_base a' = a_base a" "a_ctrl a' = a_ctrl a" "a_reps a' = a_reps a"
    using assms by (auto simp: only_def fun_eq_iff)
qed (use assms(1) in \<open>simp_all add: only_def\<close>)

text \<open>C12: creating a volume, from a backup or not, and deleting it leaves no trace: of a volume of which
  the store held nothing, it holds nothing again, it is otherwise the store it was, and the
  volume is not monitored.  However it ends otherwise, every other volume is as it was; and it
  does not panic for a volume that is not made from a backup.\<close>

theorem Create_then_Delete:
  assumes "manager_host b view binv up pre ok d known full_id p"
    and "man_good view binv pre ok known d s" and "ok (v_Name volume)" and "volume_ints_ok volume"
    and "a_ctrl (man_abs view pre s) (v_Name volume) = None" and "a_reps (man_abs view pre s) (v_Name volume) = Map.empty"
  shows "ends (tryE (Create (process_manager d p) volume) id (\<lambda>_. Manager_Delete (process_manager d p) (v_Name volume)))
      (\<lambda>_ s'. man_good view binv pre ok known d s' \<and> man_abs view pre s' = man_abs view pre s \<and> map_of (ms_monitors s') (v_Name volume) = None)
      (\<lambda>s'. man_good view binv pre ok known d s' \<and> only (v_Name volume) (man_abs view pre s) (man_abs view pre s')) s \<and>
    (v_FromBackup volume = [] \<longrightarrow>
      wp (tryE (Create (process_manager d p) volume) id (\<lambda>_. Manager_Delete (process_manager d p) (v_Name volume))) (\<lambda>_ _. True) (\<lambda>_ _. True) s)"
    (is "ends ?m ?Q ?I s \<and> _")
proof (intro conjI impI)
  note m = manager_host.manages [OF assms(1)]
  show "ends ?m ?Q ?I s"
  proof (rule ends_step [OF manager_process.Create_mine [OF manager_host.processes [OF assms(1)] assms(2-4)]], goal_cases)
    case (1 r s1)
    then have s1: "man_good view binv pre ok known d s1" "only (v_Name volume) (man_abs view pre s) (man_abs view pre s1)"
      "a_base (man_abs view pre s1) (v_Name volume) \<noteq> None" "a_base (man_abs view pre s) (v_Name volume) = None" by auto
    show ?case
    proof (rule ends_wp, rule wp_mono [OF volume_manager.Delete_wp [OF m s1(1) assms(3)]], goal_cases)
      case (1 _ s2)
      then have "only (v_Name volume) (man_abs view pre s) (man_abs view pre s2)" using only_trans s1(2) by blast
      then have "man_abs view pre s2 = man_abs view pre s"
        by (rule only_same) (use 1 s1 assms(5,6) in auto)
      then show ?case using 1 s1(3) by blast
    next
      case (2 e s2)
      then show ?case using only_trans s1(2) by blast
    qed
  qed auto
  assume b: "v_FromBackup volume = []"
  show "wp ?m (\<lambda>_ _. True) (\<lambda>_ _. True) s"
    by (rule wp_step [OF volume_manager.Create_wp [OF m assms(2-4) b]])
      (auto intro: wp_mono [OF volume_manager.Delete_wp [OF m _ assms(3)]])
qed

text \<open>A volume to be made from a backup.\<close>

definition ex_restored :: VolumeInfo where
  "ex_restored = ex_new\<lparr>v_FromBackup := ''vfs:///backups?backup=b1&volume=vol1''\<rparr>"

theorem Create_then_Delete_witness:
  "ends (tryE (Create mr_man ex_restored) id (\<lambda>_. Manager_Delete mr_man (v_Name ex_restored)))
    (\<lambda>_ s'. mr_good (ms_w s') \<and> man_abs dr_view [''longhorn''] s' = man_abs dr_view [''longhorn''] mr_start \<and>
       map_of (ms_monitors s') (v_Name ex_restored) = None)
    (\<lambda>s'. mr_good (ms_w s') \<and> only (v_Name ex_restored) (man_abs dr_view [''longhorn''] mr_start) (man_abs dr_view [''longhorn''] s'))
    mr_start"
proof (rule conjunct1 [OF Create_then_Delete [OF mr.manager_host_axioms]])
  show "mr_good (ms_w mr_start)" using mr_empty_good by (simp add: Manager_New_def)
qed (use ex_names_more mr_empty_abs in \<open>simp_all add: ex_restored_def ex_new_def ex_volume_def volume_ints_ok_def int_ok_def Manager_New_def\<close>)

text \<open>C27: changing the recurring jobs of a volume while the store is up.  However it ends, the jobs are
  stored in the volume's base document and nothing else is changed: also when the jobs are then found to be
  invalid and the request is refused; it returns only for valid jobs.\<close>

theorem UpdateRecurring_stores:
  assumes "manager_host b view binv up pre ok d known full_id p"
    and "man_good view binv pre ok known d s" and "up (ms_w s)" and "ok n" and "\<forall>j \<in> set jobs. int_ok (j_Retain j)"
    and "a_base (man_abs view pre s) n = Some x"
  shows "ends (UpdateRecurring (process_manager d p) n jobs)
    (\<lambda>_ s'. ValidateJobs (pi_cron p) jobs = None \<and> man_good view binv pre ok known d s' \<and>
       man_abs view pre s' = (man_abs view pre s)\<lparr>a_base := (a_base (man_abs view pre s))(n \<mapsto> x\<lparr>v_RecurringJobs := Some jobs\<rparr>)\<rparr>)
    (\<lambda>s'. man_good view binv pre ok known d s' \<and>
       man_abs view pre s' = (man_abs view pre s)\<lparr>a_base := (a_base (man_abs view pre s))(n \<mapsto> x\<lparr>v_RecurringJobs := Some jobs\<rparr>)\<rparr>) s"
  by (rule manager_host.UpdateRecurring_ends [OF assms])

theorem UpdateRecurring_stores_witness:
  "\<exists>s x. a_base (man_abs dr_view [''longhorn''] s) ''vol1'' = Some x \<and> ValidateJobs (pi_cron mr_internals) [ex_badjob] \<noteq> None \<and>
     ends (UpdateRecurring mr_man ''vol1'' [ex_badjob])
    (\<lambda>_ s'. ValidateJobs (pi_cron mr_internals) [ex_badjob] = None \<and> mr_good (ms_w s') \<and>
       man_abs dr_view [''longhorn''] s' = (man_abs dr_view [''longhorn''] s)\<lparr>a_base := (a_base (man_abs dr_view [''longhorn''] s))
         (''vol1'' \<mapsto> x\<lparr>v_RecurringJobs := Some [ex_badjob]\<rparr>)\<rparr>)
    (\<lambda>s'. mr_good (ms_w s') \<and>
       man_abs dr_view [''longhorn''] s' = (man_abs dr_view [''longhorn''] s)\<lparr>a_base := (a_base (man_abs dr_view [''longhorn''] s))
         (''vol1'' \<mapsto> x\<lparr>v_RecurringJobs := Some [ex_badjob]\<rparr>)\<rparr>) s"
proof (rule mr_stored)
  fix w assume w: "mr_good w" "er_up w" "a_base (mr_abs w) ''vol1'' \<noteq> None"
  then obtain x where x: "a_base (mr_abs w) ''vol1'' = Some x" by auto
  have v: "ValidateJobs (pi_cron mr_internals) [ex_badjob] \<noteq> None" by (simp add: ex_badjob_def tasks_def)
  show ?thesis
    using UpdateRecurring_stores [OF mr.manager_host_axioms, of "Manager_New w" "''vol1''" "[ex_badjob]" x] w x v ex_names
    by (intro exI [of _ "Manager_New w"] exI [of _ x]) (simp add: Manager_New_def ex_badjob_def int_ok_def)
qed

lemma collectE_no_Err: "(\<exists>es. fst (collectE f xs w) = Ok es) \<or> (\<exists>m. fst (collectE f xs w) = Panic m)"
proof (induction xs arbitrary: w)
  case (Cons x xs)
  then show ?case by (auto simp: attempt_def tryE_def ret_def split: prod.splits res.splits) (metis fst_conv res.distinct)+
qed (simp add: ret_def)

text \<open>C26: attaching a volume that has no controller and a replica that was marked bad with a time
  stamp that can be read never returns: whatever the orchestrator does, the method panics
  when it compares the time stamp with that of a most recent bad replica it does not have.\<close>

theorem doAttach_marked_panics:
  assumes "v_Controller vol = None" and "(k, r) \<in> set (replicas_of vol)" and "\<not> unmarked r"
  shows "\<exists>m s'. doAttach man vol s = (Panic m, s')"
proof -
  obtain stops where "attach_scan (replicas_of vol) [] [] None = (stops, None)" using attach_scan_marked [OF assms(2,3)] by blast
  then show ?thesis
    using assms(1) collectE_no_Err [of "stop_replica man" stops s] by (auto simp: doAttach_def controller_here_def attach_replicas_def tryE_def ret_def panic_def split: prod.splits res.splits)
qed

text \<open>C11: in every state that a manager reaches by starting, by requests, rounds of its monitors and
  the goroutines that add replicas, whether they return, fail or panic, with others changing the
  store in between as long as they leave the controllers of the volumes it monitors, the
  store is well-formed with every record in its place, and every volume the manager
  monitors has its base document and a controller there.\<close>

theorem monitored_have_controllers:
  assumes "manager_host b view binv up pre ok d known full_id p"
    and "manager_reach (docker_good view binv pre ok known d) (\<lambda>w. abs_of pre (view w)) ok (process_manager d p) (process_runtime p) s"
  shows "man_good view binv pre ok known d s \<and>
    (\<forall>n. map_of (ms_monitors s) n \<noteq> None \<longrightarrow> a_base (man_abs view pre s) n \<noteq> None \<and> a_ctrl (man_abs view pre s) n \<noteq> None)"
  using manager_process.reach_tended [OF manager_host.processes [OF assms(1)] assms(2)]
  by (simp add: tended_def has_controller_def)

text \<open>The reference process attaches a volume whose controller runs on its host.\<close>

lemma mr_complete:
  assumes "v_Controller vol = v_Controller (ex_volume ''vol1'')"
  shows "\<exists>s'. completeVolumeState mr_man vol s = (Ok (vol\<lparr>v_State := volumeState vol, v_Endpoint := []\<rparr>), s') \<and> ms_monitors s' = ms_monitors s"
proof -
  let ?vol = "vol\<lparr>v_State := volumeState vol, v_Endpoint := []\<rparr>"
  let ?c = "\<lparr>c_InstanceInfo = ex_instance ''vol1'' ''controller'' ''ctrl''\<rparr>"
  have v: "v_Controller ?vol = Some ?c" "i_Running (c_InstanceInfo ?c)" using assms by (simp_all add: ex_volume_def ex_instance_def)
  obtain c h where c: "ctrl_Get (Some ?vol) (mr_holder (ms_w s)) = (Some c, h)" using ctrl_Get_running [OF v] by blast
  have "controller_running ?vol" using v by (simp add: controller_running_def)
  then show ?thesis
    using c by (simp add: completeVolumeState_def Let_def st_def iost_def process_manager_def process_getController_def mr_internals_def
      controller_ops_def ctrl_Endpoint_def ctrl_info_def Execute_def ExecuteWithTimeout_def dr_orc_def dr_env_def
      io_def tryE_def attempt_def fail_def ret_def)
qed

lemma mr_attached:
  obtains w s where "mr_good w" "Attach mr_man ''vol1'' (Manager_New w) = (Ok (), s)" "map_of (ms_monitors s) ''vol1'' \<noteq> None"
proof (rule mr_stored)
  fix w assume w: "mr_good w" "er_up w" "a_base (mr_abs w) ''vol1'' \<noteq> None" "a_ctrl (mr_abs w) ''vol1'' = v_Controller (ex_volume ''vol1'')"
  have "wp (GetVolume (etcd_kv er_api [''longhorn'']) ''vol1'') (\<lambda>r _. vol_matches (mr_abs w) ''vol1'' r) (\<lambda>_ _. False) w"
    unfolding etcd_kv_def by (rule wp_mono [OF ref_store.etcd.GetVolume_wp]) (use w ex_names in \<open>auto simp: docker_good_def\<close>)
  then obtain r w1 where g: "GetVolume (etcd_kv er_api [''longhorn'']) ''vol1'' w = (Ok r, w1)" "vol_matches (mr_abs w) ''vol1'' r"
    by (rule wp_OkE)
  then obtain vol where vol: "r = Some vol" "v_Controller vol = v_Controller (ex_volume ''vol1'')"
    using w(3,4) by (cases r) (auto simp: vol_matches_def split: option.splits)
  have n: "v_Name vol = ''vol1''"
    using g(2) w(1) typedD(1) unfolding vol(1) by (fastforce simp: docker_good_def vol_matches_def split: option.splits)
  have v2: "controller_here mr_man (vol\<lparr>v_State := volumeState vol, v_Endpoint := []\<rparr>)"
    using vol(2) by (simp add: controller_here_def ex_volume_def ex_instance_def process_manager_def docker_Orchestrator_def
      GetCurrentHostID_def dr_orc_def)
  let ?s1 = "(Manager_New w)\<lparr>ms_w := w1\<rparr>"
  obtain s2 where s2: "completeVolumeState mr_man vol ?s1 = (Ok (vol\<lparr>v_State := volumeState vol, v_Endpoint := []\<rparr>), s2)"
      "ms_monitors s2 = []"
    using mr_complete [OF vol(2), of ?s1] by (auto simp: Manager_New_def)
  have "Manager_Get mr_man ''vol1'' (Manager_New w) = (Ok (Some (vol\<lparr>v_State := volumeState vol, v_Endpoint := []\<rparr>)), s2)"
    using g(1) s2(1) by (simp add: Manager_Get_def tryE_def io_eq process_manager_def docker_Orchestrator_def docker_GetVolume_def
      dr_orc_def Manager_New_def vol(1) ret_def)
  then have "\<exists>s. Attach mr_man ''vol1'' (Manager_New w) = (Ok (), s) \<and> map_of (ms_monitors s) ''vol1'' \<noteq> None"
    using v2 s2(2) n by (auto simp: Attach_def doAttach_def tryE_def startMonitoring_def ret_def split: prod.split)
  then show ?thesis using w(1) that by blast
qed

theorem monitored_have_controllers_witness:
  "\<exists>s :: (man_ref, monitorChan) man. map_of (ms_monitors s) ''vol1'' \<noteq> None \<and> mr_good (ms_w s) \<and> a_base (mr_abs (ms_w s)) ''vol1'' \<noteq> None \<and>
     a_ctrl (mr_abs (ms_w s)) ''vol1'' \<noteq> None"
proof (rule mr_attached)
  fix w s
  assume *: "mr_good w" "Attach mr_man ''vol1'' (Manager_New w) = (Ok (), s)" "map_of (ms_monitors s) ''vol1'' \<noteq> None"
  have "manager_reach mr_good mr_abs etcd_name mr_man (process_runtime mr_internals) (Manager_New w)"
    by (rule manager_reach.new) (rule *(1))
  then have "manager_reach mr_good mr_abs etcd_name mr_man (process_runtime mr_internals) s"
    by (rule manager_reach.serve [where q = "RAttach ''vol1''"]) (use *(2) ex_names in simp_all)
  from monitored_have_controllers [OF mr.manager_host_axioms this] show ?thesis using *(3) by blast
qed

definition ex_marked :: VolumeInfo where
  "ex_marked = (ex_volume ''vol1'')\<lparr>v_Controller := None, v_Replicas := Some [(''rep1'', ex_rw\<lparr>r_BadTimestamp := ''2017-07-14T02:40:00Z''\<rparr>)]\<rparr>"

lemma ex_time: "ParseTime ''2017-07-14T02:40:00Z'' = Inr 1500000000000000000"
  by code_simp

theorem doAttach_marked_panics_witness: "\<exists>m s'. doAttach ex_man ex_marked (Manager_New ()) = (Panic m, s')"
  by (rule doAttach_marked_panics [where k = "''rep1''" and r = "ex_rw\<lparr>r_BadTimestamp := ''2017-07-14T02:40:00Z''\<rparr>"])
    (simp_all add: ex_marked_def replicas_of_def unmarked_def ex_time)

end
