(* ===== verification/MonitorProps.thy ===== *)
theory MonitorProps
  imports Adding
begin

text \<open>
  Properties of the monitoring goroutine of a volume: how many failures it takes before it
  gives up, and what happens when it does.
\<close>

lemma give_up_open:
  assumes "runtime rt" and "\<not> is_closed rt ch (ms_w s)"
  shows "\<exists>s1. io (close_chan rt ch) s = (Ok (), s1) \<and> is_closed rt ch (ms_w s1)"
  using assms(2) runtime.get_put [OF assms(1)] by (auto simp: io_def close_chan_def is_closed_def Let_def)

lemma attempt_Ok: "attempt m (\<lambda>_. ret ()) s = (r, s') \<Longrightarrow> r = Ok () \<or> (\<exists>m. r = Panic m)"
  by (auto simp: attempt_def ret_def split: prod.splits res.splits)

text \<open>A check that fails with a controller error, or for the fourth time, closes the channel.\<close>

lemma monitor_tick_gives_up:
  assumes "CheckController man ctrl volume s = (Err e, s1)" and "ControllerError_Cause e \<noteq> None \<or> MonitoringMaxRetries < Suc k"
  shows "monitor_tick rt man ctrl volume ch k s =
    tryE (give_up rt man volume ch) id (\<lambda>_. ret (if ControllerError_Cause e = None then Suc k else k)) s1"
  using assms by (auto simp: monitor_tick_def attempt_def split: option.split)

lemma monitor_tick_closes:
  assumes "runtime rt" and "CheckController man ctrl volume s = (Err e, s1)" and "ControllerError_Cause e \<noteq> None \<or> MonitoringMaxRetries < Suc k"
    and "\<not> is_closed rt ch (ms_w s1)"
  shows "\<exists>s2. is_closed rt ch (ms_w s2) \<and> monitor_tick rt man ctrl volume ch k s =
    attempt (Detach man (v_Name volume)) (\<lambda>_. ret (if ControllerError_Cause e = None then Suc k else k)) s2"
proof -
  obtain s2 where s2: "io (close_chan rt ch) s1 = (Ok (), s2)" "is_closed rt ch (ms_w s2)" using give_up_open [OF assms(1,4)] by blast
  show ?thesis
    using s2 monitor_tick_gives_up [OF assms(2,3), of rt ch]
    by (intro exI [of _ s2]) (simp add: give_up_def tryE_def attempt_def ret_def split: prod.split res.split)
qed

lemma monitor_tick_retries:
  assumes "CheckController man ctrl volume s = (Err e, s1)" and "ControllerError_Cause e = None" and "Suc k \<le> MonitoringMaxRetries"
  shows "monitor_tick rt man ctrl volume ch k s = (Ok (Suc k), s1)"
  using assms by (simp add: monitor_tick_def attempt_def ret_def)

lemma monitor_loop_failing:
  assumes "\<And>s. fst (CheckController man ctrl volume s) = Err e \<and> rt_chans rt (ms_w (snd (CheckController man ctrl volume s))) = rt_chans rt (ms_w s)"
    and "ControllerError_Cause e = None" and "k + n \<le> MonitoringMaxRetries" and "\<not> is_closed rt ch (ms_w s)"
  shows "\<exists>s'. monitor_loop rt man ctrl volume ch n k s = (Ok (k + n), s') \<and> \<not> is_closed rt ch (ms_w s')"
  using assms(3,4)
proof (induction n arbitrary: k s)
  case 0
  then show ?case by (simp add: ret_def)
next
  case (Suc n)
  obtain s1 where c: "CheckController man ctrl volume s = (Err e, s1)" "rt_chans rt (ms_w s1) = rt_chans rt (ms_w s)"
    using assms(1) [of s] by (cases "CheckController man ctrl volume s") auto
  have t: "monitor_tick rt man ctrl volume ch k s = (Ok (Suc k), s1)"
    using monitor_tick_retries [OF c(1) assms(2)] Suc.prems(1) by simp
  have "\<not> is_closed rt ch (ms_w s1)" using c(2) Suc.prems(2) by (simp add: is_closed_def)
  from Suc.IH [OF _ this, of "Suc k"] show ?case
    using Suc.prems t by (auto simp: tryE_def)
qed

section \<open>A runtime for examples\<close>

definition ex_rt :: "chans Runtime" where
  "ex_rt = \<lparr>rt_chans = (\<lambda>w. w), rt_put = (\<lambda>c _. c), rt_Cleanup = (\<lambda>_ w. w)\<rparr>"

interpretation ex_rt: runtime ex_rt
  by unfold_locales (simp_all add: ex_rt_def)

definition ex_monitor :: monitorChan where
  "ex_monitor = \<lparr>mc_volume = ex_volume ''vol1'', mc_cronCh = 2, mc_monitorCh = 0, mc_cleanupCh = 1\<rparr>"

definition ex_state :: "(chans, monitorChan) man" where
  "ex_state = \<lparr>ms_monitors = [(''vol1'', ex_monitor)], ms_addingReplicas = [], ms_bg = [], ms_w = \<lparr>ch_next = 3, ch_closed = [], ch_gone = []\<rparr>\<rparr>"

text \<open>An orchestrator that cannot stop instances, and one that cannot create replicas.\<close>

definition ex_nostop :: "(chans, monitorChan) volumeManager" where
  "ex_nostop = (ex_man_with (monitor_ops ex_rt))\<lparr>vm_orc := ex_orc\<lparr>orc_StopInstance := (\<lambda>_. fail (Ext ''docker''))\<rparr>\<rparr>"

definition ex_nocreate :: "(chans, monitorChan) volumeManager" where
  "ex_nocreate = (ex_man_with (monitor_ops ex_rt))\<lparr>vm_orc := ex_orc\<lparr>orc_CreateReplica := (\<lambda>_ _. fail (Ext ''docker''))\<rparr>\<rparr>"

text \<open>A controller that has one bad replica and cannot remove it.\<close>

definition ex_stuck :: "'w Controller" where
  "ex_stuck = (ex_ctrl [ex_rw\<lparr>r_Mode := ReplicaModeERR\<rparr>])\<lparr>ct_RemoveReplica := (\<lambda>_. fail (Ext ''engine''))\<rparr>"

definition ex_stuck_err :: gerr where
  "ex_stuck_err = Errs [Wrap (Ext ''engine'') ''failed to remove ERR replica 10.0.0.1'']"

lemma ex_stuck_check: "CheckController (ex_man_with mo) ex_stuck (ex_volume ''vol1'') s = (Err ex_stuck_err, s)"
  by (simp add: CheckController_def ex_defs ex_stuck_def ex_stuck_err_def io_def with_mode_def ex_rw_def together_def run_simps Let_def
    remove_bad_def tryE_def attempt_def wrap_def ex_instance_def)

lemma ex_state_open: "\<not> is_closed ex_rt 0 (ms_w ex_state)"
  by (simp add: is_closed_def ex_rt_def ex_state_def)

section \<open>Properties\<close>

text \<open>C24: a check that keeps failing with an error that is not a controller error is retried: after
  up to three failures the monitor's channel is open and the count is that of the failures;
  the fourth failure closes the channel and detaches the volume.\<close>

theorem monitor_gives_up_at_fourth:
  assumes "runtime rt" and "\<And>s. fst (CheckController man ctrl volume s) = Err e \<and>
      rt_chans rt (ms_w (snd (CheckController man ctrl volume s))) = rt_chans rt (ms_w s)"
    and "ControllerError_Cause e = None" and "\<not> is_closed rt ch (ms_w s)"
  shows "(\<forall>n \<le> 3. \<exists>s'. monitor_loop rt man ctrl volume ch n 0 s = (Ok n, s') \<and> \<not> is_closed rt ch (ms_w s')) \<and>
    (\<exists>s1 s2. monitor_loop rt man ctrl volume ch 3 0 s = (Ok 3, s1) \<and> is_closed rt ch (ms_w s2) \<and>
       monitor_tick rt man ctrl volume ch 3 s1 = attempt (Detach man (v_Name volume)) (\<lambda>_. ret 4) s2)"
proof -
  have loop: "\<exists>s'. monitor_loop rt man ctrl volume ch n 0 s = (Ok n, s') \<and> \<not> is_closed rt ch (ms_w s')" if "n \<le> 3" for n
    using monitor_loop_failing [OF assms(2,3), of 0 n] that assms(4) by simp
  then obtain s1 where s1: "monitor_loop rt man ctrl volume ch 3 0 s = (Ok 3, s1)" "\<not> is_closed rt ch (ms_w s1)" by blast
  obtain s2 where c: "CheckController man ctrl volume s1 = (Err e, s2)" "rt_chans rt (ms_w s2) = rt_chans rt (ms_w s1)"
    using assms(2) [of s1] by (cases "CheckController man ctrl volume s1") auto
  have "\<not> is_closed rt ch (ms_w s2)" using c(2) s1(2) by (simp add: is_closed_def)
  from monitor_tick_closes [OF assms(1) c(1) _ this, where k = 3] show ?thesis
    using loop s1(1) assms(3) by auto
qed

theorem monitor_gives_up_at_fourth_witness:
  "(\<exists>s'. monitor_loop ex_rt (ex_man_with (monitor_ops ex_rt)) ex_stuck (ex_volume ''vol1'') 0 3 0 ex_state = (Ok 3, s') \<and>
      \<not> is_closed ex_rt 0 (ms_w s')) \<and>
   (\<exists>s1 s2. monitor_loop ex_rt (ex_man_with (monitor_ops ex_rt)) ex_stuck (ex_volume ''vol1'') 0 3 0 ex_state = (Ok 3, s1) \<and>
      is_closed ex_rt 0 (ms_w s2) \<and> monitor_tick ex_rt (ex_man_with (monitor_ops ex_rt)) ex_stuck (ex_volume ''vol1'') 0 3 s1 =
        attempt (Detach (ex_man_with (monitor_ops ex_rt)) (v_Name (ex_volume ''vol1''))) (\<lambda>_. ret 4) s2)"
proof -
  have "fst (CheckController (ex_man_with (monitor_ops ex_rt)) ex_stuck (ex_volume ''vol1'') s) = Err ex_stuck_err \<and>
      rt_chans ex_rt (ms_w (snd (CheckController (ex_man_with (monitor_ops ex_rt)) ex_stuck (ex_volume ''vol1'') s))) = rt_chans ex_rt (ms_w s)" for s
    by (simp add: ex_stuck_check)
  moreover have "ControllerError_Cause ex_stuck_err = None" by (simp add: ControllerError_Cause_def ex_stuck_err_def)
  ultimately show ?thesis
    using monitor_gives_up_at_fourth [OF ex_rt.runtime_axioms _ _ ex_state_open] by blast
qed

text \<open>The bad replicas of a check: each is taken from the controller and marked.\<close>

abbreviation drop_bad :: "('w, 'm) volumeManager \<Rightarrow> 'w Controller \<Rightarrow> VolumeInfo \<Rightarrow> ReplicaInfo list \<Rightarrow> (('w, 'm) man, unit) op" where
  "drop_bad man ctrl volume rs \<equiv> together (\<lambda>m. m) (concat (map (remove_bad man ctrl volume) (with_mode ReplicaModeERR rs)))"

lemma CheckController_create_fails:
  assumes "ct_GetReplicaStates ctrl (ms_w s) = (Ok rs, w1)" and "drop_bad man ctrl volume rs (s\<lparr>ms_w := w1\<rparr>) = (Ok (), s1)"
    and "with_mode ReplicaModeRW rs \<noteq> []" and "int (length (with_mode ReplicaModeRW rs)) < v_NumberOfReplicas volume"
    and "with_mode ReplicaModeWO rs = []" and "adding (ms_addingReplicas s1) (v_Name volume) = 0"
    and "GetReplicaName man (v_Name volume) (ms_w s1) = (Ok nm, w2)"
    and "orc_CreateReplica (vm_orc man) (v_Name volume) nm w2 = (Err e, w3) \<or>
      (\<exists>r w. orc_CreateReplica (vm_orc man) (v_Name volume) nm w2 = (Ok (Some r), w) \<and>
         orc_StartInstance (vm_orc man) (r_InstanceInfo r) w = (Err e, w3))"
  shows "\<exists>m s2. CheckController man ctrl volume s = (Err (Wrap e m), s2) \<and> ms_w s2 = w3"
  using assms
  by (auto simp: CheckController_def tryE_def io_def Let_def st_def addingReplicasCount_def createAndAddReplicaToController_def wrap_def)

text \<open>C28: a check that finds a replica missing and cannot create or start a new one is not retried: the
  error was wrapped by \<open>errors.Wrapf\<close>, so that it has a method \<open>Cause\<close> like a controller error, and
  already the first such failure closes the monitor's channel and detaches the volume.\<close>

theorem failed_creation_gives_up:
  assumes "runtime rt" and "ct_GetReplicaStates ctrl (ms_w s) = (Ok rs, w1)" and "drop_bad man ctrl volume rs (s\<lparr>ms_w := w1\<rparr>) = (Ok (), s1)"
    and "with_mode ReplicaModeRW rs \<noteq> []" and "int (length (with_mode ReplicaModeRW rs)) < v_NumberOfReplicas volume"
    and "with_mode ReplicaModeWO rs = []" and "adding (ms_addingReplicas s1) (v_Name volume) = 0"
    and "GetReplicaName man (v_Name volume) (ms_w s1) = (Ok nm, w2)"
    and "orc_CreateReplica (vm_orc man) (v_Name volume) nm w2 = (Err e, w3) \<or>
      (\<exists>r w. orc_CreateReplica (vm_orc man) (v_Name volume) nm w2 = (Ok (Some r), w) \<and>
         orc_StartInstance (vm_orc man) (r_InstanceInfo r) w = (Err e, w3))"
    and "\<not> is_closed rt ch w3"
  shows "\<exists>s2. is_closed rt ch (ms_w s2) \<and>
    monitor_tick rt man ctrl volume ch 0 s = attempt (Detach man (v_Name volume)) (\<lambda>_. ret 0) s2"
proof -
  obtain m s2 where "CheckController man ctrl volume s = (Err (Wrap e m), s2)" "ms_w s2 = w3"
    using CheckController_create_fails [OF assms(2-9)] by blast
  then show ?thesis
    using monitor_tick_closes [OF assms(1), of man ctrl volume s "Wrap e m" s2 0 ch] assms(10) by (simp add: ControllerError_Cause_def)
qed

theorem failed_creation_gives_up_witness:
  "\<exists>s2. is_closed ex_rt 0 (ms_w s2) \<and> monitor_tick ex_rt ex_nocreate (ex_ctrl [ex_rw]) (ex_volume ''vol1'') 0 0 ex_state =
     attempt (Detach ex_nocreate (v_Name (ex_volume ''vol1''))) (\<lambda>_. ret 0) s2"
proof (rule failed_creation_gives_up [OF ex_rt.runtime_axioms])
  let ?w = "ms_w ex_state" and ?n = "v_Name (ex_volume ''vol1'')"
  show "ct_GetReplicaStates (ex_ctrl [ex_rw]) ?w = (Ok [ex_rw], ?w)" by (simp add: ex_ctrl_def ret_def)
  show "drop_bad ex_nocreate (ex_ctrl [ex_rw]) (ex_volume ''vol1'') [ex_rw] (ex_state\<lparr>ms_w := ?w\<rparr>) = (Ok (), ex_state)"
    by (simp add: with_mode_def ex_rw_def together_def run_simps)
  show "GetReplicaName ex_nocreate ?n ?w = (Ok (?n @ ''-replica-'' @ take 18 (fst (env_UUID (vm_env ex_nocreate) ?w))), ?w)"
    by (simp add: GetReplicaName_def RandomID_def ex_nocreate_def ex_defs st_def ret_def)
  show "orc_CreateReplica (vm_orc ex_nocreate) ?n (?n @ ''-replica-'' @ take 18 (fst (env_UUID (vm_env ex_nocreate) ?w))) ?w = (Err (Ext ''docker''), ?w) \<or>
      (\<exists>r w. orc_CreateReplica (vm_orc ex_nocreate) ?n (?n @ ''-replica-'' @ take 18 (fst (env_UUID (vm_env ex_nocreate) ?w))) ?w = (Ok (Some r), w) \<and>
         orc_StartInstance (vm_orc ex_nocreate) (r_InstanceInfo r) w = (Err (Ext ''docker''), ?w))"
    by (simp add: ex_nocreate_def fail_def)
qed (use ex_state_open in \<open>simp_all add: with_mode_def ex_rw_def ex_volume_def adding_def ex_state_def\<close>)

text \<open>C25: when no replica can be read or written and those in error, if any, could be taken from the
  controller and marked, the check detaches the volume, which first closes the monitor's
  channels; when the controller's container then cannot be stopped, the wrapped error makes the
  monitor close its channel a second time, and the manager panics.\<close>

theorem failed_detach_crashes:
  assumes "runtime rt" and "vm_monitor man = monitor_ops rt"
    and "ct_GetReplicaStates ctrl (ms_w s) = (Ok rs, w1)" and "with_mode ReplicaModeRW rs = []"
    and "drop_bad man ctrl volume rs (s\<lparr>ms_w := w1\<rparr>) = (Ok (), s1)"
    and "Manager_Get man (v_Name volume) s1 = (Ok (Some vol), s2)"
    and "map_of (ms_monitors s2) (v_Name vol) = Some mc"
    and "v_Controller vol = Some c" and "i_Running (c_InstanceInfo c)"
    and "orc_StopInstance (vm_orc man) (c_InstanceInfo c) (monitorChan_Close rt mc (ms_w s2)) = (Err e, w3)"
    and "rt_chans rt w3 = rt_chans rt (monitorChan_Close rt mc (ms_w s2))"
  shows "fst (monitor_tick rt man ctrl volume (mc_monitorCh mc) k s) = Panic ''close of closed channel''"
proof -
  let ?s3 = "s2\<lparr>ms_w := w3, ms_monitors := AList.delete (v_Name vol) (ms_monitors s2)\<rparr>"
  have "doDetach man vol s2 = (Err (Wrap e (''error stopping the controller id='' @ i_ID (c_InstanceInfo c))), ?s3)"
    using assms(2,7-10) by (simp add: doDetach_def tryE_def stopMonitoring_def monitor_ops_def io_def wrap_def)
  then have check: "CheckController man ctrl volume s = (Err (Wrap e (''error stopping the controller id='' @ i_ID (c_InstanceInfo c))), ?s3)"
    using assms(3-6) by (simp add: CheckController_def tryE_def io_def Let_def Detach_def)
  have "mc_monitorCh mc \<in> set (ch_closed (rt_chans rt w3))"
    using runtime.Close_closed [OF assms(1), of mc "ms_w s2"] assms(11) by auto
  then show ?thesis
    using check by (simp add: monitor_tick_def attempt_def ControllerError_Cause_def give_up_def tryE_def io_def close_chan_def Let_def)
qed

text \<open>The witness has one replica, in error.\<close>

theorem failed_detach_crashes_witness:
  "fst (monitor_tick ex_rt ex_nostop (ex_ctrl [ex_rw\<lparr>r_Mode := ReplicaModeERR\<rparr>]) (ex_volume ''vol1'') (mc_monitorCh ex_monitor) 0 ex_state) =
     Panic ''close of closed channel''"
proof (rule failed_detach_crashes [where c = "\<lparr>c_InstanceInfo = ex_instance ''vol1'' ''controller'' ''ctrl''\<rparr>" and mc = ex_monitor, OF ex_rt.runtime_axioms])
  let ?vol = "(ex_volume ''vol1'')\<lparr>v_State := volumeState (ex_volume ''vol1''), v_Endpoint := ''/dev/longhorn/vol1''\<rparr>"
  let ?bad = "ex_rw\<lparr>r_Mode := ReplicaModeERR\<rparr>"
  show "Manager_Get ex_nostop (v_Name (ex_volume ''vol1'')) ex_state = (Ok (Some ?vol), ex_state)"
    by (simp add: Manager_Get_def ex_nostop_def ex_defs io_def run_simps tryE_def completeVolumeState_def Let_def controller_running_def
      ex_volume_def ex_instance_def st_def iost_def)
  show "ct_GetReplicaStates (ex_ctrl [?bad]) (ms_w ex_state) = (Ok [?bad], ms_w ex_state)" by (simp add: ex_ctrl_def ret_def)
  show "drop_bad ex_nostop (ex_ctrl [?bad]) (ex_volume ''vol1'') [?bad] (ex_state\<lparr>ms_w := ms_w ex_state\<rparr>) = (Ok (), ex_state)"
    by (simp add: with_mode_def ex_rw_def together_def run_simps remove_bad_def ex_nostop_def ex_defs ex_ctrl_def io_def tryE_def attempt_def)
qed (simp_all add: ex_nostop_def ex_defs with_mode_def ex_rw_def ex_state_def ex_volume_def ex_instance_def fail_def ret_def)

end
