(* ===== verification/CronSpec.thy ===== *)
theory CronSpec
  imports Cron
begin

text \<open>
  Properties of the recurring jobs.  The clean-up loop ends after at most two rounds for every
  number to keep that is not negative, whatever the operations do, and never for a negative
  one.  The locale \<open>retention\<close> is the contract of what it cleans up: a listing in the order of
  creation, where those made at the same time come in any order, and a deletion that removes what it is given.
  Under it a run keeps exactly the newest ones, whether the list was cached or not.

  \<open>snapshot_engine\<close> is what the job relies on of a controller and \<open>longhorn_cli\<close> what the
  controller relies on of the longhorn tool; a sublocale shows that \<open>controller_ops\<close> over the tool
  gives the first from the second.  The contracts speak of the set of snapshots: the tool, and the Go map
  its output is decoded into, may list them in any order.  As every outcome of a sort that is not stable is
  the outcome of a stable sort of the same elements in another order, the statements hold for \<open>sort.Slice\<close>
  as well.  \<open>sr_env\<close> is a tool that keeps the contract, under which the package's own controller runs.
\<close>

section \<open>The loop ends\<close>

lemma outside_fst: "outside m cw = (r, cw') \<Longrightarrow> fst cw' = fst cw"
  by (auto simp: outside_def split: prod.splits)

lemma remove_old_count:
  assumes "remove_old retain del xs cw = (Ok u, cw')" and "ca_cached (fst cw) \<noteq> None" and "cache_list (fst cw) = xs"
  shows "ca_cached (fst cw') \<noteq> None \<and> (ca_count (fst cw') \<le> retain \<or> cache_list (fst cw') = []) \<and>
    ca_count (fst cw') - int (length (cache_list (fst cw'))) = ca_count (fst cw) - int (length xs)"
  using assms
proof (induction xs arbitrary: cw)
  case (Cons x xs)
  show ?case
  proof (cases "ca_count (fst cw) > retain")
    case True
    then obtain w1 where d: "del x (snd cw) = (Ok (), w1)"
      using Cons.prems(1) by (auto simp: tryE_def outside_def split: prod.splits res.splits)
    let ?cw = "(\<lparr>ca_count = ca_count (fst cw) - 1, ca_cached = Some xs\<rparr>, w1)"
    have "remove_old retain del xs ?cw = (Ok u, cw')"
      using Cons.prems(1) True d by (simp add: tryE_def outside_def update_cache_def)
    from Cons.IH [OF this] show ?thesis by (simp add: cache_list_def)
  qed (use Cons.prems in \<open>auto simp: ret_def\<close>)
qed (auto simp: ret_def)

text \<open>After a round that returned there is a list; it is used up or the count is low enough, and when
  the list was read in this round the count is its length.\<close>

lemma cleanup_round_Ok:
  assumes "cleanup_round retain listing del after cw = (Ok u, cw')"
  shows "ca_cached (fst cw') \<noteq> None" and "ca_count (fst cw') \<le> retain \<or> cache_list (fst cw') = []"
    and "cache_list (fst cw) = [] \<Longrightarrow> ca_count (fst cw') = int (length (cache_list (fst cw')))"
proof -
  obtain cw1 where l: "(if cache_list (fst cw) = []
        then tryE (outside listing) id (\<lambda>xs. update_cache (\<lambda>c. \<lparr>ca_count = int (length xs), ca_cached = Some xs\<rparr>)) cw
        else ret () cw) = (Ok (), cw1)"
      and r: "tryE (remove_old retain del (cache_list (fst cw1))) id (\<lambda>_. outside after) cw1 = (Ok u, cw')"
    using assms unfolding cleanup_round_def tryE_Ok_iff by (auto simp: tryE_Ok_iff)
  then obtain cw2 u2 where r2: "remove_old retain del (cache_list (fst cw1)) cw1 = (Ok u2, cw2)" and a: "fst cw' = fst cw2"
    unfolding tryE_Ok_iff by (auto dest: outside_fst)
  have c1: "ca_cached (fst cw1) \<noteq> None \<and> (cache_list (fst cw) = [] \<longrightarrow> ca_count (fst cw1) = int (length (cache_list (fst cw1))))"
    using l by (auto simp: tryE_Ok_iff update_cache_def ret_def cache_list_def split: if_splits option.splits)
  note c2 = remove_old_count [OF r2 conjunct1 [OF c1] refl]
  show "ca_cached (fst cw') \<noteq> None" "ca_count (fst cw') \<le> retain \<or> cache_list (fst cw') = []"
    "cache_list (fst cw) = [] \<Longrightarrow> ca_count (fst cw') = int (length (cache_list (fst cw')))"
    using c1 c2 by (auto simp: a)
qed

lemma cleanup_loop_exit:
  "ca_cached (fst cw) \<noteq> None \<Longrightarrow> ca_count (fst cw) \<le> retain \<Longrightarrow> cleanup_loop (Suc n) retain listing del after cw = Some (Ok (), cw)"
  by auto

lemma cleanup_loop_fresh:
  assumes "0 \<le> retain" and "cache_list (fst cw) = []"
  shows "\<exists>r. cleanup_loop (Suc (Suc n)) retain listing del after cw = Some r"
proof -
  obtain q cw' where q: "cleanup_round retain listing del after cw = (q, cw')" by (rule prod.exhaust)
  show ?thesis
  proof (cases q)
    case (Ok u)
    then have "ca_cached (fst cw') \<noteq> None" "ca_count (fst cw') \<le> retain"
      using cleanup_round_Ok [of retain listing del after cw u cw'] q assms by auto
    then show ?thesis using q Ok cleanup_loop_exit [of cw' retain n] by (cases "ca_cached (fst cw) = None \<or> ca_count (fst cw) > retain") auto
  qed (use q in auto)
qed

lemma cleanup_loop_ends:
  assumes "0 \<le> retain"
  shows "\<exists>r. cleanup_loop (Suc (Suc (Suc n))) retain listing del after cw = Some r"
proof (cases "cache_list (fst cw) = []")
  case False
  obtain q cw' where q: "cleanup_round retain listing del after cw = (q, cw')" by (rule prod.exhaust)
  show ?thesis
  proof (cases q)
    case (Ok u)
    then have c: "ca_cached (fst cw') \<noteq> None" "ca_count (fst cw') \<le> retain \<or> cache_list (fst cw') = []"
      using cleanup_round_Ok [of retain listing del after cw u cw'] q by auto
    have "\<exists>r. cleanup_loop (Suc (Suc n)) retain listing del after cw' = Some r"
      using c(2) cleanup_loop_fresh [OF assms] cleanup_loop_exit [OF c(1), of retain "Suc n"] by blast
    then show ?thesis using q Ok by (simp only: cleanup_loop.simps(2) [of "Suc (Suc n)"]) auto
  qed (use q in auto)
qed (rule cleanup_loop_fresh [OF assms])

text \<open>A round with a negative number to keep deletes everything it listed and leaves an empty list.\<close>

lemma remove_old_all:
  assumes "retain < 0" and "\<And>x w. fst (del x w) = Ok ()" and "cache_list c = xs" and "ca_cached c \<noteq> None"
    and "int (length xs) \<le> ca_count c"
  shows "\<exists>c' w'. remove_old retain del xs (c, w) = (Ok (), c', w') \<and> cache_list c' = [] \<and> 0 \<le> ca_count c' \<and> ca_cached c' \<noteq> None"
  using assms(3-5)
proof (induction xs arbitrary: c w)
  case (Cons x xs)
  obtain w1 where d: "del x w = (Ok (), w1)" using assms(2) [of x w] by (cases "del x w") simp
  let ?c = "\<lparr>ca_count = ca_count c - 1, ca_cached = Some xs\<rparr>"
  have r: "remove_old retain del (x # xs) (c, w) = remove_old retain del xs (?c, w1)"
    using assms(1) Cons.prems d by (auto simp: tryE_def outside_def update_cache_def)
  have "cache_list ?c = xs" "ca_cached ?c \<noteq> None" "int (length xs) \<le> ca_count ?c"
    using Cons.prems(3) by (simp_all add: cache_list_def)
  from Cons.IH [where w = w1, OF this] show ?case unfolding r .
qed (auto simp: ret_def)

lemma cleanup_loop_diverges:
  assumes neg: "retain < 0" and l: "\<And>w. \<exists>xs. fst (listing w) = Ok xs" and d: "\<And>x w. fst (del x w) = Ok ()" and a: "\<And>w. fst (after w) = Ok ()"
    and c: "cache_list c = []" "0 \<le> ca_count c \<or> ca_cached c = None"
  shows "cleanup_loop n retain listing del after (c, w) = None"
  using c
proof (induction n arbitrary: c w)
  case (Suc n)
  obtain xs w1 where w1: "listing w = (Ok xs, w1)" using l [of w] by (cases "listing w") auto
  let ?c = "\<lparr>ca_count = int (length xs), ca_cached = Some xs\<rparr>"
  have "cache_list ?c = xs" "ca_cached ?c \<noteq> None" "int (length xs) \<le> ca_count ?c" by (simp_all add: cache_list_def)
  from remove_old_all [where w = w1 and del = del, OF neg d this] obtain c' w2 where
    r: "remove_old retain del xs (?c, w1) = (Ok (), c', w2)" "cache_list c' = []" "0 \<le> ca_count c'" by blast
  obtain w3 where w3: "after w2 = (Ok (), w3)" using a [of w2] by (cases "after w2") simp
  have "cleanup_round retain listing del after (c, w) = (Ok (), c', w3)"
    using Suc.prems(1) w1 r(1) w3 by (simp add: cleanup_round_def tryE_def outside_def update_cache_def cache_list_def [of ?c])
  then show ?case using Suc.IH [OF r(2) disjI1 [OF r(3)], of w3] Suc.prems(2) neg by auto
qed simp




section \<open>What a clean-up keeps\<close>

text \<open>Of \<open>A\<close> the oldest are gone and \<open>B\<close> is left: no one that is gone is newer than one that is left.\<close>

definition oldest_gone :: "('x \<Rightarrow> 'k :: linorder) \<Rightarrow> 'x set \<Rightarrow> 'x set \<Rightarrow> bool" where
  "oldest_gone key A B \<longleftrightarrow> B \<subseteq> A \<and> (\<forall>x \<in> A - B. \<forall>y \<in> B. key x \<le> key y)"

lemma oldest_gone_refl [simp]: "oldest_gone key A A"
  by (simp add: oldest_gone_def)

lemma oldest_gone_trans: "oldest_gone key A B \<Longrightarrow> oldest_gone key B C \<Longrightarrow> oldest_gone key A C"
  unfolding oldest_gone_def by blast

text \<open>A cache fits when there is none, or when it holds the oldest ones in order and the count is right.\<close>

definition fits :: "('x \<Rightarrow> 'k :: linorder) \<Rightarrow> ('w \<Rightarrow> 'x set) \<Rightarrow> 'x cache \<Rightarrow> 'w \<Rightarrow> bool" where
  "fits key items c w \<longleftrightarrow> ca_cached c = None \<or>
     (distinct (cache_list c) \<and> sorted (map key (cache_list c)) \<and> set (cache_list c) \<subseteq> items w \<and>
      (\<forall>x \<in> set (cache_list c). \<forall>y \<in> items w - set (cache_list c). key x \<le> key y) \<and> ca_count c = int (card (items w)))"

lemma fits_same: "fits key items c w \<Longrightarrow> items w' = items w \<Longrightarrow> fits key items c w'"
  by (simp add: fits_def)

lemma fits_next:
  assumes "finite (items w)" and "ca_cached c = Some (x # xs)" and "fits key items c w" and "items w' = items w - {x}"
  shows "fits key items \<lparr>ca_count = ca_count c - 1, ca_cached = Some xs\<rparr> w' \<and> oldest_gone key (items w) (items w') \<and> x \<in> items w"
proof -
  have f: "distinct (x # xs)" "sorted (map key (x # xs))" "set (x # xs) \<subseteq> items w" "ca_count c = int (card (items w))"
    "\<forall>a \<in> set (x # xs). \<forall>y \<in> items w - set (x # xs). key a \<le> key y"
    using assms(2,3) by (auto simp: fits_def cache_list_def)
  have x: "x \<in> items w" using f(3) by simp
  then have "0 < card (items w)" using assms(1) by (auto simp: card_gt_0_iff)
  then have "ca_count c - 1 = int (card (items w'))" using assms(1,4) x f(4) by simp
  moreover have "key x \<le> key y" if "y \<in> items w - {x}" for y
    using that f(2,5) by (cases "y \<in> set xs") auto
  then have "oldest_gone key (items w) (items w')" using assms(4) by (auto simp: oldest_gone_def)
  moreover have "distinct xs" "sorted (map key xs)" "set xs \<subseteq> items w'" using f(1-3) assms(4) by auto
  moreover have "\<forall>a \<in> set xs. \<forall>y \<in> items w' - set xs. key a \<le> key y" using f(5) assms(4) by simp
  ultimately show ?thesis using x by (simp add: fits_def cache_list_def)
qed

text \<open>The contract of what is cleaned up: a listing in the order of \<open>key\<close>, equal ones in any order,
  and a deletion that removes what it is given.  An operation that fails leaves the world \<open>safe\<close>.\<close>

locale retention =
  fixes listing :: "('w, 'x list) op" and del :: "'x \<Rightarrow> ('w, unit) op" and after :: "('w, unit) op"
    and items :: "'w \<Rightarrow> 'x set" and key :: "'x \<Rightarrow> 'k :: linorder" and inv safe :: "'w \<Rightarrow> bool"
  assumes finite_items: "inv w \<Longrightarrow> finite (items w)"
    and list: "inv w \<Longrightarrow> wp listing (\<lambda>xs w'. inv w' \<and> items w' = items w \<and> distinct xs \<and> set xs = items w \<and> sorted (map key xs)) (\<lambda>_. safe) w"
    and del: "inv w \<Longrightarrow> x \<in> items w \<Longrightarrow> wp (del x) (\<lambda>_ w'. inv w' \<and> items w' = items w - {x}) (\<lambda>_. safe) w"
    and after: "inv w \<Longrightarrow> wp after (\<lambda>_ w'. inv w' \<and> items w' = items w) (\<lambda>_. safe) w"
begin

lemma wp_state_if: "wp (\<lambda>s. if c s then m s else n s) Q E s = (if c s then wp m Q E s else wp n Q E s)"
  by (simp add: wp_def)

lemma wp_outside: "wp (outside m) Q E cw = wp m (\<lambda>a w'. Q a (fst cw, w')) (\<lambda>e w'. E e (fst cw, w')) (snd cw)"
  by (simp add: wp_def outside_def Let_def split: prod.split)

lemma wp_update_cache: "wp (update_cache f) Q E cw = Q () (f (fst cw), snd cw)"
  by (simp add: wp_def update_cache_def)

text \<open>A step of the clean-up from \<open>w\<close>: only oldest ones are gone, and never more than there are too many.\<close>

abbreviation trimmed :: "int \<Rightarrow> 'w \<Rightarrow> 'x cache \<times> 'w \<Rightarrow> bool" where
  "trimmed retain w cw' \<equiv> inv (snd cw') \<and> ca_cached (fst cw') \<noteq> None \<and> fits key items (fst cw') (snd cw') \<and>
     oldest_gone key (items w) (items (snd cw')) \<and> min (int (card (items w))) retain \<le> int (card (items (snd cw')))"

lemma remove_old_wp:
  assumes "inv w" and "ca_cached c = Some xs" and "fits key items c w"
  shows "wp (remove_old retain del xs) (\<lambda>_. trimmed retain w) (\<lambda>_ cw'. safe (snd cw')) (c, w)"
  using assms
proof (induction xs arbitrary: c w)
  case Nil
  then show ?case by (simp add: wp_simps)
next
  case (Cons x xs)
  show ?case
  proof (cases "ca_count c > retain")
    case True
    let ?c = "\<lparr>ca_count = ca_count c - 1, ca_cached = Some xs\<rparr>"
    have n: "ca_count c = int (card (items w))" using Cons.prems(2,3) by (simp add: fits_def)
    have x: "x \<in> items w" using fits_next [of items w c x xs key "w"] Cons.prems(2,3) by (auto simp: fits_def cache_list_def)
    have "wp (remove_old retain del xs) (\<lambda>_. trimmed retain w) (\<lambda>_ cw'. safe (snd cw')) (?c, w1)"
      if w1: "inv w1 \<and> items w1 = items w - {x}" for w1
    proof -
      note fn = fits_next [OF finite_items [OF Cons.prems(1)] Cons.prems(2,3), of w1]
      have "wp (remove_old retain del xs) (\<lambda>_. trimmed retain w1) (\<lambda>_ cw'. safe (snd cw')) (?c, w1)"
        by (rule Cons.IH) (use w1 fn in auto)
      moreover have "min (int (card (items w))) retain \<le> min (int (card (items w1))) retain"
        using True n w1 x finite_items [OF Cons.prems(1)] by simp
      moreover have "oldest_gone key (items w) (items w1)" using fn w1 by blast
      ultimately show ?thesis
        using oldest_gone_trans [of key "items w" "items w1"] by (elim wp_mono) (blast intro: order_trans)+
    qed
    then show ?thesis
      unfolding remove_old.simps
      by (simp only: wp_state_if fst_conv True if_True wp_tryE wp_outside wp_update_cache snd_conv id_apply)
        (rule wp_mono [OF del [OF Cons.prems(1) x]])
  next
    case False
    then show ?thesis using Cons.prems by (auto simp: wp_def ret_def)
  qed
qed

lemma cleanup_round_wp:
  assumes "inv w" and "fits key items c w"
  shows "wp (cleanup_round retain listing del after) (\<lambda>_. trimmed retain w) (\<lambda>_ cw'. safe (snd cw')) (c, w)"
proof -
  have rm: "wp (tryE (\<lambda>cw. remove_old retain del (cache_list (fst cw)) cw) id (\<lambda>_. outside after)) (\<lambda>_. trimmed retain w) (\<lambda>_ cw'. safe (snd cw')) (c1, w1)"
    if "inv w1" "items w1 = items w" "ca_cached c1 \<noteq> None" "fits key items c1 w1" for c1 w1
  proof -
    have "wp (remove_old retain del (cache_list c1)) (\<lambda>_. trimmed retain w1) (\<lambda>_ cw'. safe (snd cw')) (c1, w1)"
      by (rule remove_old_wp) (use that in \<open>auto simp: cache_list_def\<close>)
    then have "wp (\<lambda>cw. remove_old retain del (cache_list (fst cw)) cw) (\<lambda>_. trimmed retain w) (\<lambda>_ cw'. safe (snd cw')) (c1, w1)"
      using that(2) by (auto simp: wp_def split: res.splits prod.splits)
    then show ?thesis
    proof (rule wp_step, goal_cases)
      case (1 u cw2)
      then have i: "inv (snd cw2)" by simp
      show ?case unfolding wp_outside by (rule wp_mono [OF after [OF i]]) (use 1 fits_same in auto)
    qed simp
  qed
  let ?read = "\<lambda>_ cw1. inv (snd cw1) \<and> items (snd cw1) = items w \<and> ca_cached (fst cw1) \<noteq> None \<and> fits key items (fst cw1) (snd cw1)"
  have read: "wp (tryE (outside listing) id (\<lambda>xs. update_cache (\<lambda>c. \<lparr>ca_count = int (length xs), ca_cached = Some xs\<rparr>)))
      ?read (\<lambda>_ cw'. safe (snd cw')) (c, w)"
    unfolding wp_tryE wp_outside wp_update_cache snd_conv fst_conv
    by (rule wp_mono [OF list [OF assms(1)]]) (auto simp: fits_def cache_list_def distinct_card [symmetric])
  have "wp (\<lambda>cw. if cache_list (fst cw) = []
      then tryE (outside listing) id (\<lambda>xs. update_cache (\<lambda>c. \<lparr>ca_count = int (length xs), ca_cached = Some xs\<rparr>)) cw
      else ret () cw) ?read (\<lambda>_ cw'. safe (snd cw')) (c, w)"
  proof (cases "cache_list c = []")
    case False
    then show ?thesis using assms by (auto simp: wp_def ret_def cache_list_def split: option.splits)
  qed (use read in \<open>simp add: wp_def\<close>)
  then show ?thesis
    unfolding cleanup_round_def
  proof (rule wp_step, goal_cases)
    case (1 u cw1)
    then show ?case using rm [of "snd cw1" "fst cw1"] by simp
  qed simp
qed

text \<open>The loop keeps the newest ones.\<close>

lemma cleanup_loop_keeps:
  assumes "inv w" and "fits key items c w" and "cleanup_loop n retain listing del after (c, w) = Some (r, c', w')" and "0 \<le> retain"
  shows "case r of
      Ok _ \<Rightarrow> inv w' \<and> fits key items c' w' \<and> oldest_gone key (items w) (items w') \<and> int (card (items w')) = min (int (card (items w))) retain
    | Err _ \<Rightarrow> safe w'
    | Panic _ \<Rightarrow> False"
  using assms(1-3)
proof (induction n arbitrary: c w)
  case (Suc n)
  show ?case
  proof (cases "ca_cached c = None \<or> ca_count c > retain")
    case True
    obtain q c1 w1 where q: "cleanup_round retain listing del after (c, w) = (q, c1, w1)" by (metis prod.exhaust)
    note rd = cleanup_round_wp [OF Suc.prems(1,2), of retain, unfolded wp_def q]
    show ?thesis
    proof (cases q)
      case (Ok u)
      then have k: "inv w1" "fits key items c1 w1" "oldest_gone key (items w) (items w1)" "min (int (card (items w))) retain \<le> int (card (items w1))"
        using rd by auto
      have "card (items w1) \<le> card (items w)"
        using k(3) finite_items [OF Suc.prems(1)] by (auto simp: oldest_gone_def intro: card_mono)
      then have m: "min (int (card (items w1))) retain = min (int (card (items w))) retain" using k(4) by auto
      have "cleanup_loop n retain listing del after (c1, w1) = Some (r, c', w')" using Suc.prems(3) True q Ok by simp
      from Suc.IH [OF k(1,2) this] show ?thesis
        using oldest_gone_trans [OF k(3)] m by (auto split: res.splits)
    next
      case (Err e)
      then show ?thesis using rd Suc.prems(3) True q by auto
    next
      case (Panic m)
      then show ?thesis using rd by simp
    qed
  next
    case False
    then show ?thesis using Suc.prems by (auto simp: fits_def)
  qed
qed simp

end

section \<open>Snapshots\<close>

lemma keep_snapshots_eq: "keep_snapshots P (map Some ss) r = Ok (r @ filter P ss)"
  by (induction ss arbitrary: r) auto

text \<open>The engine's snapshots as a controller gives them: those not removed are \<open>snaps\<close>, under different
  names; a listing has them in any order; a new one is not older than any there is.\<close>

locale snapshot_engine =
  fixes ctrl :: "'w Controller" and snaps :: "'w \<Rightarrow> SnapshotInfo set" and inv :: "'w \<Rightarrow> bool"
  assumes snaps_ok: "inv w \<Longrightarrow> finite (snaps w) \<and> inj_on sn_Name (snaps w) \<and> (\<forall>s \<in> snaps w. \<not> sn_Removed s)"
    and list: "inv w \<Longrightarrow> wp (ct_List ctrl) (\<lambda>l w'. inv w' \<and> snaps w' = snaps w \<and>
      (\<exists>ss. l = map Some ss \<and> distinct ss \<and> {s \<in> set ss. \<not> sn_Removed s} = snaps w)) (\<lambda>_. inv) w"
    and delete: "inv w \<Longrightarrow> wp (ct_Delete ctrl n) (\<lambda>_ w'. inv w' \<and> snaps w' = {s \<in> snaps w. sn_Name s \<noteq> n}) (\<lambda>_. inv) w"
    and purge: "inv w \<Longrightarrow> wp (ct_Purge ctrl) (\<lambda>_ w'. inv w' \<and> snaps w' = snaps w) (\<lambda>_. inv) w"
    and create: "inv w \<Longrightarrow> \<forall>(k, v) \<in> set ls. CHR ''='' \<notin> set k \<Longrightarrow> wp (ct_Create ctrl n ls) (\<lambda>_ w'. inv w' \<and>
      (\<exists>s. s \<notin> snaps w \<and> snaps w' = insert s (snaps w) \<and> sn_Name s = n \<and> map_of (sn_Labels s) = map_of ls \<and>
        (\<forall>t \<in> snaps w. sn_Created t \<le> sn_Created s))) (\<lambda>_. inv) w"
begin

text \<open>A good engine on which the snapshots that are not of a job are \<open>X\<close>.\<close>

abbreviation others :: "(SnapshotInfo \<Rightarrow> bool) \<Rightarrow> SnapshotInfo set \<Rightarrow> 'w \<Rightarrow> bool" where
  "others P X w \<equiv> inv w \<and> {s \<in> snaps w. \<not> P s} = X"

lemma list_sorted_wp:
  assumes "others P X w" and f: "\<And>l. flt l = keep_snapshots (\<lambda>s. \<not> sn_Removed s \<and> P s) l []"
  shows "wp (list_sorted ctrl flt) (\<lambda>xs w'. others P X w' \<and> {s \<in> snaps w'. P s} = {s \<in> snaps w. P s} \<and> distinct xs \<and>
    set xs = {s \<in> snaps w. P s} \<and> sorted (map sn_Created xs)) (\<lambda>_. inv) w"
  unfolding list_sorted_def
proof (rule wp_step [OF list [OF conjunct1 [OF assms(1)]]], goal_cases)
  case (1 l w1)
  then obtain ss where ss: "l = map Some ss" "distinct ss" "{s \<in> set ss. \<not> sn_Removed s} = snaps w" by blast
  have "{s \<in> set ss. \<not> sn_Removed s \<and> P s} = {s \<in> snaps w. P s}" using ss(3) by blast
  then show ?case using 1 assms(1) ss(2) by (simp add: f ss(1) keep_snapshots_eq wp_ret)
qed simp

lemma delete_one:
  assumes "others P X w" and "x \<in> {s \<in> snaps w. P s}"
  shows "wp (tryE (ct_Delete ctrl (sn_Name x)) h ret) (\<lambda>_ w'. others P X w' \<and> {s \<in> snaps w'. P s} = {s \<in> snaps w. P s} - {x}) (\<lambda>_. inv) w"
  unfolding wp_tryE_ret
proof (rule wp_mono [OF delete [OF conjunct1 [OF assms(1)]]], goal_cases)
  case (1 u w1)
  have "inj_on sn_Name (snaps w)" using snaps_ok assms(1) by blast
  then have "snaps w1 = snaps w - {x}" using 1 assms(2) by (auto dest: inj_onD)
  then show ?case using 1 assms by auto
qed simp

end

sublocale snapshot_engine \<subseteq> purged: retention
    "tryE (list_sorted ctrl (\<lambda>l. keep_snapshots (\<lambda>s. \<not> sn_Removed s \<and> P s) l [])) (wrap m1) ret"
    "\<lambda>x. tryE (ct_Delete ctrl (sn_Name x)) (wrap (m2 @ sn_Name x)) ret"
    "tryE (ct_Purge ctrl) (wrap m3) ret" "\<lambda>w. {s \<in> snaps w. P s}" sn_Created "others P X" inv for P m1 m2 m3 X
proof (unfold_locales, goal_cases)
  case (1 w)
  then show ?case using snaps_ok by simp
next
  case (2 w)
  then show ?case using list_sorted_wp [of w P X] by (simp add: wp_tryE_ret)
next
  case (3 w x)
  then show ?case by (rule delete_one)
next
  case (4 w)
  then show ?case using purge [of w] by (auto simp: wp_tryE_ret elim!: wp_mono)
qed

text \<open>A runner of the job, with a clock and random numbers that leave the engine alone.\<close>

locale snapshot_job = snapshot_engine ctrl snaps inv
  for ctrl :: "'w Controller" and snaps inv +
  fixes env :: "'w Env" and runner :: "'w jobRunner"
  assumes runner: "jr_ctrl runner = ctrl"
    and now: "inv w \<Longrightarrow> inv (snd (env_Now env w)) \<and> snaps (snd (env_Now env w)) = snaps w"
    and uuid: "inv w \<Longrightarrow> inv (snd (env_UUID env w)) \<and> snaps (snd (env_UUID env w)) = snaps w \<and> 18 \<le> length (fst (env_UUID env w))"
begin

lemma snapName_wp:
  assumes "inv w" and "\<And>n w'. inv w' \<Longrightarrow> snaps w' = snaps w \<Longrightarrow> wp (k n) Q E w'"
  shows "wp (snapName env name k) Q E w"
proof -
  have i: "inv (snd (env_Now env w))" "snaps (snd (env_Now env w)) = snaps w" using now [OF assms(1)] by auto
  show ?thesis
    using uuid [OF i(1)] i(2) assms(2) by (auto simp: snapName_def RandomID_def wp_st wp_if not_less)
qed

lemma create_newest:
  assumes "inv w" and "\<forall>(k, v) \<in> set ls. CHR ''='' \<notin> set k"
  shows "wp (snapName env name (\<lambda>n. tryE (ct_Create ctrl n ls) (h n) ret))
    (\<lambda>_ w'. inv w' \<and> (\<exists>s. s \<notin> snaps w \<and> snaps w' = insert s (snaps w) \<and> map_of (sn_Labels s) = map_of ls \<and>
       (\<forall>t \<in> snaps w. sn_Created t \<le> sn_Created s))) (\<lambda>_. inv) w"
proof (rule snapName_wp [OF assms(1)])
  fix n w1 assume w1: "inv w1" "snaps w1 = snaps w"
  show "wp (tryE (ct_Create ctrl n ls) (h n) ret)
    (\<lambda>_ w'. inv w' \<and> (\<exists>s. s \<notin> snaps w \<and> snaps w' = insert s (snaps w) \<and> map_of (sn_Labels s) = map_of ls \<and>
       (\<forall>t \<in> snaps w. sn_Created t \<le> sn_Created s))) (\<lambda>_. inv) w1"
    unfolding wp_tryE_ret by (rule wp_mono [OF create [OF w1(1) assms(2)]]) (use w1(2) in auto)
qed

lemma fits_counted:
  assumes "fits key items c w" and "items w' = insert s (items w)" and "s \<notin> items w" and "finite (items w)" and "\<forall>t \<in> items w. key t \<le> key s"
  shows "fits key items (fst (counted (c, w'))) w'"
  using assms by (auto simp: fits_def counted_def cache_list_def)


lemma snapshotTask_Run_keeps:
  fixes job n
  defines "P \<equiv> \<lambda>s. label_is s JobName (j_Name job)"
  assumes "0 < j_Retain job" and "inv w" and "fits sn_Created (\<lambda>w. {s \<in> snaps w. P s}) c w"
  shows "\<exists>r c' w'. snapshotTask_Run (Suc (Suc (Suc n))) env runner job (c, w) = Some (r, c', w') \<and>
    (case r of
       Ok _ \<Rightarrow> inv w' \<and> fits sn_Created (\<lambda>w. {s \<in> snaps w. P s}) c' w' \<and> {s \<in> snaps w'. \<not> P s} = {s \<in> snaps w. \<not> P s} \<and>
         (\<exists>s. s \<notin> snaps w \<and> P s \<and> (\<forall>t \<in> snaps w. sn_Created t \<le> sn_Created s) \<and>
           oldest_gone sn_Created (insert s {s \<in> snaps w. P s}) {s \<in> snaps w'. P s} \<and>
           int (card {s \<in> snaps w'. P s}) = min (int (card {s \<in> snaps w. P s}) + 1) (j_Retain job))
     | Err _ \<Rightarrow> inv w'
     | Panic _ \<Rightarrow> False)"
proof -
  let ?items = "\<lambda>w. {s \<in> snaps w. P s}" and ?X = "{s \<in> snaps w. \<not> P s}"
  let ?create = "snapName env (j_Name job) (\<lambda>name. tryE (ct_Create ctrl name [(JobName, j_Name job)])
      (wrap (''error running recurring job: snapshot '' @ name)) ret)"
  have cr: "wp ?create (\<lambda>_ w'. inv w' \<and> (\<exists>s. s \<notin> snaps w \<and> snaps w' = insert s (snaps w) \<and> map_of (sn_Labels s) = map_of [(JobName, j_Name job)] \<and>
      (\<forall>t \<in> snaps w. sn_Created t \<le> sn_Created s))) (\<lambda>_. inv) w"
    by (rule create_newest [OF assms(3)]) simp
  obtain q w1 where q: "?create w = (q, w1)" by fastforce
  have run: "snapshotTask_Run (Suc (Suc (Suc n))) env runner job (c, w) = (case q of
      Ok _ \<Rightarrow> snapshotTask_cleanup (Suc (Suc (Suc n))) runner job (c, w1) | Err e \<Rightarrow> Some (Err e, c, w1) | Panic m \<Rightarrow> Some (Panic m, c, w1))"
    using q by (simp add: snapshotTask_Run_def outside_def runner split: res.split)
  show ?thesis
  proof (cases q)
    case (Ok u)
    then obtain s where s: "inv w1" "s \<notin> snaps w" "snaps w1 = insert s (snaps w)" "map_of (sn_Labels s) = map_of [(JobName, j_Name job)]"
        "\<forall>t \<in> snaps w. sn_Created t \<le> sn_Created s"
      using cr q by (auto simp: wp_def)
    have P: "P s" by (simp add: P_def label_is_def s(4))
    then have i: "?items w1 = insert s (?items w)" "{s \<in> snaps w1. \<not> P s} = ?X" "s \<notin> ?items w" using s(2,3) by auto
    have fin: "finite (?items w)" using snaps_ok [OF assms(3)] by simp
    let ?listing = "tryE (list_sorted ctrl (\<lambda>l. keep_snapshots (\<lambda>s. \<not> sn_Removed s \<and> P s) l [])) (wrap ''error cleaning up snapshots'') ret"
    let ?del = "\<lambda>x. tryE (ct_Delete ctrl (sn_Name x)) (wrap (''deleting snapshot '' @ sn_Name x)) ret"
    let ?after = "tryE (ct_Purge ctrl) (wrap ''fail to purge snapshots'') ret"
    have e: "snapshotTask_cleanup (Suc (Suc (Suc n))) runner job (c, w1) =
        cleanup_loop (Suc (Suc (Suc n))) (j_Retain job) ?listing ?del ?after (fst (counted (c, w1)), w1)"
      using assms(2) unfolding snapshotTask_cleanup_def snapshotTask_listSnapshots_def snapshotTask_filterSnapshots_def [abs_def] runner P_def
      by (simp add: counted_def)
    have "0 \<le> j_Retain job" using assms(2) by simp
    from cleanup_loop_ends [OF this] obtain x where
      "cleanup_loop (Suc (Suc (Suc n))) (j_Retain job) ?listing ?del ?after (fst (counted (c, w1)), w1) = Some x" by blast
    then obtain r c' w' where r: "cleanup_loop (Suc (Suc (Suc n))) (j_Retain job) ?listing ?del ?after (fst (counted (c, w1)), w1) = Some (r, c', w')"
      by (cases x) auto
    have f: "fits sn_Created ?items (fst (counted (c, w1))) w1"
      by (rule fits_counted [where items = ?items, OF assms(4) i(1,3) fin]) (use s(5) in simp)
    have "case r of Ok _ \<Rightarrow> others P ?X w' \<and> fits sn_Created ?items c' w' \<and> oldest_gone sn_Created (?items w1) (?items w') \<and>
          int (card (?items w')) = min (int (card (?items w1))) (j_Retain job)
        | Err _ \<Rightarrow> inv w' | Panic _ \<Rightarrow> False"
      by (rule purged.cleanup_loop_keeps [OF _ f r \<open>0 \<le> j_Retain job\<close>]) (use s(1) i(2) in simp)
    then show ?thesis
      using run e r Ok s(2,5) P i fin by (auto split: res.splits simp: add.commute)
  next
    case (Err e)
    then show ?thesis using run cr q by (auto simp: wp_def)
  next
    case (Panic m)
    then show ?thesis using cr q by (simp add: wp_def)
  qed
qed

end

section \<open>The longhorn tool\<close>

text \<open>What the commands of the tool do that the controller runs: a snapshot is created under a new name and
  with the labels that are given, \<open>snapshot rm\<close> marks one removed, and \<open>snapshot info\<close>
  prints the snapshots by name, in any order.  A command that fails, or is stopped by its
  time-out, leaves a good engine.\<close>

locale longhorn_cli =
  fixes env :: "'w Env" and c :: controller and snaps :: "'w \<Rightarrow> SnapshotInfo set" and inv :: "'w \<Rightarrow> bool"
  assumes cli_snaps: "inv w \<Longrightarrow> finite (snaps w) \<and> inj_on sn_Name (snaps w) \<and> (\<forall>s \<in> snaps w. \<not> sn_Removed s)"
    and cli_create: "\<lbrakk>inv w; \<forall>(k, v) \<in> set ls. CHR ''='' \<notin> set k; env_Exec env cmdTimeout ''longhorn'' ([''--url'', co_url c, ''snapshot'', ''create''] @
        concat (map (\<lambda>(k, v). [''--label'', k @ ''='' @ v]) ls) @ [n]) w = (r, w')\<rbrakk> \<Longrightarrow> inv w' \<and>
      (\<forall>out. r = Done out None \<longrightarrow> (\<exists>s. s \<notin> snaps w \<and> snaps w' = insert s (snaps w) \<and> sn_Name s = n \<and> map_of (sn_Labels s) = map_of ls \<and>
        (\<forall>t \<in> snaps w. sn_Created t \<le> sn_Created s)))"
    and cli_rm: "\<lbrakk>inv w; env_Exec env cmdTimeout ''longhorn'' [''--url'', co_url c, ''snapshot'', ''rm'', n] w = (r, w')\<rbrakk> \<Longrightarrow> inv w' \<and>
      (\<forall>out. r = Done out None \<longrightarrow> snaps w' = {s \<in> snaps w. sn_Name s \<noteq> n})"
    and cli_purge: "\<lbrakk>inv w; env_Exec env cmdTimeout ''longhorn'' [''--url'', co_url c, ''snapshot'', ''purge''] w = (r, w')\<rbrakk> \<Longrightarrow> inv w' \<and>
      (\<forall>out. r = Done out None \<longrightarrow> snaps w' = snaps w)"
    and cli_info: "\<lbrakk>inv w; env_Proc env [''longhorn'', ''--url'', co_url c, ''snapshot'', ''info''] w = (pr, w')\<rbrakk> \<Longrightarrow> inv w' \<and> snaps w' = snaps w \<and>
      (\<forall>dt. pr_start pr = None \<longrightarrow> Option.bind (pr_json pr) (dec_map dec_SnapshotPtr) = Some dt \<longrightarrow>
        (\<exists>ss. AList.delete VolumeHeadName dt = map (\<lambda>s. (sn_Name s, Some s)) ss \<and> distinct ss \<and> {s \<in> set ss. \<not> sn_Removed s} = snaps w))"
    and cli_now: "inv w \<Longrightarrow> inv (snd (env_Now env w)) \<and> snaps (snd (env_Now env w)) = snaps w"
    and cli_uuid: "inv w \<Longrightarrow> inv (snd (env_UUID env w)) \<and> snaps (snd (env_UUID env w)) = snaps w \<and> 18 \<le> length (fst (env_UUID env w))"
begin

lemma Execute_wp:
  assumes "\<And>r w'. env_Exec env cmdTimeout b args w = (r, w') \<Longrightarrow> inv w' \<and> (\<forall>out. r = Done out None \<longrightarrow> Q w')"
  shows "wp (Execute env b args) (\<lambda>_ w'. inv w' \<and> Q w') (\<lambda>_. inv) w"
proof -
  obtain r w' where r: "env_Exec env cmdTimeout b args w = (r, w')" by fastforce
  show ?thesis
    using assms [OF r] r by (auto simp: Execute_def ExecuteWithTimeout_def wp_st wp_simps split: ExecResult.split option.split)
qed

lemma snap_list_wp:
  assumes "inv w"
  shows "wp (snap_list env c) (\<lambda>dt w'. inv w' \<and> snaps w' = snaps w \<and>
    (\<exists>ss. dt = map (\<lambda>s. (sn_Name s, Some s)) ss \<and> distinct ss \<and> {s \<in> set ss. \<not> sn_Removed s} = snaps w)) (\<lambda>_. inv) w"
proof -
  obtain r w' where r: "env_Proc env [''longhorn'', ''--url'', co_url c, ''snapshot'', ''info''] w = (r, w')" by fastforce
  show ?thesis
    using cli_info [OF assms r] r by (auto simp: snap_list_def wp_st wp_simps split: option.split)
qed

end

text \<open>The controller's operations over the tool keep the contract of the snapshots.\<close>

sublocale longhorn_cli \<subseteq> cli: snapshot_engine "controller_ops parse env put listq bg purging c" snaps inv for parse put listq bg purging
proof (unfold_locales, goal_cases)
  case (1 w)
  then show ?case by (rule cli_snaps)
next
  case (2 w)
  show ?case
    unfolding controller_ops_def Controller.simps snap_List_def
    by (rule wp_step [OF snap_list_wp [OF 2]]) (auto simp: wp_ret o_def)
next
  case (3 w n)
  show ?case
    unfolding controller_ops_def Controller.simps snap_Delete_def
    by (rule wp_step [OF Execute_wp [OF cli_rm [OF 3]]]) (auto simp: wp_ret)
next
  case (4 w)
  have "wp (Execute env ''longhorn'' [''--url'', co_url c, ''snapshot'', ''purge'']) (\<lambda>_ w'. inv w' \<and> snaps w' = snaps w) (\<lambda>_. inv) w"
    by (rule Execute_wp [OF cli_purge [OF 4]])
  then have "wp (snap_Purge env c n) (\<lambda>_ w'. inv w' \<and> snaps w' = snaps w) (\<lambda>_. inv) w" for n
    unfolding snap_Purge_def ExecuteWithTimeout_ignores_timeout wp_if wp_tryE wp_ret [abs_def] using 4 by simp
  then show ?case by (simp add: controller_ops_def wp_def)
next
  case (5 w ls n)
  show ?case
    unfolding controller_ops_def Controller.simps snap_Create_def Let_def append_assoc
    by (rule wp_step [OF Execute_wp [OF cli_create [OF 5]]]) (auto simp: wp_ret)
qed

context longhorn_cli
begin

lemma cli_job:
  assumes "jr_ctrl runner = controller_ops parse env put listq bg purging c"
  shows "snapshot_job (controller_ops parse env put listq bg purging c) snaps inv env runner"
  by unfold_locales (use assms cli_now cli_uuid in auto)

end

section \<open>Backups\<close>

text \<open>The backups of a volume in the store of its backup target, under different URLs.\<close>

locale backup_target =
  fixes newBackups :: "string \<Rightarrow> 'w ManagerBackupOps" and runner :: "'w jobRunner" and target :: string
    and baks :: "'w \<Rightarrow> BackupInfo set" and inv :: "'w \<Rightarrow> bool"
  assumes baks_ok: "inv w \<Longrightarrow> finite (baks w) \<and> inj_on bk_URL (baks w)"
    and list: "inv w \<Longrightarrow> wp (mb_List (newBackups target) (v_Name (jr_volume runner)))
      (\<lambda>l w'. inv w' \<and> baks w' = baks w \<and> distinct l \<and> set l = baks w) (\<lambda>_. inv) w"
    and delete: "inv w \<Longrightarrow> wp (ct_DeleteBackup (jr_ctrl runner) u) (\<lambda>_ w'. inv w' \<and> baks w' = {b \<in> baks w. bk_URL b \<noteq> u}) (\<lambda>_. inv) w"

definition job_backups :: "('w \<Rightarrow> BackupInfo set) \<Rightarrow> RecurringJob \<Rightarrow> 'w \<Rightarrow> BackupInfo set" where
  "job_backups baks job w = {b \<in> baks w. HasPrefix (bk_SnapshotName b) (j_Name job @ ''-'')}"

sublocale backup_target \<subseteq> ret: retention
    "tryE (listBackups newBackups runner job target) (wrap m1) ret"
    "\<lambda>b. tryE (ct_DeleteBackup (jr_ctrl runner) (bk_URL b)) (wrap (m2 @ bk_Name b)) ret" "ret ()" "job_backups baks job" bk_Created inv inv for job m1 m2
proof (unfold_locales, goal_cases)
  case (1 w)
  then show ?case using baks_ok by (simp add: job_backups_def)
next
  case (2 w)
  then show ?case
    unfolding listBackups_def wp_tryE wp_ret [abs_def]
    by (intro wp_mono [OF list]) (auto simp: job_backups_def filterBackups_def)
next
  case (3 w x)
  have "inj_on bk_URL (baks w)" "x \<in> baks w" using baks_ok 3 by (auto simp: job_backups_def)
  then have "{b \<in> baks w. bk_URL b \<noteq> bk_URL x} = baks w - {x}" by (auto dest: inj_onD)
  then show ?case
    unfolding wp_tryE_ret by (intro wp_mono [OF delete [OF 3(1)]]) (auto simp: job_backups_def)
qed (simp add: wp_ret)

context backup_target
begin

lemma cleanupBackups_keeps:
  assumes "0 < j_Retain job" and "inv w" and "fits bk_Created (job_backups baks job) (fst (counted (c, w))) w"
  shows "\<exists>r c' w'. cleanupBackups (Suc (Suc (Suc n))) newBackups runner job target (c, w) = Some (r, c', w') \<and>
    (case r of
       Ok _ \<Rightarrow> inv w' \<and> fits bk_Created (job_backups baks job) c' w' \<and> oldest_gone bk_Created (job_backups baks job w) (job_backups baks job w') \<and>
         int (card (job_backups baks job w')) = min (int (card (job_backups baks job w))) (j_Retain job)
     | Err _ \<Rightarrow> inv w'
     | Panic _ \<Rightarrow> False)"
proof -
  let ?listing = "tryE (listBackups newBackups runner job target) (wrap ''error cleaning up snapshots'') ret"
  let ?del = "\<lambda>b. tryE (ct_DeleteBackup (jr_ctrl runner) (bk_URL b)) (wrap (''deleting backup '' @ bk_Name b)) ret"
  have e: "cleanupBackups (Suc (Suc (Suc n))) newBackups runner job target (c, w) =
      cleanup_loop (Suc (Suc (Suc n))) (j_Retain job) ?listing ?del (ret ()) (fst (counted (c, w)), w)"
    using assms(1) unfolding cleanupBackups_def by (simp add: counted_def)
  have "0 \<le> j_Retain job" using assms(1) by simp
  from cleanup_loop_ends [OF this] obtain x where
    "cleanup_loop (Suc (Suc (Suc n))) (j_Retain job) ?listing ?del (ret ()) (fst (counted (c, w)), w) = Some x" by blast
  then obtain r c' w' where r: "cleanup_loop (Suc (Suc (Suc n))) (j_Retain job) ?listing ?del (ret ()) (fst (counted (c, w)), w) = Some (r, c', w')"
    by (cases x) auto
  from ret.cleanup_loop_keeps [OF assms(2,3) r \<open>0 \<le> j_Retain job\<close>] show ?thesis using e r by auto
qed

end

section \<open>A reference tool\<close>

record snap_ref =
  sr_snaps :: "SnapshotInfo list"
  sr_baks :: "BackupInfo list"
  sr_clock :: nat

definition sr_inv :: "snap_ref \<Rightarrow> bool" where
  "sr_inv w \<longleftrightarrow> distinct (map sn_Name (sr_snaps w)) \<and>
     (\<forall>s \<in> set (sr_snaps w). sn_Name s \<noteq> VolumeHeadName \<and> \<not> sn_Removed s \<and> sn_Created s \<le> replicate (sr_clock w) CHR ''t'') \<and>
     distinct (map bk_URL (sr_baks w))"

definition sr_set :: "snap_ref \<Rightarrow> SnapshotInfo set" where "sr_set w = set (sr_snaps w)"

text \<open>The arguments \<open>--label k=v\<close> of the command.\<close>

fun sr_labels :: "string list \<Rightarrow> string gomap" where
  "sr_labels (flag # a # as) = (takeWhile (\<lambda>x. x \<noteq> CHR ''='') a, tl (dropWhile (\<lambda>x. x \<noteq> CHR ''='') a)) # sr_labels as"
| "sr_labels _ = []"

definition sr_create :: "string \<Rightarrow> string gomap \<Rightarrow> snap_ref \<Rightarrow> ExecResult \<times> snap_ref" where
  "sr_create n ls w = (if n = VolumeHeadName \<or> n \<in> sn_Name ` set (sr_snaps w) then (Done [] (Some (Ext ''exists'')), w)
     else (Done n None, w\<lparr>sr_clock := Suc (sr_clock w), sr_snaps := sr_snaps w @ [\<lparr>sn_Name = n, sn_Parent = [], sn_Children = [], sn_Removed = False,
       sn_UserCreated = True, sn_Created = replicate (Suc (sr_clock w)) CHR ''t'', sn_Size = [], sn_Labels = ls\<rparr>]\<rparr>))"

definition sr_exec :: "int \<Rightarrow> string \<Rightarrow> string list \<Rightarrow> snap_ref \<Rightarrow> ExecResult \<times> snap_ref" where
  "sr_exec t b args w = (let cmd = take 2 (drop 2 args); rest = drop 4 args in
     if cmd = [''snapshot'', ''create''] then sr_create (last rest) (sr_labels (butlast rest)) w
     else if cmd = [''snapshot'', ''rm''] then (Done [] None, w\<lparr>sr_snaps := filter (\<lambda>s. sn_Name s \<noteq> last rest) (sr_snaps w)\<rparr>)
     else if cmd = [''backup'', ''rm''] then (Done [] None, w\<lparr>sr_baks := filter (\<lambda>b. bk_URL b \<noteq> last rest) (sr_baks w)\<rparr>)
     else (Done [] None, w))"

definition enc_snapshot :: "SnapshotInfo \<Rightarrow> json" where
  "enc_snapshot s = JObj [(''name'', JStr (sn_Name s)), (''parent'', JStr (sn_Parent s)), (''children'', enc_slice JStr (sn_Children s)),
     (''removed'', JBool (sn_Removed s)), (''usercreated'', JBool (sn_UserCreated s)), (''created'', JStr (sn_Created s)),
     (''size'', JStr (sn_Size s)), (''labels'', enc_map JStr (sn_Labels s))]"

definition enc_backup :: "BackupInfo \<Rightarrow> json" where
  "enc_backup b = JObj [(''Name'', JStr (bk_Name b)), (''URL'', JStr (bk_URL b)), (''SnapshotName'', JStr (bk_SnapshotName b)),
     (''SnapshotCreated'', JStr (bk_SnapshotCreated b)), (''Created'', JStr (bk_Created b)), (''Size'', JStr (bk_Size b))]"

definition sr_decode :: "json \<Rightarrow> gerr + BackupInfo" where
  "sr_decode j = (case do {
       ms \<leftarrow> (case j of JObj ms \<Rightarrow> Some ms | _ \<Rightarrow> None);
       n \<leftarrow> get_string ms ''Name'';
       u \<leftarrow> get_string ms ''URL'';
       sn \<leftarrow> get_string ms ''SnapshotName'';
       sc \<leftarrow> get_string ms ''SnapshotCreated'';
       c \<leftarrow> get_string ms ''Created'';
       z \<leftarrow> get_string ms ''Size'';
       Some \<lparr>bk_Name = n, bk_URL = u, bk_SnapshotName = sn, bk_SnapshotCreated = sc, bk_Created = c, bk_Size = z,
         bk_VolumeName = [], bk_VolumeSize = [], bk_VolumeCreated = []\<rparr> } of
      None \<Rightarrow> Inl (Ext ''mapstructure'')
    | Some b \<Rightarrow> Inr b)"

text \<open>What the tool prints: the snapshots and the volume's head, and the backups of the one volume.\<close>

definition sr_proc :: "string list \<Rightarrow> snap_ref \<Rightarrow> ProcResult \<times> snap_ref" where
  "sr_proc args w = (\<lparr>pr_start = None, pr_stdout = [], pr_json = Some
     (if drop 3 args = [''snapshot'', ''info''] then JObj ((VolumeHeadName, JNull) # map (\<lambda>s. (sn_Name s, enc_snapshot s)) (sr_snaps w))
      else JObj [(''vol1'', JObj [(''Name'', JStr ''vol1''), (''Backups'', JObj (map (\<lambda>b. (bk_Name b, enc_backup b)) (sr_baks w)))])]),
     pr_stderr = [], pr_wait = None\<rparr>, w)"

definition sr_env :: "snap_ref Env" where
  "sr_env = \<lparr>env_Now = (\<lambda>w. (int (sr_clock w), w)), env_Sleep = (\<lambda>_ w. w),
     env_UUID = (\<lambda>w. (take 36 (replicate (sr_clock w) (CHR ''1'') @ replicate 36 (CHR ''0'')), w)), env_Stat = (\<lambda>_. ret True),
     env_HttpGet = (\<lambda>_. ret ()), env_Exec = sr_exec, env_Proc = sr_proc, env_InterfaceAddrs = ret []\<rparr>"

definition sr_c :: controller where "sr_c = \<lparr>co_id = 0, co_name = ''vol1'', co_url = ''http://10.0.0.2:9501''\<rparr>"

text \<open>The controller of package \<open>controller\<close> over the tool.\<close>

definition sr_ctrl :: "snap_ref Controller" where
  "sr_ctrl = controller_ops (\<lambda>_. None) sr_env (\<lambda>_ _. ret ()) (\<lambda>_. ret []) (\<lambda>_ _. \<lparr>bg_lastRunBgTask = None, bg_runningBgTask = None\<rparr>) (\<lambda>_ _. 0) sr_c"

definition sr_runner :: "snap_ref jobRunner" where
  "sr_runner = \<lparr>jr_volume = \<lparr>v_Name = ''vol1'', v_Size = 8192, v_BaseImage = [], v_FromBackup = [], v_NumberOfReplicas = 2,
       v_StaleReplicaTimeout = 20, v_Controller = None, v_Replicas = None, v_State = [], v_EngineImage = [], v_Endpoint = [], v_Created = [],
       v_RecurringJobs = None\<rparr>, jr_ctrl = sr_ctrl, jr_GetSettings = ret None\<rparr>"

lemma replicate_le: "m \<le> n \<Longrightarrow> replicate m (c :: char) \<le> replicate n c"
proof (induction m arbitrary: n)
  case (Suc m)
  then show ?case by (cases n) auto
qed simp

lemma sr_labels_args:
  "\<forall>(k, v) \<in> set ls. CHR ''='' \<notin> set k \<Longrightarrow> sr_labels (concat (map (\<lambda>(k, v). [''--label'', k @ ''='' @ v]) ls)) = ls"
proof (induction ls)
  case (Cons x ls)
  obtain k v where x: "x = (k, v)" by fastforce
  have k: "\<forall>c \<in> set k. c \<noteq> CHR ''=''" using Cons.prems x by auto
  have "takeWhile (\<lambda>c. c \<noteq> CHR ''='') (k @ ''='' @ v) = k" "dropWhile (\<lambda>c. c \<noteq> CHR ''='') (k @ ''='' @ v) = ''='' @ v"
    using k by (simp_all add: takeWhile_append2 dropWhile_append2)
  then show ?case using Cons x by simp
qed simp

lemma dec_enc_snapshot: "dec_SnapshotPtr (enc_snapshot s) = Some (Some s)"
proof -
  let ?str = "\<lambda>j. case j of JStr s \<Rightarrow> Some s | JNull \<Rightarrow> Some [] | _ \<Rightarrow> None"
  have c: "get_ptr (dec_slice ?str) ((k, enc_slice JStr xs) # ms) k = Some (Some xs)" for k ms xs
    using dec_slice_enc [of xs ?str JStr] by (simp add: get_ptr_def enc_slice_def)
  have l: "get_ptr (dec_map ?str) ((k, enc_map JStr m) # ms) k = Some (Some m)" for k ms m
    using dec_map_enc [of m ?str JStr] by (simp add: get_ptr_def enc_map_def)
  show ?thesis
    by (simp add: dec_SnapshotPtr_def dec_SnapshotInfo_def enc_snapshot_def json_simps c l)
qed

lemma sr_document:
  "dec_map dec_SnapshotPtr (JObj ((VolumeHeadName, JNull) # map (\<lambda>s. (sn_Name s, enc_snapshot s)) ss)) =
     Some ((VolumeHeadName, None) # map (\<lambda>s. (sn_Name s, Some s)) ss)"
proof -
  have "those (map ((\<lambda>(k, m). map_option (Pair k) (dec_SnapshotPtr m)) \<circ> (\<lambda>s. (sn_Name s, enc_snapshot s))) ss) = Some (map (\<lambda>s. (sn_Name s, Some s)) ss)"
    by (rule those_map_Some) (simp add: dec_enc_snapshot)
  then show ?thesis by (simp add: dec_map_def dec_SnapshotPtr_def)
qed

lemma sr_listed: "AList.delete VolumeHeadName (map (\<lambda>s. (sn_Name s, Some s)) ss) = map (\<lambda>s. (sn_Name s, Some s)) (filter (\<lambda>s. sn_Name s \<noteq> VolumeHeadName) ss)"
  by (induction ss) auto

interpretation sr: longhorn_cli sr_env sr_c sr_set sr_inv
proof (unfold_locales, goal_cases)
  case (1 w)
  then show ?case by (auto simp: sr_inv_def sr_set_def distinct_map)
next
  case (2 w ls n r w')
  have le: "s \<le> replicate (Suc (sr_clock w)) CHR ''t''" if "s \<le> replicate (sr_clock w) CHR ''t''" for s
    using that replicate_le [of "sr_clock w" "Suc (sr_clock w)"] by (meson le_SucI le_refl order_trans)
  have "sr_create n ls w = (r, w')"
    using 2(3) by (simp add: sr_env_def sr_exec_def Let_def butlast_append sr_labels_args [OF 2(2), simplified])
  let ?s = "\<lparr>sn_Name = n, sn_Parent = [], sn_Children = [], sn_Removed = False, sn_UserCreated = True,
    sn_Created = replicate (Suc (sr_clock w)) CHR ''t'', sn_Size = [], sn_Labels = ls\<rparr>"
  show ?case
  proof (cases "n = VolumeHeadName \<or> n \<in> sn_Name ` set (sr_snaps w)")
    case False
    then have "r = Done n None" "w' = w\<lparr>sr_clock := Suc (sr_clock w), sr_snaps := sr_snaps w @ [?s]\<rparr>"
      using \<open>sr_create n ls w = (r, w')\<close> by (auto simp: sr_create_def)
    moreover have "?s \<notin> set (sr_snaps w)" using False by (auto dest: imageI [where f = sn_Name])
    ultimately show ?thesis
      using 2(1) le False by (auto simp: sr_inv_def sr_set_def simp del: replicate.simps intro!: exI [of _ ?s])
  qed (use 2(1) \<open>sr_create n ls w = (r, w')\<close> in \<open>auto simp: sr_create_def\<close>)
next
  case (5 w pr w')
  then have "sr_proc [''longhorn'', ''--url'', co_url sr_c, ''snapshot'', ''info''] w = (pr, w')" by (simp add: sr_env_def)
  moreover have "filter (\<lambda>s. sn_Name s \<noteq> VolumeHeadName) (sr_snaps w) = sr_snaps w" using 5(1) by (auto simp: sr_inv_def filter_id_conv)
  ultimately show ?case
    using 5(1) by (auto simp: sr_proc_def sr_document sr_listed sr_inv_def sr_set_def distinct_map intro!: exI [of _ "sr_snaps w"])
qed (auto simp: sr_inv_def sr_set_def sr_env_def sr_exec_def Let_def distinct_map intro: inj_on_subset)

interpretation srj: snapshot_job sr_ctrl sr_set sr_inv sr_env sr_runner
  unfolding sr_ctrl_def by (rule sr.cli_job) (simp add: sr_runner_def sr_ctrl_def)

text \<open>The backups as they are listed carry the name of the volume.\<close>

definition sr_bakset :: "snap_ref \<Rightarrow> BackupInfo set" where
  "sr_bakset w = (\<lambda>b. b\<lparr>bk_VolumeName := ''vol1'', bk_VolumeSize := [], bk_VolumeCreated := []\<rparr>) ` set (sr_baks w)"

lemma sr_parse:
  "parse_backups_loop sr_decode v (map (\<lambda>b. (bk_Name b, enc_backup b)) bs) l =
     Ok (l @ map (\<lambda>b. b\<lparr>bk_VolumeName := bvo_Name v, bk_VolumeSize := bvo_Size v, bk_VolumeCreated := bvo_Created v\<rparr>) bs)"
  by (induction bs arbitrary: l) (simp_all add: parseBackup_def sr_decode_def enc_backup_def json_simps)

lemma sr_backups_List:
  "backups_List sr_decode sr_env b ''vol1'' w =
     (Ok (map (\<lambda>b. b\<lparr>bk_VolumeName := ''vol1'', bk_VolumeSize := [], bk_VolumeCreated := []\<rparr>) (sr_baks w)), w)"
proof -
  have "those (map ((\<lambda>(k, m). Some (k, m)) \<circ> (\<lambda>b. (bk_Name b, enc_backup b))) bs) = Some (map (\<lambda>b. (bk_Name b, enc_backup b)) bs)" for bs
    by (rule those_map_Some) simp
  then have d: "dec_map Some (JObj (map (\<lambda>b. (bk_Name b, enc_backup b)) bs)) = Some (map (\<lambda>b. (bk_Name b, enc_backup b)) bs)" for bs
    by (simp add: dec_map_def)
  show ?thesis
    by (simp add: backups_List_def backup_cmd_def sr_env_def sr_proc_def st_def parseBackupsList_def parse_output_def dec_backupVolumes_def
        dec_map_def dec_backupVolume_def json_simps get_ptr_def d [unfolded dec_map_def, simplified] sr_parse)
qed

interpretation srb: backup_target "backups_ops sr_decode sr_env" sr_runner "''target''" sr_bakset sr_inv
proof (unfold_locales, goal_cases)
  case (1 w)
  then show ?case by (auto simp: sr_inv_def sr_bakset_def distinct_map inj_on_def)
next
  case (2 w)
  have "inj_on (\<lambda>b. b\<lparr>bk_VolumeName := ''vol1'', bk_VolumeSize := [], bk_VolumeCreated := []\<rparr>) (set (sr_baks w))" "distinct (sr_baks w)"
    using 2 by (auto simp: sr_inv_def distinct_map inj_on_def dest: arg_cong [where f = bk_URL])
  then show ?case
    using 2 by (simp add: backups_ops_def Let_def sr_runner_def wp_def sr_backups_List sr_bakset_def distinct_map)
next
  case (3 w u)
  then show ?case
    by (auto simp: sr_runner_def sr_ctrl_def controller_ops_def DeleteBackup_def Execute_def ExecuteWithTimeout_def sr_env_def sr_exec_def
        wp_def tryE_def st_def ret_def sr_inv_def sr_bakset_def distinct_map intro: inj_on_subset)
qed


text \<open>Its commands to list, to delete and to purge succeed in every state.\<close>

lemma sr_List_Ok: "ct_List sr_ctrl w = (Ok (map Some (filter (\<lambda>s. sn_Name s \<noteq> VolumeHeadName) (sr_snaps w))), w)"
  by (simp add: sr_ctrl_def controller_ops_def snap_List_def snap_list_def st_def sr_env_def sr_proc_def sr_document sr_listed tryE_def ret_def o_def)

lemma sr_Delete_Ok: "fst (ct_Delete sr_ctrl n w) = Ok ()"
  by (simp add: sr_ctrl_def controller_ops_def snap_Delete_def Execute_def ExecuteWithTimeout_def sr_env_def sr_exec_def tryE_def st_def ret_def Let_def)

lemma sr_Purge_Ok: "fst (ct_Purge sr_ctrl w) = Ok ()"
  by (simp add: sr_ctrl_def controller_ops_def snap_Purge_def ExecuteWithTimeout_def sr_env_def sr_exec_def tryE_def st_def ret_def Let_def)


section \<open>Properties\<close>


definition ex_sjob :: RecurringJob where
  "ex_sjob = \<lparr>j_Name = ''nightly'', j_Cron = ''0 0 * * *'', j_Task = SnapshotTaskName, j_Retain = 2\<rparr>"

definition ex_snap :: "string \<Rightarrow> nat \<Rightarrow> string gomap \<Rightarrow> SnapshotInfo" where
  "ex_snap n k ls = \<lparr>sn_Name = n, sn_Parent = [], sn_Children = [], sn_Removed = False, sn_UserCreated = True,
     sn_Created = replicate k CHR ''t'', sn_Size = [], sn_Labels = ls\<rparr>"

text \<open>Two snapshots of the job, the older one listed last, and one that a user made.\<close>

definition sr_full :: snap_ref where
  "sr_full = \<lparr>sr_snaps = [ex_snap ''s2'' 2 [(JobName, ''nightly'')], ex_snap ''mine'' 1 [], ex_snap ''s1'' 1 [(JobName, ''nightly'')]],
     sr_baks = [], sr_clock = 2\<rparr>"




text \<open>C23: the clean-up loop of the recurring tasks ends for every number to keep that is not
  negative, whatever the listing and the deletions return and whatever the cache holds: it
  reads the list at most once and three tests of its condition are enough.\<close>

theorem cleanup_terminates:
  assumes "0 \<le> retain"
  shows "\<exists>r. cleanup_loop (Suc (Suc (Suc n))) retain listing del after cw = Some r"
  using cleanup_loop_ends [OF assms] .

theorem cleanup_terminates_witness:
  "\<exists>r. cleanup_loop 3 2 (ret [1, 2, 3 :: nat]) (\<lambda>_. ret ()) (ret ()) (new_cache, ()) = Some r"
proof -
  have three: "(3 :: nat) = Suc (Suc (Suc 0))" by simp
  show ?thesis unfolding three by (rule cleanup_terminates) simp
qed

text \<open>C29: for a negative number to keep, which nothing rejects, the clean-up after a recurring
  snapshot never ends when the engine's commands succeed: it deletes every snapshot of the job and
  then lists and purges forever.\<close>

theorem negative_retain_never_ends:
  assumes "j_Retain job < 0" and "\<And>w. \<exists>ss. fst (ct_List (jr_ctrl runner) w) = Ok (map Some ss)"
    and "\<And>x w. fst (ct_Delete (jr_ctrl runner) x w) = Ok ()" and "\<And>w. fst (ct_Purge (jr_ctrl runner) w) = Ok ()"
  shows "snapshotTask_cleanup n runner job (new_cache, w) = None"
proof -
  have "\<exists>xs. fst (tryE (snapshotTask_listSnapshots runner job) (wrap m) ret w) = Ok xs" for m w
    using assms(2) [of w] by (auto simp: snapshotTask_listSnapshots_def snapshotTask_filterSnapshots_def list_sorted_def tryE_def ret_def keep_snapshots_eq split: prod.splits)
  moreover have "fst (tryE (ct_Delete (jr_ctrl runner) (sn_Name x)) (wrap m) ret w) = Ok ()" for x m w
    using assms(3) [of "sn_Name x" w] by (auto simp: tryE_def ret_def split: prod.splits)
  moreover have "fst (tryE (ct_Purge (jr_ctrl runner)) (wrap m) ret w) = Ok ()" for m w
    using assms(4) [of w] by (auto simp: tryE_def ret_def split: prod.splits)
  ultimately show ?thesis
    using assms(1) unfolding snapshotTask_cleanup_def counted_def fst_conv snd_conv
    by (simp, intro cleanup_loop_diverges) (auto simp: new_cache_def cache_list_def)
qed

theorem negative_retain_never_ends_witness:
  "snapshotTask_cleanup 1000 sr_runner (ex_sjob\<lparr>j_Retain := - 1\<rparr>) (new_cache, sr_full) = None"
proof -
  have c: "jr_ctrl sr_runner = sr_ctrl" by (simp add: sr_runner_def)
  show ?thesis
    by (rule negative_retain_never_ends) (auto simp: c ex_sjob_def sr_List_Ok sr_Delete_Ok sr_Purge_Ok)
qed

text \<open>C30: \<open>ValidateJobs\<close> accepts a list of jobs exactly when every job whose task is known has a
  proper name and a schedule the cron parser accepts; jobs with an unknown task are not looked
  at, and neither is the number to keep.\<close>

theorem ValidateJobs_exact:
  "ValidateJobs parse jobs = None \<longleftrightarrow>
   (\<forall>j \<in> set jobs. j_Task j = SnapshotTaskName \<or> j_Task j = BackupTaskName \<longrightarrow>
      TrimSpace (j_Name j) = j_Name j \<and> j_Name j \<noteq> [] \<and> parse (j_Cron j) = None)"
  by (induction jobs) (auto simp: tasks_def split: option.splits)

theorem ValidateJobs_exact_witness:
  "ValidateJobs (\<lambda>_. None) [ex_sjob\<lparr>j_Task := ''unknown'', j_Name := []\<rparr>] = None"
  using ValidateJobs_exact [of "\<lambda>_. None" "[ex_sjob\<lparr>j_Task := ''unknown'', j_Name := []\<rparr>]"] by (simp add: ex_sjob_def)

text \<open>C40: a recurring backup never makes a backup.  When its run returns, it has made the snapshot
  and put one task into the controller's queue, a value that carries the target and the
  clean-up.  The queue hands that task to the worker, whether the worker asked before or after, and the
  worker ends it at once with the error of an unknown task type: apart from reading the clock
  twice the world is as before, so no backup was made and the clean-up was not called.\<close>

theorem recurring_backup_not_made:
  assumes "backupTask_Run env runner job target hook w = (Ok (), w')"
  shows "\<exists>name t w1. ct_Put (jr_ctrl runner) t w1 = (Ok (), w') \<and>
    bt_Task t = BackupVal \<lparr>bb_Snapshot = name, bb_BackupTarget = target, bb_CleanupHook = Some hook\<rparr> \<and>
    (\<forall>now now' worker c bg w2. \<forall>reqs \<in> {[(now, putReq t), (now', takeReq worker)], [(now', takeReq worker), (now, putReq t)]}.
       \<exists>u tq bg'. runQueue reqs TaskQueue = ([Taken worker (Some u)], tq) \<and> bt_Task u = bt_Task t \<and>
         runBgTasks env c [Some u, None] (bg, w2) = (Ok (), (bg', snd (Now env (snd (Now env w2))))) \<and>
         bg_runningBgTask bg' = None \<and> map_option bt_Err (bg_lastRunBgTask bg') = Some (Some (Errorf ''unknown task type'')))"
proof -
  obtain name t w1 where t: "ct_Put (jr_ctrl runner) t w1 = (Ok (), w')"
      "bt_Task t = BackupVal \<lparr>bb_Snapshot = name, bb_BackupTarget = target, bb_CleanupHook = Some hook\<rparr>"
    using assms by (auto simp: backupTask_Run_def snapName_def RandomID_def st_def tryE_Ok_iff panic_def split: prod.splits if_splits)
  have "\<exists>u tq bg'. runQueue reqs TaskQueue = ([Taken worker (Some u)], tq) \<and> bt_Task u = bt_Task t \<and>
      runBgTasks env c [Some u, None] (bg, w2) = (Ok (), (bg', snd (Now env (snd (Now env w2))))) \<and>
      bg_runningBgTask bg' = None \<and> map_option bt_Err (bg_lastRunBgTask bg') = Some (Some (Errorf ''unknown task type''))"
    if rq: "reqs \<in> {[(now, putReq t), (now', takeReq worker)], [(now', takeReq worker), (now, putReq t)]}" for reqs now now' worker c bg w2
  proof -
    obtain u tq where u: "runQueue reqs TaskQueue = ([Taken worker (Some u)], tq)" "bt_Task u = bt_Task t"
      using rq by (auto simp: TaskQueue_def)
    then show ?thesis using runTask_value [of u _ env c bg w2] t(2) by (simp add: tryE_def ret_def)
  qed
  then show ?thesis using t by blast
qed

text \<open>The clean-up of the example forgets every backup; in the end the backup that was there still is.\<close>

definition ex_bak :: BackupInfo where
  "ex_bak = \<lparr>bk_Name = ''b1'', bk_URL = ''vfs:///b1'', bk_SnapshotName = ''nightly-0'', bk_SnapshotCreated = [], bk_Created = ''t'', bk_Size = [],
     bk_VolumeName = [], bk_VolumeSize = [], bk_VolumeCreated = []\<rparr>"

definition ex_hook :: "(snap_ref, unit) op" where
  "ex_hook w = (Ok (), w\<lparr>sr_baks := []\<rparr>)"

theorem recurring_backup_not_made_witness:
  "\<exists>w' t u w1 tq bg' w2. backupTask_Run sr_env sr_runner (ex_sjob\<lparr>j_Task := BackupTaskName\<rparr>) ''vfs:///backups'' ex_hook (sr_full\<lparr>sr_baks := [ex_bak]\<rparr>) = (Ok (), w') \<and>
    ct_Put (jr_ctrl sr_runner) t w1 = (Ok (), w') \<and> runQueue [(''now'', putReq t), (''now'', takeReq 7)] TaskQueue = ([Taken 7 (Some u)], tq) \<and>
    (\<exists>b. bt_Task u = BackupVal b \<and> bb_CleanupHook b = Some ex_hook) \<and>
    runBgTasks sr_env sr_c [Some u, None] (\<lparr>bg_lastRunBgTask = None, bg_runningBgTask = None\<rparr>, w') = (Ok (), (bg', w2)) \<and> sr_baks w2 = [ex_bak]"
proof -
  obtain w' where w': "backupTask_Run sr_env sr_runner (ex_sjob\<lparr>j_Task := BackupTaskName\<rparr>) ''vfs:///backups'' ex_hook (sr_full\<lparr>sr_baks := [ex_bak]\<rparr>) = (Ok (), w')"
    and b: "sr_baks w' = [ex_bak]"
    by (simp add: backupTask_Run_def snapName_def RandomID_def st_def sr_env_def sr_runner_def sr_ctrl_def controller_ops_def snap_Create_def Execute_def
        ExecuteWithTimeout_def sr_exec_def sr_create_def sr_full_def ex_snap_def ex_sjob_def tryE_def ret_def Let_def)
  have n: "snd (Now sr_env w) = w" for w by (simp add: Now_def sr_env_def)
  obtain name t w1 where t: "ct_Put (jr_ctrl sr_runner) t w1 = (Ok (), w')"
      "bt_Task t = BackupVal \<lparr>bb_Snapshot = name, bb_BackupTarget = ''vfs:///backups'', bb_CleanupHook = Some ex_hook\<rparr>"
    and q: "\<forall>now now' worker c bg w2. \<forall>reqs \<in> {[(now, putReq t), (now', takeReq worker)], [(now', takeReq worker), (now, putReq t)]}.
       \<exists>u tq bg'. runQueue reqs TaskQueue = ([Taken worker (Some u)], tq) \<and> bt_Task u = bt_Task t \<and>
         runBgTasks sr_env c [Some u, None] (bg, w2) = (Ok (), (bg', w2)) \<and>
         bg_runningBgTask bg' = None \<and> map_option bt_Err (bg_lastRunBgTask bg') = Some (Some (Errorf ''unknown task type''))"
    using recurring_backup_not_made [OF w'] unfolding n by blast
  have "[(''now'', putReq t), (''now'', takeReq 7)] \<in> {[(''now'', putReq t), (''now'', takeReq 7)], [(''now'', takeReq 7), (''now'', putReq t)]}" by simp
  from q [rule_format, OF this, of sr_c "\<lparr>bg_lastRunBgTask = None, bg_runningBgTask = None\<rparr>" w'] obtain u tq bg' where
    "runQueue [(''now'', putReq t), (''now'', takeReq 7)] TaskQueue = ([Taken 7 (Some u)], tq)" "bt_Task u = bt_Task t"
    "runBgTasks sr_env sr_c [Some u, None] (\<lparr>bg_lastRunBgTask = None, bg_runningBgTask = None\<rparr>, w') = (Ok (), (bg', w'))" by blast
  with w' t b show ?thesis by (metis BackupBgTask.select_convs(3))
qed

end
