(* ===== verification/ApiModel.thy ===== *)
theory ApiModel
  imports Manager
begin

text \<open>
  \<open>api/model.go\<close>: the resources of the HTTP API, the inputs of its actions and its schemas.
  \<open>Resource\<close>, \<open>Schema\<close>, \<open>Field\<close> and \<open>Action\<close> are the structs of go-rancher's client package the
  code fills in; the links of a resource are made by go-rancher's URL builder, the record
  \<open>ApiContext\<close>.  The fields go-rancher reads from a struct by reflection are the parameter
  \<open>flds\<close> of \<open>NewSchema\<close>.  The bodies of requests name their members as the struct tags spell
  them, each at most once.
\<close>

section \<open>go-rancher\<close>

record Resource =
  rs_Id :: string
  rs_Type :: string
  rs_Links :: "string gomap option"
  rs_Actions :: "string gomap option"

record ApiContext =
  ac_ActionLink :: "Resource \<Rightarrow> string \<Rightarrow> string"
  ac_Collection :: "string \<Rightarrow> string"

definition no_Resource :: Resource where
  "no_Resource = \<lparr>rs_Id = [], rs_Type = [], rs_Links = None, rs_Actions = None\<rparr>"

datatype fieldDefault = NoDefault | StrDefault string | IntDefault int

record Field =
  fl_Type :: string
  fl_Default :: fieldDefault
  fl_Unique :: bool
  fl_Nullable :: bool
  fl_Create :: bool
  fl_Required :: bool
  fl_Update :: bool

record Action =
  an_Input :: string
  an_Output :: string

record Schema =
  sc_Id :: string
  sc_PluralName :: string
  sc_ResourceMethods :: "string list"
  sc_ResourceFields :: "Field gomap"
  sc_ResourceActions :: "Action gomap"
  sc_CollectionMethods :: "string list"

definition no_Field :: Field where
  "no_Field = \<lparr>fl_Type = [], fl_Default = NoDefault, fl_Unique = False, fl_Nullable = False, fl_Create = False,
     fl_Required = False, fl_Update = False\<rparr>"

section \<open>Resources and inputs\<close>

record Instance =
  ai_HostID :: string
  ai_Address :: string
  ai_Running :: bool

record Controller_res =
  ac_Instance :: Instance

record Replica_res =
  ar_Instance :: Instance
  ar_Name :: string
  ar_Mode :: string
  ar_BadTimestamp :: string

record Volume =
  av_Resource :: Resource
  av_Name :: string
  av_Size :: string
  av_BaseImage :: string
  av_FromBackup :: string
  av_NumberOfReplicas :: int
  av_StaleReplicaTimeout :: int
  av_State :: string
  av_EngineImage :: string
  av_Endpoint :: string
  av_Created :: string
  av_RecurringJobs :: "RecurringJob list option"
  av_Replicas :: "Replica_res list option"
  av_Controller :: "Controller_res option"

record Snapshot =
  as_Resource :: Resource
  as_SnapshotInfo :: SnapshotInfo

record Host =
  ah_Resource :: Resource
  ah_UUID :: string
  ah_Name :: string
  ah_Address :: string

record BackupVolume =
  ab_Resource :: Resource
  ab_BackupVolumeInfo :: BackupVolumeInfo

record Backup =
  ak_Resource :: Resource
  ak_BackupInfo :: BackupInfo

record Setting =
  ag_Resource :: Resource
  ag_Name :: string
  ag_Value :: string

record 'w BgTask_res =
  at_Resource :: Resource
  at_BgTask :: "'w Task BgTask"

record AttachInput =
  ia_HostID :: string

record SnapshotInput =
  is_Name :: string
  is_Labels :: "string gomap option"

record BackupInput =
  ib_Name :: string

record RecurringInput =
  ir_Jobs :: "RecurringJob list option"

record ReplicaRemoveInput =
  irr_Name :: string

text \<open>What the handlers write.  The elements of a collection are pointers.\<close>

datatype 'w obj =
    VolumeObj Volume
  | SnapshotObj "Snapshot option"
  | HostObj Host
  | BackupVolumeObj "BackupVolume option"
  | BackupObj "Backup option"
  | SettingObj Setting
  | BgTaskObj "'w BgTask_res"
  | Empty

record 'w GenericCollection =
  gc_ResourceType :: string
  gc_CreateTypes :: "string gomap"
  gc_Data :: "'w obj list"

section \<open>Reading the inputs\<close>

definition members :: "json \<Rightarrow> (string \<times> json) list option" where
  "members j = (case j of JNull \<Rightarrow> Some [] | JObj ms \<Rightarrow> Some ms | _ \<Rightarrow> None)"

definition dec_str :: "json \<Rightarrow> string option" where
  "dec_str j = (case j of JNull \<Rightarrow> Some [] | JStr s \<Rightarrow> Some s | _ \<Rightarrow> None)"

definition dec_AttachInput :: "json \<Rightarrow> AttachInput option" where
  "dec_AttachInput j = do { ms \<leftarrow> members j; h \<leftarrow> get_string ms ''hostId''; Some \<lparr>ia_HostID = h\<rparr> }"

definition dec_SnapshotInput :: "json \<Rightarrow> SnapshotInput option" where
  "dec_SnapshotInput j = do {
     ms \<leftarrow> members j;
     n \<leftarrow> get_string ms ''name'';
     l \<leftarrow> get_ptr (dec_map dec_str) ms ''labels'';
     Some \<lparr>is_Name = n, is_Labels = l\<rparr> }"

definition dec_BackupInput :: "json \<Rightarrow> BackupInput option" where
  "dec_BackupInput j = do { ms \<leftarrow> members j; n \<leftarrow> get_string ms ''name''; Some \<lparr>ib_Name = n\<rparr> }"

definition dec_RecurringInput :: "json \<Rightarrow> RecurringInput option" where
  "dec_RecurringInput j = do {
     ms \<leftarrow> members j;
     js \<leftarrow> get_ptr (dec_slice dec_RecurringJob) ms ''jobs'';
     Some \<lparr>ir_Jobs = js\<rparr> }"

definition dec_ReplicaRemoveInput :: "json \<Rightarrow> ReplicaRemoveInput option" where
  "dec_ReplicaRemoveInput j = do { ms \<leftarrow> members j; n \<leftarrow> get_string ms ''name''; Some \<lparr>irr_Name = n\<rparr> }"

definition dec_Resource :: "(string \<times> json) list \<Rightarrow> Resource option" where
  "dec_Resource ms = do {
     i \<leftarrow> get_string ms ''id'';
     t \<leftarrow> get_string ms ''type'';
     l \<leftarrow> get_ptr (dec_map dec_str) ms ''links'';
     a \<leftarrow> get_ptr (dec_map dec_str) ms ''actions'';
     Some \<lparr>rs_Id = i, rs_Type = t, rs_Links = l, rs_Actions = a\<rparr> }"

definition dec_Setting :: "json \<Rightarrow> Setting option" where
  "dec_Setting j = do {
     ms \<leftarrow> members j;
     r \<leftarrow> dec_Resource ms;
     n \<leftarrow> get_string ms ''name'';
     v \<leftarrow> get_string ms ''value'';
     Some \<lparr>ag_Resource = r, ag_Name = n, ag_Value = v\<rparr> }"

definition dec_Instance :: "(string \<times> json) list \<Rightarrow> Instance option" where
  "dec_Instance ms = do {
     h \<leftarrow> get_string ms ''hostId'';
     a \<leftarrow> get_string ms ''address'';
     r \<leftarrow> get_bool ms ''running'';
     Some \<lparr>ai_HostID = h, ai_Address = a, ai_Running = r\<rparr> }"

definition dec_Replica_res :: "json \<Rightarrow> Replica_res option" where
  "dec_Replica_res j = do {
     ms \<leftarrow> members j;
     i \<leftarrow> dec_Instance ms;
     n \<leftarrow> get_string ms ''name'';
     m \<leftarrow> get_string ms ''mode'';
     b \<leftarrow> get_string ms ''badTimestamp'';
     Some \<lparr>ar_Instance = i, ar_Name = n, ar_Mode = m, ar_BadTimestamp = b\<rparr> }"

definition dec_Controller_res :: "json \<Rightarrow> Controller_res option" where
  "dec_Controller_res j = do { ms \<leftarrow> members j; i \<leftarrow> dec_Instance ms; Some \<lparr>ac_Instance = i\<rparr> }"

definition dec_Volume :: "json \<Rightarrow> Volume option" where
  "dec_Volume j = do {
     ms \<leftarrow> members j;
     r \<leftarrow> dec_Resource ms;
     n \<leftarrow> get_string ms ''name'';
     sz \<leftarrow> get_string ms ''size'';
     bi \<leftarrow> get_string ms ''baseImage'';
     fb \<leftarrow> get_string ms ''fromBackup'';
     nr \<leftarrow> get_int ms ''numberOfReplicas'';
     st \<leftarrow> get_int ms ''staleReplicaTimeout'';
     s \<leftarrow> get_string ms ''state'';
     ei \<leftarrow> get_string ms ''engineImage'';
     ep \<leftarrow> get_string ms ''endpoint'';
     cr \<leftarrow> get_string ms ''created'';
     js \<leftarrow> get_ptr (dec_slice dec_RecurringJob) ms ''recurringJobs'';
     rs \<leftarrow> get_ptr (dec_slice dec_Replica_res) ms ''replicas'';
     c \<leftarrow> get_ptr dec_Controller_res ms ''controller'';
     Some \<lparr>av_Resource = r, av_Name = n, av_Size = sz, av_BaseImage = bi, av_FromBackup = fb,
       av_NumberOfReplicas = nr, av_StaleReplicaTimeout = st, av_State = s, av_EngineImage = ei,
       av_Endpoint = ep, av_Created = cr, av_RecurringJobs = js, av_Replicas = rs, av_Controller = c\<rparr> }"

section \<open>Schemas\<close>

definition field_of :: "Schema \<Rightarrow> string \<Rightarrow> Field" where
  "field_of s k = (case map_of (sc_ResourceFields s) k of None \<Rightarrow> no_Field | Some f \<Rightarrow> f)"

definition set_field :: "string \<Rightarrow> Field \<Rightarrow> Schema \<Rightarrow> Schema" where
  "set_field k f s = s\<lparr>sc_ResourceFields := AList.update k f (sc_ResourceFields s)\<rparr>"

definition recurringSchema :: "Schema \<Rightarrow> Schema" where
  "recurringSchema recurring =
     (let jobs = (field_of recurring ''jobs'')\<lparr>fl_Type := ''array[recurringJob]''\<rparr>
      in set_field ''jobs'' jobs recurring)"

definition settingSchema :: "Schema \<Rightarrow> Schema" where
  "settingSchema setting =
     (let setting = setting\<lparr>sc_CollectionMethods := [''GET''], sc_ResourceMethods := [''GET'', ''PUT'']\<rparr>;
          settingName = (field_of setting ''name'')\<lparr>fl_Required := True, fl_Unique := True\<rparr>;
          setting = set_field ''name'' settingName setting;
          settingValue = (field_of setting ''value'')\<lparr>fl_Required := True, fl_Update := True\<rparr>
      in set_field ''value'' settingValue setting)"

definition hostSchema :: "Schema \<Rightarrow> Schema" where
  "hostSchema host = host\<lparr>sc_CollectionMethods := [''GET''], sc_ResourceMethods := [''GET'']\<rparr>"

definition action :: "string \<Rightarrow> string \<Rightarrow> Action" where
  "action i out = \<lparr>an_Input = i, an_Output = out\<rparr>"

definition volume_actions :: "Action gomap" where
  "volume_actions =
     [(''attach'', action ''attachInput'' ''volume''), (''detach'', action [] ''volume''), (''snapshotPurge'', action [] []),
      (''snapshotCreate'', action ''snapshotInput'' ''snapshot''), (''snapshotGet'', action ''snapshotInput'' ''snapshot''),
      (''snapshotList'', action [] []), (''snapshotDelete'', action ''snapshotInput'' ''snapshot''),
      (''snapshotRevert'', action ''snapshotInput'' ''snapshot''), (''snapshotBackup'', action ''snapshotInput'' []),
      (''recurringUpdate'', action ''recurringInput'' []), (''bgTaskQueue'', action [] []),
      (''replicaRemove'', action ''replicaRemoveInput'' ''volume'')]"

definition volumeSchema :: "Schema \<Rightarrow> Schema" where
  "volumeSchema volume =
     (let volume = volume\<lparr>sc_CollectionMethods := [''GET'', ''POST''], sc_ResourceMethods := [''GET'', ''DELETE''],
            sc_ResourceActions := volume_actions\<rparr>;
          volume = set_field ''controller'' (no_Field\<lparr>fl_Type := ''struct'', fl_Nullable := True\<rparr>) volume;
          volumeName = (field_of volume ''name'')\<lparr>fl_Create := True, fl_Required := True, fl_Unique := True\<rparr>;
          volume = set_field ''name'' volumeName volume;
          volumeSize = (field_of volume ''size'')\<lparr>fl_Create := True, fl_Required := True, fl_Default := StrDefault ''100G''\<rparr>;
          volume = set_field ''size'' volumeSize volume;
          volumeFromBackup = (field_of volume ''fromBackup'')\<lparr>fl_Create := True\<rparr>;
          volume = set_field ''fromBackup'' volumeFromBackup volume;
          volumeNumberOfReplicas =
            (field_of volume ''numberOfReplicas'')\<lparr>fl_Create := True, fl_Required := True, fl_Default := IntDefault 2\<rparr>;
          volume = set_field ''numberOfReplicas'' volumeNumberOfReplicas volume;
          volumeStaleReplicaTimeout = (field_of volume ''staleReplicaTimeout'')\<lparr>fl_Create := True, fl_Default := IntDefault 20\<rparr>
      in set_field ''staleReplicaTimeout'' volumeStaleReplicaTimeout volume)"

definition backupVolumeSchema :: "Schema \<Rightarrow> Schema" where
  "backupVolumeSchema backupVolume = backupVolume\<lparr>sc_CollectionMethods := [''GET''], sc_ResourceMethods := [''GET''],
     sc_ResourceActions := [(''backupList'', action [] []), (''backupGet'', action ''backupInput'' ''backup''),
       (''backupDelete'', action ''backupInput'' ''backupVolume'')]\<rparr>"

text \<open>\<open>AddType\<close> of go-rancher appends a schema and returns a pointer to it, through which the
  functions above change it before the next one is added.\<close>

definition guessPluralName :: "string \<Rightarrow> string" where
  "guessPluralName name =
     (if name = [] then []
      else if suffix ''s'' name \<or> suffix ''ch'' name \<or> suffix ''x'' name then name @ ''es'' else name @ ''s'')"

definition AddType :: "(string \<Rightarrow> Field gomap) \<Rightarrow> string \<Rightarrow> (Schema \<Rightarrow> Schema) \<Rightarrow> Schema list \<Rightarrow> Schema list" where
  "AddType flds name change schemas = schemas @ [change \<lparr>sc_Id = name, sc_PluralName = guessPluralName name,
     sc_ResourceMethods = [''GET''], sc_ResourceFields = flds name, sc_ResourceActions = [], sc_CollectionMethods = [''GET'']\<rparr>]"

definition NewSchema :: "(string \<Rightarrow> Field gomap) \<Rightarrow> Schema list" where
  "NewSchema flds = fold (\<lambda>(name, change). AddType flds name change)
     [(''apiVersion'', id), (''schema'', id), (''error'', id), (''snapshot'', id), (''attachInput'', id), (''snapshotInput'', id),
      (''backup'', id), (''backupInput'', id), (''recurringJob'', id), (''bgTask'', id), (''replicaRemoveInput'', id),
      (''host'', hostSchema), (''volume'', volumeSchema), (''backupVolume'', backupVolumeSchema), (''setting'', settingSchema),
      (''recurringInput'', recurringSchema)] []"

section \<open>Conversions\<close>

definition toSettingResource :: "string \<Rightarrow> string \<Rightarrow> Setting" where
  "toSettingResource name val = \<lparr>ag_Resource = no_Resource\<lparr>rs_Id := name, rs_Type := ''setting''\<rparr>, ag_Name = name, ag_Value = val\<rparr>"

definition toSettingCollection :: "SettingsInfo \<Rightarrow> 'w GenericCollection" where
  "toSettingCollection settings = \<lparr>gc_ResourceType = ''setting'', gc_CreateTypes = [],
     gc_Data = [SettingObj (toSettingResource ''backupTarget'' (s_BackupTarget settings)),
                SettingObj (toSettingResource ''engineImage'' (s_EngineImage settings))]\<rparr>"

definition toInstance :: "InstanceInfo \<Rightarrow> Instance" where
  "toInstance i = \<lparr>ai_HostID = i_HostID i, ai_Address = i_Address i, ai_Running = i_Running i\<rparr>"

definition toReplica :: "ReplicaInfo \<Rightarrow> Replica_res" where
  "toReplica r = \<lparr>ar_Instance = toInstance (r_InstanceInfo r), ar_Name = i_Name (r_InstanceInfo r),
     ar_Mode = (if i_Running (r_InstanceInfo r) then r_Mode r else []), ar_BadTimestamp = r_BadTimestamp r\<rparr>"

definition running_actions :: "string list" where
  "running_actions = [''detach'', ''snapshotPurge'', ''snapshotCreate'', ''snapshotList'', ''snapshotGet'', ''snapshotDelete'',
     ''snapshotRevert'', ''snapshotBackup'', ''recurringUpdate'', ''bgTaskQueue'', ''replicaRemove'']"

definition state_actions :: "string \<Rightarrow> string list" where
  "state_actions s =
     (if s = VolumeStateDetached then [''attach'', ''recurringUpdate'', ''replicaRemove'']
      else if s = VolumeStateHealthy then running_actions
      else if s = VolumeStateDegraded then running_actions
      else if s = VolumeStateCreated then [''recurringUpdate'']
      else [])"

definition toVolumeResource :: "VolumeInfo \<Rightarrow> ApiContext \<Rightarrow> Volume" where
  "toVolumeResource v apiContext =
     (let resource = \<lparr>rs_Id = v_Name v, rs_Type = ''volume'', rs_Links = Some [], rs_Actions = Some []\<rparr>
      in \<lparr>av_Resource = resource\<lparr>rs_Actions := Some (map (\<lambda>a. (a, ac_ActionLink apiContext resource a)) (state_actions (v_State v)))\<rparr>,
          av_Name = v_Name v, av_Size = FormatInt (sint (v_Size v)), av_BaseImage = v_BaseImage v, av_FromBackup = v_FromBackup v,
          av_NumberOfReplicas = v_NumberOfReplicas v,
          av_StaleReplicaTimeout = sint (quo64 (v_StaleReplicaTimeout v) (word_of_int Minute)),
          av_State = v_State v, av_EngineImage = v_EngineImage v, av_Endpoint = v_Endpoint v, av_Created = v_Created v,
          av_RecurringJobs = v_RecurringJobs v, av_Replicas = Some (map (\<lambda>(k, r). toReplica r) (replicas_of v)),
          av_Controller = map_option (\<lambda>c. \<lparr>ac_Instance = toInstance (c_InstanceInfo c)\<rparr>) (v_Controller v)\<rparr>)"

definition toSnapshotResource :: "SnapshotInfo option \<Rightarrow> Snapshot option" where
  "toSnapshotResource s = (case s of
      None \<Rightarrow> None
    | Some s \<Rightarrow> Some \<lparr>as_Resource = no_Resource\<lparr>rs_Id := sn_Name s, rs_Type := ''snapshot''\<rparr>, as_SnapshotInfo = s\<rparr>)"

definition toBgTaskRes :: "'w Task BgTask \<Rightarrow> 'w BgTask_res" where
  "toBgTaskRes bt = \<lparr>at_Resource = no_Resource\<lparr>rs_Id := FormatInt (sint (bt_Num bt)), rs_Type := ''bgTask''\<rparr>, at_BgTask = bt\<rparr>"

definition toBgTaskCollection :: "'w Task BgTask list \<Rightarrow> 'w GenericCollection" where
  "toBgTaskCollection bts = \<lparr>gc_ResourceType = ''bgTask'', gc_CreateTypes = [], gc_Data = map (\<lambda>v. BgTaskObj (toBgTaskRes v)) bts\<rparr>"

definition toSnapshotCollection :: "SnapshotInfo option list \<Rightarrow> 'w GenericCollection" where
  "toSnapshotCollection ss = \<lparr>gc_ResourceType = ''snapshot'', gc_CreateTypes = [],
     gc_Data = map (\<lambda>v. SnapshotObj (toSnapshotResource v)) ss\<rparr>"

definition toHostResource :: "HostInfo \<Rightarrow> Host" where
  "toHostResource h = \<lparr>ah_Resource = no_Resource\<lparr>rs_Id := h_UUID h, rs_Type := ''host'', rs_Actions := Some []\<rparr>,
     ah_UUID = h_UUID h, ah_Name = h_Name h, ah_Address = h_Address h\<rparr>"

definition toHostCollection :: "HostInfo gomap \<Rightarrow> 'w GenericCollection" where
  "toHostCollection hosts = \<lparr>gc_ResourceType = [], gc_CreateTypes = [], gc_Data = map (\<lambda>(k, v). HostObj (toHostResource v)) hosts\<rparr>"

definition toBackupVolumeResource :: "BackupVolumeInfo option \<Rightarrow> ApiContext \<Rightarrow> BackupVolume option" where
  "toBackupVolumeResource bv apiContext = (case bv of
      None \<Rightarrow> None
    | Some bv \<Rightarrow>
        (let resource = no_Resource\<lparr>rs_Id := bv_Name bv, rs_Type := ''backupVolume'', rs_Links := Some []\<rparr>
         in Some \<lparr>ab_Resource = resource\<lparr>rs_Actions := Some (map (\<lambda>a. (a, ac_ActionLink apiContext resource a))
                    [''backupList'', ''backupGet'', ''backupDelete''])\<rparr>,
                  ab_BackupVolumeInfo = bv\<rparr>))"

definition toBackupVolumeCollection :: "BackupVolumeInfo option list \<Rightarrow> ApiContext \<Rightarrow> 'w GenericCollection" where
  "toBackupVolumeCollection bv apiContext = \<lparr>gc_ResourceType = ''backupVolume'', gc_CreateTypes = [],
     gc_Data = map (\<lambda>v. BackupVolumeObj (toBackupVolumeResource v apiContext)) bv\<rparr>"

definition toBackupResource :: "BackupInfo option \<Rightarrow> Backup option" where
  "toBackupResource b = (case b of
      None \<Rightarrow> None
    | Some b \<Rightarrow> Some \<lparr>ak_Resource = no_Resource\<lparr>rs_Id := bk_Name b, rs_Type := ''backup'', rs_Links := Some []\<rparr>, ak_BackupInfo = b\<rparr>)"

definition toBackupCollection :: "BackupInfo option list \<Rightarrow> 'w GenericCollection" where
  "toBackupCollection bs = \<lparr>gc_ResourceType = ''backup'', gc_CreateTypes = [], gc_Data = map (\<lambda>v. BackupObj (toBackupResource v)) bs\<rparr>"

end
