(* ===== verification/Api.thy ===== *)
theory Api
  imports ApiModel
begin

text \<open>
  The HTTP API: \<open>api/api.go\<close>, \<open>impl.go\<close>, \<open>internal.go\<close>, \<open>volume.go\<close>, \<open>snapshot.go\<close>, \<open>backup.go\<close>,
  \<open>settings.go\<close> and \<open>host.go\<close>, and \<open>util/http.go\<close>.  A handler takes the request and returns what
  it did to the response writer (a list of \<open>act\<close>), an error, or a panic; a handler that
  returns nil without writing returns the empty list, which net/http answers with status 200
  and no body.  The state is the manager's.  The JSON document of a body, the variables of
  the path and the URL builder are parts of the request; the reverse proxy is the parameter
  \<open>sv_proxy\<close> and docker's size parser the parameter \<open>RAMInBytes\<close>.
\<close>

section \<open>Requests and responses\<close>

datatype body = Unread "json option" | Drained

record Request =
  rq_Method :: string
  rq_Path :: "string list"
  rq_Action :: "string option"
  rq_Host :: string
  rq_URLHost :: string
  rq_URLScheme :: string
  rq_Vars :: "string gomap"
  rq_Body :: body
  rq_api :: ApiContext

text \<open>\<open>Write\<close> and \<open>WriteErr\<close> are go-rancher's, \<open>Encode\<close> writes a JSON document.  \<open>Rancher\<close> stands
  for a request that one of go-rancher's own handlers answers.\<close>

datatype 'w act =
    WriteHeader int
  | Write "'w obj"
  | WriteCollection "'w GenericCollection"
  | Encode json
  | WriteErr gerr
  | Rancher string

type_synonym ('w, 'm) handler = "Request \<Rightarrow> (('w, 'm) man, 'w act list) op"

definition Vars :: "Request \<Rightarrow> string \<Rightarrow> string" where
  "Vars req k = (case map_of (rq_Vars req) k of None \<Rightarrow> [] | Some v \<Rightarrow> v)"

definition ReadAll :: "body \<Rightarrow> json option" where
  "ReadAll b = (case b of Unread j \<Rightarrow> j | Drained \<Rightarrow> None)"

text \<open>The document at the start of the body, decoded.\<close>

definition Decode :: "(json \<Rightarrow> 'a option) \<Rightarrow> Request \<Rightarrow> ('s, 'a) op" where
  "Decode dec req = (case ReadAll (rq_Body req) of
      None \<Rightarrow> fail (Ext ''json'')
    | Some j \<Rightarrow> (case dec j of None \<Rightarrow> fail (Ext ''json'') | Some a \<Rightarrow> ret a))"

text \<open>The copy, and the request with the body it can still be read from.\<close>

definition CopyReq :: "Request \<Rightarrow> Request \<times> Request" where
  "CopyReq req =
     (let r = req;
          buf = ReadAll (rq_Body r);
          req = req\<lparr>rq_Body := Unread buf\<rparr>;
          r = r\<lparr>rq_Body := Unread buf\<rparr>
      in (r, req))"

text \<open>Returning \<open>errors.Wrap(err, ...)\<close> where \<open>err\<close> may be nil.\<close>

definition return_Wrap :: "gerr option \<Rightarrow> string \<Rightarrow> ('s, 'w act list) op" where
  "return_Wrap e m = (case errors_Wrapf e m of None \<Rightarrow> ret [] | Some e \<Rightarrow> fail e)"

section \<open>The server\<close>

record 'w ServiceLocator =
  sl_GetCurrentHostID :: string
  sl_GetAddress :: "string \<Rightarrow> ('w, string) op"

record 'w Settings =
  se_GetSettings :: "('w, SettingsInfo option) op"
  se_SetSettings :: "SettingsInfo \<Rightarrow> ('w, unit) op"

definition Manager_Settings :: "('w, 'm) volumeManager \<Rightarrow> 'w Settings" where
  "Manager_Settings man = \<lparr>se_GetSettings = orc_GetSettings (vm_orc man), se_SetSettings = orc_SetSettings (vm_orc man)\<rparr>"

definition Manager_ManagerBackupOps :: "('w, 'm) volumeManager \<Rightarrow> string \<Rightarrow> 'w ManagerBackupOps" where
  "Manager_ManagerBackupOps man backupTarget = vm_getBackups man backupTarget"

record ('w, 'm) Fwd =
  fw_sl :: "'w ServiceLocator"
  fw_proxy :: "Request \<Rightarrow> ('w, 'm) man \<Rightarrow> 'w act list \<times> ('w, 'm) man"

record ('w, 'm) Server =
  sv_man :: "('w, 'm) volumeManager"
  sv_sl :: "'w ServiceLocator"
  sv_proxy :: "Request \<Rightarrow> ('w, 'm) man \<Rightarrow> 'w act list \<times> ('w, 'm) man"
  sv_fwd :: "('w, 'm) Fwd"
  sv_snapshots :: "('w, 'm) volumeManager"
  sv_settings :: "'w Settings"
  sv_backups :: "('w, 'm) volumeManager"

definition NewServer ::
  "('w, 'm) volumeManager \<Rightarrow> 'w ServiceLocator \<Rightarrow> (Request \<Rightarrow> ('w, 'm) man \<Rightarrow> 'w act list \<times> ('w, 'm) man) \<Rightarrow> ('w, 'm) Server" where
  "NewServer m sl proxy = \<lparr>sv_man = m, sv_sl = sl, sv_proxy = proxy, sv_fwd = \<lparr>fw_sl = sl, fw_proxy = proxy\<rparr>,
     sv_snapshots = m, sv_settings = Manager_Settings m, sv_backups = m\<rparr>"

text \<open>The orchestrator as the service locator, as \<open>RunManager\<close> passes it.\<close>

definition orc_locator :: "'w Orchestrator \<Rightarrow> 'w ServiceLocator" where
  "orc_locator orc = \<lparr>sl_GetCurrentHostID = orc_GetCurrentHostID orc, sl_GetAddress = orc_GetAddress orc\<rparr>"

section \<open>impl.go\<close>

definition HostIDFromAttachReq :: "Request \<Rightarrow> (('w, 'm) man, string) op" where
  "HostIDFromAttachReq req = tryE (Decode dec_AttachInput req) (wrap ''error parsing request body'') (\<lambda>attachInput.
     ret (ia_HostID attachInput))"

definition HostIDFromVolume :: "('w, 'm) volumeManager \<Rightarrow> Request \<Rightarrow> (('w, 'm) man, string) op" where
  "HostIDFromVolume man req =
     (let name = Vars req ''name''
      in tryE (Manager_Get man name) (wrap (''error getting volume '' @ name)) (\<lambda>volume.
         case volume of
           None \<Rightarrow> ret []
         | Some volume \<Rightarrow> (case v_Controller volume of
             None \<Rightarrow> ret []
           | Some c \<Rightarrow> if \<not> i_Running (c_InstanceInfo c) then ret [] else ret (i_HostID (c_InstanceInfo c)))))"

definition forward_to :: "string \<Rightarrow> Request \<Rightarrow> Request" where
  "forward_to targetHost req = req\<lparr>rq_Host := targetHost, rq_URLHost := targetHost, rq_URLScheme := ''http''\<rparr>"

definition Fwd_Handler :: "('w, 'm) Fwd \<Rightarrow> (Request \<Rightarrow> (('w, 'm) man, string) op) \<Rightarrow> ('w, 'm) handler \<Rightarrow> ('w, 'm) handler" where
  "Fwd_Handler f getHostID h req =
     (let (r, req) = CopyReq req
      in tryE (getHostID r) (wrap ''fail to get host ID'') (\<lambda>hostID.
         if hostID \<noteq> [] \<and> hostID \<noteq> sl_GetCurrentHostID (fw_sl f)
         then tryE (io (sl_GetAddress (fw_sl f) hostID)) (wrap (''cannot find host '' @ hostID)) (\<lambda>targetHost.
           if targetHost \<noteq> rq_Host req then st (fw_proxy f (forward_to targetHost req)) ret
           else h req)
         else h req))"

section \<open>internal.go\<close>

text \<open>\<open>unbase64\<close> decodes the bytes of a string and the document they hold; no bytes are no data.\<close>

definition dec_bytes :: "(string \<Rightarrow> json option option) \<Rightarrow> json \<Rightarrow> json option option" where
  "dec_bytes unbase64 j = (case j of JStr s \<Rightarrow> unbase64 s | JNull \<Rightarrow> Some None | _ \<Rightarrow> None)"

definition get_members :: "(string \<times> json) list \<Rightarrow> string \<Rightarrow> (string \<times> json) list option" where
  "get_members ms k = (case map_of ms k of None \<Rightarrow> Some [] | Some j \<Rightarrow> members j)"

definition dec_ScheduleInput :: "(string \<Rightarrow> json option option) \<Rightarrow> json \<Rightarrow> ScheduleInput option" where
  "dec_ScheduleInput unbase64 j = do {
     ms \<leftarrow> members j;
     spec \<leftarrow> get_members ms ''Spec'';
     host \<leftarrow> get_string spec ''HostID'';
     item \<leftarrow> get_members ms ''Item'';
     act \<leftarrow> get_string item ''Action'';
     inst \<leftarrow> get_members item ''Instance'';
     i \<leftarrow> get_string inst ''ID'';
     t \<leftarrow> get_string inst ''Type'';
     h \<leftarrow> get_string inst ''HostID'';
     v \<leftarrow> get_string inst ''VolumeName'';
     n \<leftarrow> get_string inst ''Name'';
     data \<leftarrow> get_members item ''Data'';
     orc \<leftarrow> get_string data ''Orchestrator'';
     d \<leftarrow> (case map_of data ''Data'' of None \<Rightarrow> Some None | Some j \<Rightarrow> dec_bytes unbase64 j);
     Some \<lparr>in_Spec = \<lparr>ss_HostID = host\<rparr>,
       in_Item = \<lparr>it_Action = act,
         it_Instance = \<lparr>si_ID = i, si_Type = t, si_HostID = h, si_VolumeName = v, si_Name = n\<rparr>,
         it_Data = \<lparr>sd_Orchestrator = orc, sd_Data = d\<rparr>\<rparr>\<rparr> }"

definition Server_Schedule :: "(string \<Rightarrow> json option option) \<Rightarrow> ('w, 'm) Server \<Rightarrow> ('w, 'm) handler" where
  "Server_Schedule unbase64 s req =
     tryE (Decode (dec_ScheduleInput unbase64) req) (wrap ''error read scheduleInput'') (\<lambda>input.
     tryE (Manager_ProcessSchedule (sv_man s) (in_Spec input) (in_Item input))
       (wrap (''fail to execute '' @ it_Action (in_Item input))) (\<lambda>inst.
     ret [Encode (enc_ScheduleOutput \<lparr>out_Instance = inst\<rparr>)]))"

section \<open>volume.go\<close>

definition Server_ListVolume :: "('w, 'm) Server \<Rightarrow> ('w, 'm) handler" where
  "Server_ListVolume s req = tryE (Manager_List (sv_man s)) (wrap ''unable to list'') (\<lambda>volumes.
     ret [WriteCollection \<lparr>gc_ResourceType = ''volume'', gc_CreateTypes = [(''volume'', ac_Collection (rq_api req) ''volume'')],
       gc_Data = map (\<lambda>v. VolumeObj (toVolumeResource v (rq_api req))) volumes\<rparr>])"

definition Server_GetVolume :: "('w, 'm) Server \<Rightarrow> ('w, 'm) handler" where
  "Server_GetVolume s req = tryE (Manager_Get (sv_man s) (Vars req ''name'')) (wrap ''unable to get volume'') (\<lambda>v. case v of
      None \<Rightarrow> ret [WriteHeader 404, Write Empty]
    | Some v \<Rightarrow> ret [Write (VolumeObj (toVolumeResource v (rq_api req)))])"

definition Server_UpdateRecurring :: "('w, 'm) Server \<Rightarrow> ('w, 'm) handler" where
  "Server_UpdateRecurring s req =
     tryE (Decode dec_RecurringInput req) (wrap ''unable to parse recurring schedule for update'') (\<lambda>recurring.
     let jobs = (case ir_Jobs recurring of None \<Rightarrow> [] | Some js \<Rightarrow> js)
     in tryE (UpdateRecurring (sv_man s) (Vars req ''name'') jobs) (wrap ''unable to update volume recurring schedule'') (\<lambda>_.
        Server_GetVolume s req))"

definition Server_BgTaskQueue :: "('w, 'm) Server \<Rightarrow> ('w, 'm) handler" where
  "Server_BgTaskQueue s req =
     (let name = Vars req ''name''
      in tryE (Manager_Controller (sv_man s) name) (wrap (''unable to get VolumeBackupOps for volume '' @ name)) (\<lambda>c. case c of
           None \<Rightarrow> panic ''nil pointer dereference''
         | Some controller \<Rightarrow> tryE (io (ct_LatestBgTasks controller)) id (\<lambda>latest. tryE (io (ct_ListTasks controller)) id (\<lambda>tasks.
             ret [WriteCollection (toBgTaskCollection (latest @ tasks))]))))"

definition Server_DeleteVolume :: "('w, 'm) Server \<Rightarrow> ('w, 'm) handler" where
  "Server_DeleteVolume s req = tryE (Manager_Delete (sv_man s) (Vars req ''name'')) (wrap ''unable to delete volume'') (\<lambda>_. ret [])"

definition filterCreateVolumeInput :: "(string \<Rightarrow> gerr + int64) \<Rightarrow> Volume \<Rightarrow> gerr + VolumeInfo" where
  "filterCreateVolumeInput RAMInBytes v = (case ConvertSize RAMInBytes (SizeString (av_Size v)) of
      Inl e \<Rightarrow> Inl (wrap (''error converting size '' @ av_Size v) e)
    | Inr sz \<Rightarrow> Inr \<lparr>v_Name = av_Name v, v_Size = RoundUpSize sz, v_BaseImage = av_BaseImage v, v_FromBackup = av_FromBackup v,
        v_NumberOfReplicas = av_NumberOfReplicas v,
        v_StaleReplicaTimeout = word_of_int (av_StaleReplicaTimeout v) * word_of_int Minute,
        v_Controller = None, v_Replicas = None, v_State = [], v_EngineImage = [], v_Endpoint = [], v_Created = [],
        v_RecurringJobs = None\<rparr>)"

definition Server_CreateVolume :: "(string \<Rightarrow> gerr + int64) \<Rightarrow> ('w, 'm) Server \<Rightarrow> ('w, 'm) handler" where
  "Server_CreateVolume RAMInBytes s req = tryE (Decode dec_Volume req) id (\<lambda>v.
     case filterCreateVolumeInput RAMInBytes v of
       Inl e \<Rightarrow> fail (wrap ''unable to filter create volume input'' e)
     | Inr volume \<Rightarrow> tryE (Create (sv_man s) volume) (wrap ''unable to create volume'') (\<lambda>volumeResp. case volumeResp of
           None \<Rightarrow> panic ''nil pointer dereference''
         | Some v \<Rightarrow> ret [Write (VolumeObj (toVolumeResource v (rq_api req)))]))"

definition Server_AttachVolume :: "('w, 'm) Server \<Rightarrow> ('w, 'm) handler" where
  "Server_AttachVolume s req = tryE (Attach (sv_man s) (Vars req ''name'')) (wrap ''unable to attach volume'') (\<lambda>_.
     Server_GetVolume s req)"

definition Server_DetachVolume :: "('w, 'm) Server \<Rightarrow> ('w, 'm) handler" where
  "Server_DetachVolume s req = tryE (Detach (sv_man s) (Vars req ''name'')) (wrap ''unable to detach volume'') (\<lambda>_.
     Server_GetVolume s req)"

definition Server_ReplicaRemove :: "('w, 'm) Server \<Rightarrow> ('w, 'm) handler" where
  "Server_ReplicaRemove s req = tryE (Decode dec_ReplicaRemoveInput req) (wrap ''error read replicaRemoveInput'') (\<lambda>input.
     tryE (ReplicaRemove (sv_man s) (Vars req ''name'') (irr_Name input)) (wrap ''unable to remove replica'') (\<lambda>_.
     Server_GetVolume s req))"

section \<open>host.go\<close>

definition Server_ListHost :: "('w, 'm) Server \<Rightarrow> ('w, 'm) handler" where
  "Server_ListHost s req = tryE (Manager_ListHosts (sv_man s)) (wrap ''fail to list host'') (\<lambda>hosts.
     ret [WriteCollection (toHostCollection hosts)])"

definition Server_GetHost :: "('w, 'm) Server \<Rightarrow> ('w, 'm) handler" where
  "Server_GetHost s req = tryE (Manager_GetHost (sv_man s) (Vars req ''id'')) (wrap ''fail to get host'') (\<lambda>host. case host of
      None \<Rightarrow> panic ''nil pointer dereference''
    | Some h \<Rightarrow> ret [Write (HostObj (toHostResource h))])"

section \<open>settings.go\<close>

definition SettingsHandlers_List :: "'w Settings \<Rightarrow> ('w, 'm) handler" where
  "SettingsHandlers_List s req = tryE (io (se_GetSettings s)) (wrap ''fail to read settings'') (\<lambda>si. case si of
      None \<Rightarrow> panic ''nil pointer dereference''
    | Some si \<Rightarrow> ret [WriteCollection (toSettingCollection si)])"

definition SettingsHandlers_Get :: "'w Settings \<Rightarrow> ('w, 'm) handler" where
  "SettingsHandlers_Get s req =
     (let name = Vars req ''name''
      in attempt (io (se_GetSettings s)) (\<lambda>r. case r of
           Inl err \<Rightarrow> return_Wrap (Some err) ''fail to read settings''
         | Inr None \<Rightarrow> return_Wrap None ''fail to read settings''
         | Inr (Some si) \<Rightarrow>
             if name = ''backupTarget'' then ret [Write (SettingObj (toSettingResource name (s_BackupTarget si)))]
             else if name = ''engineImage'' then ret [Write (SettingObj (toSettingResource name (s_EngineImage si)))]
             else fail (Errorf (''invalid setting name '' @ name))))"

definition SettingsHandlers_Set :: "'w Settings \<Rightarrow> ('w, 'm) handler" where
  "SettingsHandlers_Set s req = tryE (Decode dec_Setting req) id (\<lambda>setting.
     let name = Vars req ''name'';
         store = (\<lambda>si. tryE (io (se_SetSettings s si)) (wrap ''fail to set settings'') (\<lambda>_.
           ret [Write (SettingObj (toSettingResource name (ag_Value setting)))]))
     in attempt (io (se_GetSettings s)) (\<lambda>r. case r of
           Inl err \<Rightarrow> return_Wrap (Some err) ''fail to read settings''
         | Inr None \<Rightarrow> return_Wrap None ''fail to read settings''
         | Inr (Some si) \<Rightarrow>
             if name = ''backupTarget'' then store (si\<lparr>s_BackupTarget := ag_Value setting\<rparr>)
             else if name = ''engineImage'' then store (si\<lparr>s_EngineImage := ag_Value setting\<rparr>)
             else return_Wrap None (''invalid setting name '' @ name)))"

section \<open>snapshot.go\<close>

text \<open>What several handlers do: the volume of the path, its snapshot operations, the snapshot
  that was asked for.\<close>

definition with_volume :: "('w, 'm) volumeManager \<Rightarrow> Request \<Rightarrow> (string \<Rightarrow> (('w, 'm) man, 'w act list) op) \<Rightarrow> (('w, 'm) man, 'w act list) op" where
  "with_volume man req k =
     (let volName = Vars req ''name''
      in if volName = [] then fail (Errorf ''volume name required'') else k volName)"

definition with_snapOps ::
  "('w, 'm) volumeManager \<Rightarrow> Request \<Rightarrow> (string \<Rightarrow> 'w Controller \<Rightarrow> (('w, 'm) man, 'w act list) op) \<Rightarrow> (('w, 'm) man, 'w act list) op" where
  "with_snapOps man req k = with_volume man req (\<lambda>volName.
     tryE (Manager_SnapshotOps man volName) (wrap (''error getting SnapshotOps for volume '' @ volName)) (k volName))"

definition named_input :: "Request \<Rightarrow> (SnapshotInput \<Rightarrow> (('w, 'm) man, 'w act list) op) \<Rightarrow> (('w, 'm) man, 'w act list) op" where
  "named_input req k = tryE (Decode dec_SnapshotInput req) (wrap ''error read snapshotInput'') (\<lambda>input.
     if is_Name input = [] then fail (Errorf ''empty snapshot name not allowed'') else k input)"

definition show_snapshot :: "'w Controller \<Rightarrow> string \<Rightarrow> gerr \<Rightarrow> (('w, 'm) man, 'w act list) op" where
  "show_snapshot snapOps name missing = tryE (io (ct_Get snapOps name)) (wrap (''error getting snapshot '' @ name)) (\<lambda>snap. case snap of
      None \<Rightarrow> fail missing
    | Some s \<Rightarrow> ret [Write (SnapshotObj (toSnapshotResource (Some s)))])"

definition not_found :: "string \<Rightarrow> string \<Rightarrow> gerr" where
  "not_found name volName = Errorf (''not found snapshot '' @ name @ '', for volume '' @ volName)"

definition bad_label :: "string \<times> string \<Rightarrow> bool" where
  "bad_label l \<longleftrightarrow> CHR ''='' \<in> set (fst l) \<or> CHR ''='' \<in> set (snd l)"

definition SnapshotHandlers_Create :: "('w, 'm) volumeManager \<Rightarrow> ('w, 'm) handler" where
  "SnapshotHandlers_Create man req = tryE (Decode dec_SnapshotInput req) (wrap ''error read snapshotInput'') (\<lambda>input.
     let labels = (case is_Labels input of None \<Rightarrow> [] | Some ls \<Rightarrow> ls)
     in if list_ex bad_label labels then fail (Errorf (''labels cannot contain '' @ ''=''))
        else with_snapOps man req (\<lambda>volName snapOps.
          tryE (io (ct_Create snapOps (is_Name input) labels)) (wrap (''error creating snapshot '' @ is_Name input)) (\<lambda>snapName.
          show_snapshot snapOps snapName (Errorf (''not found just created snapshot '' @ snapName @ '', for volume '' @ volName)))))"

definition SnapshotHandlers_List :: "('w, 'm) volumeManager \<Rightarrow> ('w, 'm) handler" where
  "SnapshotHandlers_List man req = with_snapOps man req (\<lambda>volName snapOps.
     tryE (io (ct_List snapOps)) (wrap (''error listing snapshots, for volume '' @ volName)) (\<lambda>snapList.
     ret [WriteCollection (toSnapshotCollection snapList)]))"

definition SnapshotHandlers_Get :: "('w, 'm) volumeManager \<Rightarrow> ('w, 'm) handler" where
  "SnapshotHandlers_Get man req = named_input req (\<lambda>input. with_snapOps man req (\<lambda>volName snapOps.
     show_snapshot snapOps (is_Name input) (not_found (is_Name input) volName)))"

definition SnapshotHandlers_Delete :: "('w, 'm) volumeManager \<Rightarrow> ('w, 'm) handler" where
  "SnapshotHandlers_Delete man req = named_input req (\<lambda>input. with_snapOps man req (\<lambda>volName snapOps.
     tryE (io (ct_Delete snapOps (is_Name input))) (wrap (''error deleting snapshot '' @ is_Name input)) (\<lambda>_.
     show_snapshot snapOps (is_Name input) (not_found (is_Name input) volName))))"

definition SnapshotHandlers_Revert :: "('w, 'm) volumeManager \<Rightarrow> ('w, 'm) handler" where
  "SnapshotHandlers_Revert man req = named_input req (\<lambda>input. with_snapOps man req (\<lambda>volName snapOps.
     tryE (io (ct_Revert snapOps (is_Name input))) (wrap (''error reverting to snapshot '' @ is_Name input)) (\<lambda>_.
     show_snapshot snapOps (is_Name input) (not_found (is_Name input) volName))))"

definition with_backupTarget :: "('w, 'm) volumeManager \<Rightarrow> (string \<Rightarrow> (('w, 'm) man, 'w act list) op) \<Rightarrow> (('w, 'm) man, 'w act list) op" where
  "with_backupTarget man k = attempt (io (se_GetSettings (Manager_Settings man))) (\<lambda>r. case r of
      Inr (Some settings) \<Rightarrow>
        if s_BackupTarget settings = [] then fail (Errorf ''cannot backup: backupTarget not set'') else k (s_BackupTarget settings)
    | _ \<Rightarrow> fail (Errorf ''cannot backup: unable to read settings''))"

definition SnapshotHandlers_Backup :: "('w, 'm) volumeManager \<Rightarrow> ('w, 'm) handler" where
  "SnapshotHandlers_Backup man req = named_input req (\<lambda>input. with_volume man req (\<lambda>volName. with_backupTarget man (\<lambda>backupTarget.
     tryE (VolumeBackupOps man volName) (wrap (''error getting VolumeBackupOps for volume '' @ volName)) (\<lambda>backups.
     tryE (io (ct_StartBackup backups (is_Name input) backupTarget)) (wrap (''error creating backup: snapshot '' @ is_Name input)) (\<lambda>_.
     ret [Write Empty])))))"

definition SnapshotHandlers_Purge :: "('w, 'm) volumeManager \<Rightarrow> ('w, 'm) handler" where
  "SnapshotHandlers_Purge man req = with_snapOps man req (\<lambda>volName snapOps.
     tryE (io (ct_Purge snapOps)) (wrap (''error purging snapshots, for volume '' @ volName)) (\<lambda>_. ret [Write Empty]))"

section \<open>backup.go\<close>

definition backupURL :: "string \<Rightarrow> string \<Rightarrow> string \<Rightarrow> string" where
  "backupURL backupTarget backupName volName = backupTarget @ ''?backup='' @ backupName @ ''&volume='' @ volName"

definition BackupsHandlers_ListVolume :: "('w, 'm) volumeManager \<Rightarrow> ('w, 'm) handler" where
  "BackupsHandlers_ListVolume man req = with_backupTarget man (\<lambda>backupTarget.
     tryE (io (mb_ListVolumes (Manager_ManagerBackupOps man backupTarget))) (wrap (''error listing backups, backupTarget '' @ backupTarget)) (\<lambda>volumes.
     ret [WriteCollection (toBackupVolumeCollection (map Some volumes) (rq_api req))]))"

definition BackupsHandlers_GetVolume :: "('w, 'm) volumeManager \<Rightarrow> ('w, 'm) handler" where
  "BackupsHandlers_GetVolume man req = with_backupTarget man (\<lambda>backupTarget.
     tryE (io (mb_GetVolume (Manager_ManagerBackupOps man backupTarget) (Vars req ''volName'')))
       (wrap (''error get backup volume, backupTarget '' @ backupTarget)) (\<lambda>bv.
     ret [Write (BackupVolumeObj (toBackupVolumeResource (Some bv) (rq_api req)))]))"

definition BackupsHandlers_List :: "('w, 'm) volumeManager \<Rightarrow> ('w, 'm) handler" where
  "BackupsHandlers_List man req = with_backupTarget man (\<lambda>backupTarget.
     tryE (io (mb_List (Manager_ManagerBackupOps man backupTarget) (Vars req ''volName'')))
       (wrap (''error listing backups, backupTarget '' @ backupTarget)) (\<lambda>bs.
     ret [WriteCollection (toBackupCollection (map Some bs))]))"

definition named_backup :: "('w, 'm) volumeManager \<Rightarrow> Request \<Rightarrow> (string \<Rightarrow> string \<Rightarrow> (('w, 'm) man, 'w act list) op) \<Rightarrow> (('w, 'm) man, 'w act list) op" where
  "named_backup man req k = tryE (Decode dec_BackupInput req) id (\<lambda>input.
     if ib_Name input = [] then fail (Errorf ''empty backup name is not allowed'')
     else with_backupTarget man (\<lambda>backupTarget. k backupTarget (backupURL backupTarget (ib_Name input) (Vars req ''volName''))))"

definition BackupsHandlers_Get :: "('w, 'm) volumeManager \<Rightarrow> ('w, 'm) handler" where
  "BackupsHandlers_Get man req = named_backup man req (\<lambda>backupTarget url.
     tryE (io (mb_Get (Manager_ManagerBackupOps man backupTarget) url)) (wrap (''error getting backup '' @ url)) (\<lambda>backup. case backup of
         None \<Rightarrow> ret [WriteHeader 404]
       | Some b \<Rightarrow> ret [Write (BackupObj (toBackupResource (Some b)))]))"

definition BackupsHandlers_Delete :: "('w, 'm) volumeManager \<Rightarrow> ('w, 'm) handler" where
  "BackupsHandlers_Delete man req = named_backup man req (\<lambda>backupTarget url.
     tryE (io (mb_Delete (Manager_ManagerBackupOps man backupTarget) url)) (wrap (''error deleting backup '' @ url)) (\<lambda>_. ret [Write Empty]))"

section \<open>api.go\<close>

definition HandleError :: "('w, 'm) handler \<Rightarrow> ('w, 'm) handler" where
  "HandleError t req = attempt (t req) (\<lambda>r. case r of
      Inl err \<Rightarrow> ret [WriteErr err]
    | Inr acts \<Rightarrow> ret acts)"

text \<open>Routes: a method, the segments of the path and the value of the query parameter \<open>action\<close>.  As
  in gorilla/mux a variable stands for one segment that is not empty, the first route that
  matches is taken, and a request that matches none is answered with 404.  The handlers of
  go-rancher are named.\<close>

datatype seg = Lit string | Var string

record ('w, 'm) route =
  ro_Method :: string
  ro_Path :: "seg list"
  ro_Action :: "string option"
  ro_Handler :: "('w, 'm) handler"

fun match_path :: "seg list \<Rightarrow> string list \<Rightarrow> string gomap option" where
  "match_path [] [] = Some []"
| "match_path (Lit l # ts) (p # ps) = (if p = l then match_path ts ps else None)"
| "match_path (Var x # ts) (p # ps) = (if p = [] then None else map_option (\<lambda>m. (x, p) # m) (match_path ts ps))"
| "match_path [] (p # ps) = None"
| "match_path (t # ts) [] = None"

definition match_route :: "('w, 'm) route \<Rightarrow> Request \<Rightarrow> string gomap option" where
  "match_route r req =
     (if ro_Method r = rq_Method req \<and> (case ro_Action r of None \<Rightarrow> True | Some a \<Rightarrow> rq_Action req = Some a)
      then match_path (ro_Path r) (rq_Path req) else None)"

fun ServeHTTP :: "('w, 'm) route list \<Rightarrow> ('w, 'm) handler" where
  "ServeHTTP [] req = ret [WriteHeader 404]"
| "ServeHTTP (r # rs) req = (case match_route r req of
      Some vars \<Rightarrow> ro_Handler r (req\<lparr>rq_Vars := vars\<rparr>)
    | None \<Rightarrow> ServeHTTP rs req)"

definition route :: "string \<Rightarrow> seg list \<Rightarrow> ('w, 'm) handler \<Rightarrow> ('w, 'm) route" where
  "route m p h = \<lparr>ro_Method = m, ro_Path = p, ro_Action = None, ro_Handler = h\<rparr>"

definition rancher :: "string \<Rightarrow> ('w, 'm) handler" where
  "rancher name req = ret [Rancher name]"

definition volumeActions :: "('w, 'm) Server \<Rightarrow> (string \<times> ('w, 'm) handler) list" where
  "volumeActions s =
     (let on_volume = Fwd_Handler (sv_fwd s) (HostIDFromVolume (sv_man s)) in
     [(''attach'', Fwd_Handler (sv_fwd s) HostIDFromAttachReq (Server_AttachVolume s)),
      (''detach'', on_volume (Server_DetachVolume s)),
      (''snapshotPurge'', on_volume (SnapshotHandlers_Purge (sv_snapshots s))),
      (''snapshotCreate'', on_volume (SnapshotHandlers_Create (sv_snapshots s))),
      (''snapshotList'', on_volume (SnapshotHandlers_List (sv_snapshots s))),
      (''snapshotGet'', on_volume (SnapshotHandlers_Get (sv_snapshots s))),
      (''snapshotDelete'', on_volume (SnapshotHandlers_Delete (sv_snapshots s))),
      (''snapshotRevert'', on_volume (SnapshotHandlers_Revert (sv_snapshots s))),
      (''snapshotBackup'', on_volume (SnapshotHandlers_Backup (sv_snapshots s))),
      (''recurringUpdate'', on_volume (Server_UpdateRecurring s)),
      (''bgTaskQueue'', on_volume (Server_BgTaskQueue s)),
      (''replicaRemove'', on_volume (Server_ReplicaRemove s))])"

definition backupActions :: "('w, 'm) Server \<Rightarrow> (string \<times> ('w, 'm) handler) list" where
  "backupActions s = [(''backupList'', BackupsHandlers_List (sv_backups s)), (''backupGet'', BackupsHandlers_Get (sv_backups s)),
     (''backupDelete'', BackupsHandlers_Delete (sv_backups s))]"

definition action_routes :: "seg list \<Rightarrow> (string \<times> ('w, 'm) handler) list \<Rightarrow> ('w, 'm) route list" where
  "action_routes p as = map (\<lambda>(name, h). \<lparr>ro_Method = ''POST'', ro_Path = p, ro_Action = Some name, ro_Handler = HandleError h\<rparr>) as"

definition Handler :: "(string \<Rightarrow> gerr + int64) \<Rightarrow> (string \<Rightarrow> json option option) \<Rightarrow> ('w, 'm) Server \<Rightarrow> ('w, 'm) route list" where
  "Handler RAMInBytes unbase64 s =
     (let v1 = (\<lambda>p. Lit ''v1'' # p) in
     [route ''GET'' [] (rancher ''VersionsHandler''),
      route ''GET'' (v1 []) (rancher ''VersionHandler''),
      route ''GET'' (v1 [Lit ''apiversions'']) (rancher ''VersionsHandler''),
      route ''GET'' (v1 [Lit ''apiversions'', Lit ''v1'']) (rancher ''VersionHandler''),
      route ''GET'' (v1 [Lit ''schemas'']) (rancher ''SchemasHandler''),
      route ''GET'' (v1 [Lit ''schemas'', Var ''id'']) (rancher ''SchemaHandler''),
      route ''GET'' (v1 [Lit ''settings'']) (HandleError (SettingsHandlers_List (sv_settings s))),
      route ''GET'' (v1 [Lit ''settings'', Var ''name'']) (HandleError (SettingsHandlers_Get (sv_settings s))),
      route ''PUT'' (v1 [Lit ''settings'', Var ''name'']) (HandleError (SettingsHandlers_Set (sv_settings s))),
      route ''GET'' (v1 [Lit ''volumes'']) (HandleError (Server_ListVolume s)),
      route ''GET'' (v1 [Lit ''volumes'', Var ''name'']) (HandleError (Server_GetVolume s)),
      route ''DELETE'' (v1 [Lit ''volumes'', Var ''name'']) (HandleError (Server_DeleteVolume s)),
      route ''POST'' (v1 [Lit ''volumes'']) (HandleError (Server_CreateVolume RAMInBytes s))] @
     action_routes (v1 [Lit ''volumes'', Var ''name'']) (volumeActions s) @
     [route ''GET'' (v1 [Lit ''backupvolumes'']) (HandleError (BackupsHandlers_ListVolume (sv_backups s))),
      route ''GET'' (v1 [Lit ''backupvolumes'', Var ''volName'']) (HandleError (BackupsHandlers_GetVolume (sv_backups s)))] @
     action_routes (v1 [Lit ''backupvolumes'', Var ''volName'']) (backupActions s) @
     [route ''GET'' (v1 [Lit ''hosts'']) (HandleError (Server_ListHost s)),
      route ''GET'' (v1 [Lit ''hosts'', Var ''id'']) (HandleError (Server_GetHost s)),
      route ''POST'' (v1 [Lit ''schedule'']) (HandleError (Server_Schedule unbase64 s))])"

end
