(* ===== verification/ApiProps.thy ===== *)
theory ApiProps
  imports Api ManagerProps
begin

text \<open>
  Properties of the HTTP API: which handler a request reaches, that an action runs on the host
  it has to run on wherever it arrives and is forwarded at most once, that a schedule request
  sent to another manager does there what it would do locally, that the actions a volume offers
  are those the server serves, that what is shown can be created again, and what a change
  of the settings does.
\<close>

section \<open>The server of the process\<close>

definition process_server ::
  "'w dockerOrc \<Rightarrow> 'w Internals \<Rightarrow> (Request \<Rightarrow> ('w, monitorChan) man \<Rightarrow> 'w act list \<times> ('w, monitorChan) man) \<Rightarrow> ('w, monitorChan) Server" where
  "process_server d p proxy = NewServer (process_manager d p) (orc_locator (docker_Orchestrator d)) proxy"

section \<open>Routing\<close>

lemma match_route_simps [simp]:
  "match_route (route m p h) req = (if m = rq_Method req then match_path p (rq_Path req) else None)"
  "ro_Handler (route m p h) = h"
  by (simp_all add: match_route_def route_def)

lemma ServeHTTP_actions:
  assumes "rq_Method req = ''POST''" and "rq_Action req = Some a" and "match_path p (rq_Path req) = Some vars"
  shows "ServeHTTP (action_routes p hs @ rs) req = (case map_of hs a of
      Some h \<Rightarrow> HandleError h (req\<lparr>rq_Vars := vars\<rparr>)
    | None \<Rightarrow> ServeHTTP rs req)"
  using assms by (induction hs) (auto simp: action_routes_def match_route_def)

text \<open>A request for an action of a volume reaches the handler of the action.\<close>

definition volume_request :: "string \<Rightarrow> string \<Rightarrow> Request \<Rightarrow> bool" where
  "volume_request name a req \<longleftrightarrow> rq_Method req = ''POST'' \<and> rq_Path req = [''v1'', ''volumes'', name] \<and> name \<noteq> [] \<and> rq_Action req = Some a"

lemma ServeHTTP_skip: "list_all (\<lambda>r. match_route r req = None) rs \<Longrightarrow> ServeHTTP (rs @ rs') req = ServeHTTP rs' req"
  by (induction rs) simp_all

lemma actions_skip: "match_path p (rq_Path req) = None \<Longrightarrow> list_all (\<lambda>r. match_route r req = None) (action_routes p hs)"
  by (induction hs) (auto simp: action_routes_def match_route_def)

lemma serve_volume_action:
  assumes "volume_request name a req" and "map_of (volumeActions s) a = Some h"
  shows "ServeHTTP (Handler ram ub s) req = HandleError h (req\<lparr>rq_Vars := [(''name'', name)]\<rparr>)"
proof -
  note req = assms(1) [unfolded volume_request_def]
  show ?thesis
    unfolding Handler_def Let_def
    by (subst ServeHTTP_skip) (use req assms(2) in \<open>simp_all add: ServeHTTP_actions\<close>)
qed

lemma serve_schedule:
  assumes "rq_Method req = ''POST''" and "rq_Path req = [''v1'', ''schedule'']"
  shows "ServeHTTP (Handler ram ub s) req = HandleError (Server_Schedule ub s) (req\<lparr>rq_Vars := []\<rparr>)"
  unfolding Handler_def Let_def
  by (subst ServeHTTP_skip, use assms in simp, subst ServeHTTP_skip, rule actions_skip, use assms in simp,
      subst ServeHTTP_skip, use assms in simp, subst ServeHTTP_skip, rule actions_skip, use assms in simp_all)

section \<open>Example requests\<close>

definition ex_links :: ApiContext where
  "ex_links = \<lparr>ac_ActionLink = (\<lambda>r a. rs_Id r @ ''?action='' @ a), ac_Collection = (\<lambda>t. ''/v1/'' @ t)\<rparr>"

definition ex_attach :: Request where
  "ex_attach = \<lparr>rq_Method = ''POST'', rq_Path = [''v1'', ''volumes'', ''vol1''], rq_Action = Some ''attach'', rq_Host = ''host1:9500'',
     rq_URLHost = [], rq_URLScheme = [], rq_Vars = [], rq_Body = Unread (Some (JObj [(''hostId'', JStr ''host2'')])), rq_api = ex_links\<rparr>"

definition ex_sl :: "string \<Rightarrow> 'w ServiceLocator" where
  "ex_sl h = \<lparr>sl_GetCurrentHostID = h, sl_GetAddress = (\<lambda>h. ret (h @ '':9500''))\<rparr>"

abbreviation no_proxy :: "Request \<Rightarrow> ('w, 'm) man \<Rightarrow> 'w act list \<times> ('w, 'm) man" where "no_proxy \<equiv> \<lambda>_ s. ([WriteHeader 502], s)"

lemma Decode_run: "rq_Body req = Unread (Some j) \<Longrightarrow> dec j = Some x \<Longrightarrow> Decode dec req = ret x"
  by (simp add: Decode_def ReadAll_def)

lemma HostIDFromAttachReq_run:
  assumes "rq_Body req = Unread (Some j)" and "dec_AttachInput j = Some x"
  shows "HostIDFromAttachReq req s = (Ok (ia_HostID x), s)"
  using assms by (simp add: HostIDFromAttachReq_def Decode_run tryE_def ret_def)

lemma dec_ex_attach: "rq_Body ex_attach = Unread (Some (JObj [(''hostId'', JStr ''host2'')]))"
  "dec_AttachInput (JObj [(''hostId'', JStr ''host2'')]) = Some \<lparr>ia_HostID = ''host2''\<rparr>"
  by (simp_all add: ex_attach_def dec_AttachInput_def members_def json_simps)

section \<open>Forwarding\<close>

lemma HandleError_run:
  "HandleError h req s = (case h req s of
      (Ok acts, s') \<Rightarrow> (Ok acts, s')
    | (Err e, s') \<Rightarrow> (Ok [WriteErr e], s')
    | (Panic m, s') \<Rightarrow> (Panic m, s'))"
  by (simp add: HandleError_def attempt_def ret_def split: prod.split res.split)

text \<open>The request with a body that can be read, as it is copied and as the proxy gets it.\<close>

definition buffered :: "Request \<Rightarrow> Request" where
  "buffered req = req\<lparr>rq_Body := Unread (ReadAll (rq_Body req))\<rparr>"

lemma CopyReq_buffered: "CopyReq req = (buffered req, buffered req)"
  by (simp add: CopyReq_def buffered_def Let_def)

lemma buffered_simps [simp]:
  "buffered (buffered req) = buffered req" "buffered (forward_to t req) = forward_to t (buffered req)"
  "rq_Host (buffered req) = rq_Host req" "rq_Host (forward_to t req) = t" "rq_Body req = Unread j \<Longrightarrow> buffered req = req"
  by (simp_all add: buffered_def forward_to_def ReadAll_def)

lemma Fwd_Handler_here:
  assumes "getHostID (buffered req) s = (Ok hostID, s1)" and "hostID = [] \<or> hostID = sl_GetCurrentHostID (fw_sl f)"
  shows "Fwd_Handler f getHostID h req s = h (buffered req) s1"
  using assms by (auto simp: Fwd_Handler_def CopyReq_buffered tryE_def)

lemma Fwd_Handler_address:
  assumes "getHostID (buffered req) s = (Ok hostID, s1)" and "hostID \<noteq> []" and "hostID \<noteq> sl_GetCurrentHostID (fw_sl f)"
    and "sl_GetAddress (fw_sl f) hostID (ms_w s1) = (Ok (rq_Host req), w1)"
  shows "Fwd_Handler f getHostID h req s = h (buffered req) (s1\<lparr>ms_w := w1\<rparr>)"
  using assms by (simp add: Fwd_Handler_def CopyReq_buffered tryE_def io_def)

lemma Fwd_Handler_there:
  assumes "getHostID (buffered req) s = (Ok hostID, s1)" and "hostID \<noteq> []" and "hostID \<noteq> sl_GetCurrentHostID (fw_sl f)"
    and "sl_GetAddress (fw_sl f) hostID (ms_w s1) = (Ok t, w1)" and "t \<noteq> rq_Host req"
  shows "Fwd_Handler f getHostID h req s =
    (let (acts, s2) = fw_proxy f (forward_to t (buffered req)) (s1\<lparr>ms_w := w1\<rparr>) in (Ok acts, s2))"
  using assms by (simp add: Fwd_Handler_def CopyReq_buffered tryE_def io_def st_def ret_def split: prod.split)

text \<open>C16: a request is forwarded at most once.  When a manager forwards a request for a host, the
  proxy gets the request with its body, addressed to the host: the host of its URL, which the
  proxy connects to, and its \<open>Host\<close> header are the address of the host, its scheme is http.  A
  manager that receives a request with that \<open>Host\<close> header and finds the same host for it
  serves the request itself, whether it has that host's ID or only its address.\<close>

theorem forwarded_once:
  fixes f f' :: "('w, 'm) Fwd"
  assumes "getHostID (buffered req) s = (Ok hostID, s1)" and "hostID \<noteq> []" and "hostID \<noteq> sl_GetCurrentHostID (fw_sl f)"
    and "sl_GetAddress (fw_sl f) hostID (ms_w s1) = (Ok t, w1)" and "t \<noteq> rq_Host req"
    and "rq_Host req' = t" and "getHostID' (buffered req') s' = (Ok hostID, s1')"
    and "hostID = sl_GetCurrentHostID (fw_sl f') \<or> sl_GetAddress (fw_sl f') hostID (ms_w s1') = (Ok t, w1')"
  shows "Fwd_Handler f getHostID h req s =
      (let (acts, s2) = fw_proxy f (req\<lparr>rq_Body := Unread (ReadAll (rq_Body req)), rq_Host := t, rq_URLHost := t, rq_URLScheme := ''http''\<rparr>)
         (s1\<lparr>ms_w := w1\<rparr>) in (Ok acts, s2)) \<and>
    (\<exists>s2'. Fwd_Handler f' getHostID' h' req' s' = h' (buffered req') s2' \<and> (s2' = s1' \<or> s2' = s1'\<lparr>ms_w := w1'\<rparr>))"
proof
  show "\<exists>s2'. Fwd_Handler f' getHostID' h' req' s' = h' (buffered req') s2' \<and> (s2' = s1' \<or> s2' = s1'\<lparr>ms_w := w1'\<rparr>)"
  proof (cases "hostID = sl_GetCurrentHostID (fw_sl f')")
    case True
    then show ?thesis using Fwd_Handler_here [of getHostID' req' s' hostID s1' f' h'] assms(7) by auto
  next
    case False
    then show ?thesis
      using Fwd_Handler_address [of getHostID' req' s' hostID s1' f' w1' h'] assms(2,6-8) by auto
  qed
qed (use Fwd_Handler_there [of getHostID req s hostID s1 f t w1 h] assms(1-5) in \<open>simp add: forward_to_def buffered_def\<close>)

theorem forwarded_once_witness:
  "Fwd_Handler \<lparr>fw_sl = ex_sl ''host1'', fw_proxy = (\<lambda>r s. ([WriteHeader (int (length (rq_URLHost r)))], s))\<rparr> HostIDFromAttachReq (\<lambda>_. ret []) ex_attach
      (Manager_New () :: (unit, nat) man) = (Ok [WriteHeader 10], Manager_New ()) \<and>
   Fwd_Handler \<lparr>fw_sl = ex_sl ''host3'', fw_proxy = no_proxy\<rparr> HostIDFromAttachReq (\<lambda>_. ret [Write Empty]) (ex_attach\<lparr>rq_Host := ''host2:9500''\<rparr>)
      (Manager_New () :: (unit, nat) man) = (Ok [Write Empty], Manager_New ())"
proof -
  let ?s = "Manager_New () :: (unit, nat) man" and ?q = "ex_attach\<lparr>rq_Host := ''host2:9500''\<rparr>"
  have b: "buffered ex_attach = ex_attach" "buffered ?q = ?q" by (simp_all add: dec_ex_attach)
  have g: "HostIDFromAttachReq ex_attach ?s = (Ok ''host2'', ?s)" "HostIDFromAttachReq ?q ?s = (Ok ''host2'', ?s)"
    using HostIDFromAttachReq_run [of ex_attach, OF dec_ex_attach] HostIDFromAttachReq_run [of ?q, OF _ dec_ex_attach(2)] dec_ex_attach(1) by simp_all
  have a: "sl_GetAddress (ex_sl h) ''host2'' () = (Ok ''host2:9500'', ())" for h by (simp add: ex_sl_def ret_def)
  have r: "ms_w ?s = ()" "?s\<lparr>ms_w := ()\<rparr> = ?s" by (simp_all add: Manager_New_def)
  have "''host2:9500'' \<noteq> rq_Host ex_attach" by (simp add: ex_attach_def)
  from forwarded_once [where getHostID = HostIDFromAttachReq and req = ex_attach and s = ?s and hostID = "''host2''" and ?s1.0 = ?s
      and f = "\<lparr>fw_sl = ex_sl ''host1'', fw_proxy = (\<lambda>r s. ([WriteHeader (int (length (rq_URLHost r)))], s))\<rparr>"
      and f' = "\<lparr>fw_sl = ex_sl ''host3'', fw_proxy = no_proxy\<rparr>" and t = "''host2:9500''" and ?w1.0 = "()" and w1' = "()"
      and getHostID' = HostIDFromAttachReq and req' = ?q and s' = ?s and s1' = ?s and h = "\<lambda>_. ret []" and h' = "\<lambda>_. ret [Write Empty]"] this
  show ?thesis using a g unfolding b by (auto simp: r ret_def) (auto simp: ex_sl_def)
qed

section \<open>Attaching from any host\<close>

text \<open>What a client gets when the manager behind a reverse proxy answers or its connection is lost.\<close>

definition relayed :: "'w act list res \<Rightarrow> 'w act list" where
  "relayed r = (case r of Ok acts \<Rightarrow> acts | _ \<Rightarrow> [WriteHeader 502])"

text \<open>The reverse proxy of a manager on a network that has managers at some addresses, each with its
  routes and its own state, all over the same world.  It connects to the host of the URL of the
  request, over http; there the request arrives with its \<open>Host\<close> header and a URL that is a path
  only.  Where no manager listens the client is told that the gateway is bad.\<close>

type_synonym ('w, 'm) network = "string \<Rightarrow> (('w, 'm) route list \<times> ('w, 'm) man) option"

definition arrived :: "Request \<Rightarrow> Request" where
  "arrived req = req\<lparr>rq_URLHost := [], rq_URLScheme := []\<rparr>"

definition deliver :: "('w, 'm) network \<Rightarrow> Request \<Rightarrow> ('w, 'm) man \<Rightarrow> 'w act list \<times> ('w, 'm) man" where
  "deliver net req s = (case net (rq_URLHost req) of
      Some (rs, sb) \<Rightarrow> if rq_URLScheme req = ''http''
        then let (r, sb') = ServeHTTP rs (arrived req) (sb\<lparr>ms_w := ms_w s\<rparr>) in (relayed r, s\<lparr>ms_w := ms_w sb'\<rparr>)
        else ([WriteHeader 502], s)
    | None \<Rightarrow> ([WriteHeader 502], s))"

lemma NewServer_simps [simp]:
  "sv_man (NewServer m sl proxy) = m" "fw_sl (sv_fwd (NewServer m sl proxy)) = sl" "fw_proxy (sv_fwd (NewServer m sl proxy)) = proxy"
  "sv_settings (NewServer m sl proxy) = Manager_Settings m"
  by (simp_all add: NewServer_def)

lemma map_of_attach: "map_of (volumeActions s) ''attach'' = Some (Fwd_Handler (sv_fwd s) HostIDFromAttachReq (Server_AttachVolume s))"
  by (simp add: volumeActions_def Let_def)

text \<open>What the manager of server \<open>b\<close> does to attach a volume, and what net/http makes of the result.\<close>

definition attach_here :: "('w, 'm) Server \<Rightarrow> string \<Rightarrow> Request \<Rightarrow> (('w, 'm) man, 'w act list) op" where
  "attach_here b n req = tryE (Attach (sv_man b) n) (wrap ''unable to attach volume'')
     (\<lambda>_. Server_GetVolume b (req\<lparr>rq_Vars := [(''name'', n)]\<rparr>))"

definition answered :: "'w act list res \<times> ('w, 'm) man \<Rightarrow> 'w act list res \<times> ('w, 'm) man" where
  "answered x = (case x of (Ok acts, s) \<Rightarrow> (Ok acts, s) | (Err e, s) \<Rightarrow> (Ok [WriteErr e], s) | (Panic m, s) \<Rightarrow> (Panic m, s))"

lemma AttachVolume_answered:
  assumes "rq_Vars req = [(''name'', n)]"
  shows "HandleError (Server_AttachVolume b) req s = answered (attach_here b n req s)"
proof -
  have v: "Vars req ''name'' = n" "req\<lparr>rq_Vars := [(''name'', n)]\<rparr> = req" using assms by (simp_all add: Vars_def)
  show ?thesis unfolding HandleError_run answered_def Server_AttachVolume_def attach_here_def Let_def v ..
qed

lemma serve_attach_here:
  assumes "volume_request n ''attach'' req" and "rq_Body req = Unread (Some j)" and "dec_AttachInput j = Some \<lparr>ia_HostID = H\<rparr>"
    and "H = sl_GetCurrentHostID (fw_sl (sv_fwd b)) \<and> s1 = s \<or>
      H \<noteq> [] \<and> H \<noteq> sl_GetCurrentHostID (fw_sl (sv_fwd b)) \<and> sl_GetAddress (fw_sl (sv_fwd b)) H (ms_w s) = (Ok (rq_Host req), w1) \<and> s1 = s\<lparr>ms_w := w1\<rparr>"
  shows "ServeHTTP (Handler ram ub b) req s = answered (attach_here b n req s1)"
proof -
  let ?q = "req\<lparr>rq_Vars := [(''name'', n)]\<rparr>"
  have q: "rq_Body ?q = Unread (Some j)" "buffered ?q = ?q" using assms(2) by (simp_all add: buffered_def ReadAll_def)
  have g: "HostIDFromAttachReq (buffered ?q) s = (Ok H, s)" unfolding q using HostIDFromAttachReq_run [OF q(1) assms(3)] by simp
  have "Fwd_Handler (sv_fwd b) HostIDFromAttachReq (Server_AttachVolume b) ?q s = Server_AttachVolume b ?q s1"
    using assms(4)
  proof
    assume "H = sl_GetCurrentHostID (fw_sl (sv_fwd b)) \<and> s1 = s"
    then show ?thesis using Fwd_Handler_here [of HostIDFromAttachReq ?q s H s "sv_fwd b" "Server_AttachVolume b"] g q by simp
  next
    assume "H \<noteq> [] \<and> H \<noteq> sl_GetCurrentHostID (fw_sl (sv_fwd b)) \<and> sl_GetAddress (fw_sl (sv_fwd b)) H (ms_w s) = (Ok (rq_Host req), w1) \<and> s1 = s\<lparr>ms_w := w1\<rparr>"
    then show ?thesis using Fwd_Handler_address [of HostIDFromAttachReq ?q s H s "sv_fwd b" w1 "Server_AttachVolume b"] g q by simp
  qed
  then have "ServeHTTP (Handler ram ub b) req s = HandleError (Server_AttachVolume b) ?q s1"
    unfolding serve_volume_action [OF assms(1) map_of_attach] HandleError_run by simp
  also have "\<dots> = answered (attach_here b n req s1)"
    by (subst AttachVolume_answered [where n = n]) (simp_all add: attach_here_def)
  finally show ?thesis .
qed

text \<open>C13: a volume is attached on the host the request names, whichever manager gets the request.
  The host itself, and a manager that was reached under the address of the host, attach the
  volume themselves.  Any other manager sends the request over the network to the address of the
  host, where the manager of the host attaches the volume itself: the client gets what that
  manager answers, and the world is left as that manager's \<open>Attach\<close> leaves it.\<close>

theorem attach_on_named_host:
  assumes "volume_request n ''attach'' req" and "rq_Body req = Unread (Some j)" and "dec_AttachInput j = Some \<lparr>ia_HostID = H\<rparr>"
    and "H \<noteq> []" and "H \<noteq> sl_GetCurrentHostID sla \<Longrightarrow> sl_GetAddress sla H (ms_w s) = (Ok t, w1)"
    and "H \<noteq> sl_GetCurrentHostID sla \<Longrightarrow> t \<noteq> rq_Host req \<Longrightarrow> net t = Some (Handler ram ub (NewServer mb slb proxyb), sb)"
    and "sl_GetCurrentHostID slb = H"
  shows "ServeHTTP (Handler ram ub (NewServer ma sla (deliver net))) req s =
    (if H = sl_GetCurrentHostID sla then answered (attach_here (NewServer ma sla (deliver net)) n req s)
     else if t = rq_Host req then answered (attach_here (NewServer ma sla (deliver net)) n req (s\<lparr>ms_w := w1\<rparr>))
     else let (r, sb') = answered (attach_here (NewServer mb slb proxyb) n
              (req\<lparr>rq_Host := t, rq_URLHost := [], rq_URLScheme := []\<rparr>) (sb\<lparr>ms_w := w1\<rparr>))
          in (Ok (case r of Ok acts \<Rightarrow> acts | _ \<Rightarrow> [WriteHeader 502]), s\<lparr>ms_w := ms_w sb'\<rparr>))"
proof (cases "H = sl_GetCurrentHostID sla \<or> t = rq_Host req")
  case True
  let ?s1 = "if H = sl_GetCurrentHostID sla then s else s\<lparr>ms_w := w1\<rparr>"
  have "ServeHTTP (Handler ram ub (NewServer ma sla (deliver net))) req s = answered (attach_here (NewServer ma sla (deliver net)) n req ?s1)"
    by (rule serve_attach_here [OF assms(1-3)]) (use True assms(4,5) in auto)
  then show ?thesis using True by (cases "H = sl_GetCurrentHostID sla") simp_all
next
  case False
  let ?A = "NewServer ma sla (deliver net)" and ?B = "NewServer mb slb proxyb"
  let ?q = "req\<lparr>rq_Vars := [(''name'', n)]\<rparr>" and ?r = "req\<lparr>rq_Host := t, rq_URLHost := [], rq_URLScheme := []\<rparr>"
  let ?p = "?r\<lparr>rq_Vars := [(''name'', n)]\<rparr>"
  have q: "rq_Body ?q = Unread (Some j)" "buffered ?q = ?q" using assms(2) by (simp_all add: buffered_def ReadAll_def)
  have g: "HostIDFromAttachReq (buffered ?q) s = (Ok H, s)" unfolding q using HostIDFromAttachReq_run [OF q(1) assms(3)] by simp
  have f: "rq_URLHost (forward_to t ?q) = t" "rq_URLScheme (forward_to t ?q) = ''http''" "arrived (forward_to t ?q) = ?p"
    by (simp_all add: forward_to_def arrived_def)
  have "Fwd_Handler (sv_fwd ?A) HostIDFromAttachReq (Server_AttachVolume ?A) ?q s =
      (let (acts, s2) = deliver net (forward_to t ?q) (s\<lparr>ms_w := w1\<rparr>) in (Ok acts, s2))"
    using Fwd_Handler_there [of HostIDFromAttachReq ?q s H s "sv_fwd ?A" t w1 "Server_AttachVolume ?A"] g q assms(4,5) False by simp
  then have "ServeHTTP (Handler ram ub ?A) req s = (let (acts, s2) = deliver net (forward_to t ?q) (s\<lparr>ms_w := w1\<rparr>) in (Ok acts, s2))"
    unfolding serve_volume_action [OF assms(1) map_of_attach] HandleError_run by (simp split: prod.split)
  moreover have "ServeHTTP (Handler ram ub ?B) ?p (sb\<lparr>ms_w := w1\<rparr>) = answered (attach_here ?B n ?p (sb\<lparr>ms_w := w1\<rparr>))"
    by (rule serve_attach_here [where j = j and H = H]) (use assms(1-3,7) in \<open>simp_all add: volume_request_def\<close>)
  moreover have "attach_here ?B n ?p = attach_here ?B n ?r" by (simp add: attach_here_def)
  ultimately show ?thesis
    using False assms(6) by (simp add: deliver_def f relayed_def split: prod.split)
qed

theorem attach_on_named_host_witness:
  "\<exists>v. av_Name v = ''vol1'' \<and>
    ServeHTTP (Handler (\<lambda>_. Inr 0) (\<lambda>_. Some None) (NewServer ex_man (ex_sl ''host1'')
        (deliver [''host2:9500'' \<mapsto> (Handler (\<lambda>_. Inr 0) (\<lambda>_. Some None) (NewServer ex_man (ex_sl ''host2'') no_proxy), Manager_New ())])))
      ex_attach (Manager_New () :: (unit, nat) man) = (Ok [Write (VolumeObj v)], Manager_New ())"
proof -
  let ?s = "Manager_New () :: (unit, nat) man"
  let ?B = "NewServer ex_man (ex_sl ''host2'') no_proxy"
  let ?r = "ex_attach\<lparr>rq_Host := ''host2:9500'', rq_URLHost := [], rq_URLScheme := []\<rparr>"
  have r: "ms_w ?s = ()" "?s\<lparr>ms_w := ()\<rparr> = ?s" by (simp_all add: Manager_New_def)
  have q: "volume_request ''vol1'' ''attach'' ex_attach" "''host2:9500'' \<noteq> rq_Host ex_attach" by (simp_all add: volume_request_def ex_attach_def)
  have a: "sl_GetAddress (ex_sl ''host1'') ''host2'' (ms_w ?s) = (Ok ''host2:9500'', ())" by (simp add: ex_sl_def ret_def)
  have h: "''host2'' \<noteq> sl_GetCurrentHostID (ex_sl ''host1'' :: unit ServiceLocator)" "sl_GetCurrentHostID (ex_sl ''host2'' :: unit ServiceLocator) = ''host2''" by (simp_all add: ex_sl_def)
  have run: "\<exists>v sb'. av_Name v = ''vol1'' \<and> answered (attach_here ?B ''vol1'' ?r ?s) = (Ok [Write (VolumeObj v)], sb')"
    by (simp add: r Vars_def answered_def attach_here_def Server_GetVolume_def Attach_def Manager_Get_def completeVolumeState_def doAttach_def controller_here_def
        startMonitoring_def controller_running_def Let_def ex_defs ex_volume_def ex_instance_def tryE_def ret_def io_def iost_def st_def toVolumeResource_def)
  have "ServeHTTP (Handler (\<lambda>_. Inr 0) (\<lambda>_. Some None) (NewServer ex_man (ex_sl ''host1'')
        (deliver [''host2:9500'' \<mapsto> (Handler (\<lambda>_. Inr 0) (\<lambda>_. Some None) ?B, ?s)]))) ex_attach ?s =
    (let (r, sb') = answered (attach_here ?B ''vol1'' ?r (?s\<lparr>ms_w := ()\<rparr>))
     in (Ok (case r of Ok acts \<Rightarrow> acts | _ \<Rightarrow> [WriteHeader 502]), ?s\<lparr>ms_w := ms_w sb'\<rparr>))"
    by (subst attach_on_named_host [where t = "''host2:9500''" and ?w1.0 = "()" and mb = ex_man and slb = "ex_sl ''host2''" and proxyb = no_proxy and sb = ?s,
          OF q(1) dec_ex_attach _ a _ h(2)]) (use h(1) q(2) in \<open>simp_all only: if_False fun_upd_same simp_thms list.distinct\<close>)
  then show ?thesis using run by (auto simp: r)
qed

section \<open>Scheduling on another host\<close>

lemma get_members_Cons [json_simps]:
  "get_members ((k, JObj ms) # r) k = Some ms" "k \<noteq> k' \<Longrightarrow> get_members ((k, j) # r) k' = get_members r k'"
  by (simp_all add: get_members_def members_def)

lemma dec_enc_ScheduleInput:
  assumes "\<And>d. sd_Data (it_Data (in_Item i)) = Some d \<Longrightarrow> ub (b64 d) = Some (Some d)"
  shows "dec_ScheduleInput ub (enc_ScheduleInput b64 i) = Some i"
proof -
  have d: "dec_bytes ub (enc_ptr (\<lambda>d. JStr (b64 d)) (sd_Data (it_Data (in_Item i)))) = Some (sd_Data (it_Data (in_Item i)))"
    using assms by (cases "sd_Data (it_Data (in_Item i))") (simp_all add: dec_bytes_def enc_ptr_def)
  have m: "members (JObj ms) = Some ms" for ms by (simp add: members_def)
  show ?thesis
    unfolding dec_ScheduleInput_def enc_ScheduleInput_def m by (simp add: json_simps d)
qed

lemma dec_enc_ScheduleOutput [simp]: "dec_ScheduleOutput (enc_ScheduleOutput x) = Some x"
  using dec_instance_members_append [of "out_Instance x" "[]"]
  by (simp add: dec_ScheduleOutput_def enc_ScheduleOutput_def dec_InstanceInfo_def)

text \<open>A POST of a document to the manager whose routes are \<open>rs\<close> and whose own state is \<open>sb\<close>, as the
  client sees it: the status of a response is the one that was written first or 200, and a
  handler that panics drops the connection.\<close>

definition json_request :: "ApiContext \<Rightarrow> string \<Rightarrow> string list \<Rightarrow> json \<Rightarrow> Request" where
  "json_request ac host p doc = \<lparr>rq_Method = ''POST'', rq_Path = p, rq_Action = None, rq_Host = host, rq_URLHost = [],
     rq_URLScheme = [], rq_Vars = [], rq_Body = Unread (Some doc), rq_api = ac\<rparr>"

text \<open>What the client sees of the answer: go-rancher also writes a document for an error, which
  the client only puts into the text of its error.\<close>

definition json_response :: "'w act list \<Rightarrow> HttpResp" where
  "json_response acts = (case acts of
      [Encode j] \<Rightarrow> \<lparr>hr_StatusCode = 200, hr_Body = Some j\<rparr>
    | WriteHeader n # _ \<Rightarrow> \<lparr>hr_StatusCode = n, hr_Body = None\<rparr>
    | WriteErr _ # _ \<Rightarrow> \<lparr>hr_StatusCode = 500, hr_Body = None\<rparr>
    | _ \<Rightarrow> \<lparr>hr_StatusCode = 200, hr_Body = None\<rparr>)"

definition post_to :: "('w, 'm) route list \<Rightarrow> ('w, 'm) man \<Rightarrow> ApiContext \<Rightarrow> string \<Rightarrow> string list \<Rightarrow> json \<Rightarrow> ('w, HttpResp) op" where
  "post_to rs sb ac host p doc w = (case ServeHTTP rs (json_request ac host p doc) (sb\<lparr>ms_w := w\<rparr>) of
      (Ok acts, sb') \<Rightarrow> (Ok (json_response acts), ms_w sb')
    | (_, sb') \<Rightarrow> (Err (Ext ''EOF''), ms_w sb'))"

definition connects :: "'w HttpClient \<Rightarrow> string \<Rightarrow> ('w, 'm) route list \<Rightarrow> ('w, 'm) man \<Rightarrow> bool" where
  "connects http addr rs sb \<longleftrightarrow> (\<exists>ac. hc_Do http ''POST'' (''http://'' @ addr @ ''/v1/schedule'') = post_to rs sb ac addr [''v1'', ''schedule''])"

lemma Server_Schedule_run:
  assumes "\<And>d. sd_Data (it_Data item) = Some d \<Longrightarrow> ub (hc_base64 http d) = Some (Some d)" and "orc_Process (vm_orc (sv_man b)) = Some process"
    and "rq_Body req = Unread (Some (enc_ScheduleInput (hc_base64 http) \<lparr>in_Spec = spec, in_Item = item\<rparr>))"
  shows "HandleError (Server_Schedule ub b) req (sb\<lparr>ms_w := w\<rparr>) = (case process spec item w of
      (Ok inst, w2) \<Rightarrow> (Ok [Encode (enc_ScheduleOutput \<lparr>out_Instance = inst\<rparr>)], sb\<lparr>ms_w := w2\<rparr>)
    | (Err e, w2) \<Rightarrow> (Ok [WriteErr (wrap (''fail to execute '' @ it_Action item) e)], sb\<lparr>ms_w := w2\<rparr>)
    | (Panic m, w2) \<Rightarrow> (Panic m, sb\<lparr>ms_w := w2\<rparr>))"
proof -
  let ?i = "\<lparr>in_Spec = spec, in_Item = item\<rparr>"
  have "dec_ScheduleInput ub (enc_ScheduleInput (hc_base64 http) ?i) = Some ?i"
    by (rule dec_enc_ScheduleInput) (use assms(1) in simp)
  then show ?thesis
    using assms(2,3) by (simp add: HandleError_run Server_Schedule_def Decode_def ReadAll_def tryE_def ret_def
        Manager_ProcessSchedule_def io_def split: prod.split res.split)
qed

lemma client_Schedule_there:
  assumes "\<And>d. sd_Data (it_Data item) = Some d \<Longrightarrow> ub (hc_base64 http d) = Some (Some d)" and "orc_Process (vm_orc (sv_man b)) = Some process"
    and "connects http (h_Address host) (Handler ram ub b) sb"
  shows "client_Schedule http (newSchedulerClient host) item w = (case process \<lparr>ss_HostID = h_UUID host\<rparr> item w of
      (Ok inst, w2) \<Rightarrow> if i_ID inst = [] then (Err (Errorf ''Invalid response with empty instance ID''), w2) else (Ok inst, w2)
    | (Err _, w2) \<Rightarrow> (Err (wrap ''schedule failure'' (Errorf ''Bad response'')), w2)
    | (Panic _, w2) \<Rightarrow> (Err (wrap ''schedule failure'' (Ext ''EOF'')), w2))"
proof -
  obtain ac where c: "hc_Do http ''POST'' (''http://'' @ h_Address host @ ''/v1/schedule'') =
      post_to (Handler ram ub b) sb ac (h_Address host) [''v1'', ''schedule'']"
    using assms(3) by (auto simp: connects_def)
  let ?i = "enc_ScheduleInput (hc_base64 http) \<lparr>in_Spec = \<lparr>ss_HostID = h_UUID host\<rparr>, in_Item = item\<rparr>"
  have post: "hc_Do http ''POST'' (sc_address (newSchedulerClient host) @ ''/schedule'') ?i w = (case process \<lparr>ss_HostID = h_UUID host\<rparr> item w of
      (Ok inst, w2) \<Rightarrow> (Ok \<lparr>hr_StatusCode = 200, hr_Body = Some (enc_ScheduleOutput \<lparr>out_Instance = inst\<rparr>)\<rparr>, w2)
    | (Err _, w2) \<Rightarrow> (Ok \<lparr>hr_StatusCode = 500, hr_Body = None\<rparr>, w2)
    | (Panic _, w2) \<Rightarrow> (Err (Ext ''EOF''), w2))"
  proof -
    have "sc_address (newSchedulerClient host) @ ''/schedule'' = ''http://'' @ h_Address host @ ''/v1/schedule''"
      by (simp add: newSchedulerClient_def)
    then show ?thesis
      unfolding c
      by (simp only: c) (simp add: post_to_def json_request_def serve_schedule Server_Schedule_run [OF assms(1,2)] json_response_def
          split: prod.split res.split)
  qed
  have "sc_hostID (newSchedulerClient host) = h_UUID host" by (simp add: newSchedulerClient_def)
  then show ?thesis
    unfolding client_Schedule_def client_post_def client_do_def Let_def
    by (simp add: post tryE_def fail_def ret_def del: append_assoc split: prod.split res.split)
qed

definition ex_sched :: "string \<Rightarrow> 'w HttpClient \<Rightarrow> 'w OrcScheduler" where
  "ex_sched h http = \<lparr>sch_ops = \<lparr>ops_ListHosts = ret [], ops_GetHost = (\<lambda>i. ret (Some \<lparr>h_UUID = i, h_Name = i, h_Address = i @ '':9500''\<rparr>)),
     ops_GetCurrentHostID = h, ops_ProcessSchedule = (\<lambda>_. ret (Some ex_inst))\<rparr>, sch_http = http\<rparr>"

definition ex_down :: "'w HttpClient" where
  "ex_down = \<lparr>hc_Do = (\<lambda>_ _ _. fail (Ext ''connection refused'')), hc_base64 = (\<lambda>_. [])\<rparr>"

definition ex_far :: "(unit, nat) volumeManager" where
  "ex_far = ex_man\<lparr>vm_orc := ex_orc\<lparr>orc_Process := Some (Process (ex_sched ''host2'' ex_down))\<rparr>\<rparr>"

definition ex_item :: "string \<Rightarrow> ScheduleItem" where
  "ex_item a = \<lparr>it_Action = a, it_Instance = \<lparr>si_ID = ''id-rep2'', si_Type = InstanceTypeReplica, si_HostID = ''host1'', si_VolumeName = ''vol1'',
     si_Name = ''rep2''\<rparr>, it_Data = \<lparr>sd_Orchestrator = ''docker'', sd_Data = None\<rparr>\<rparr>"

text \<open>A client that reaches one manager, whatever the address.\<close>

definition ex_client :: "('w, 'm) route list \<Rightarrow> ('w, 'm) man \<Rightarrow> string \<Rightarrow> 'w HttpClient" where
  "ex_client rs sb addr = \<lparr>hc_Do = (\<lambda>_ _. post_to rs sb ex_links addr [''v1'', ''schedule'']), hc_base64 = (\<lambda>_. [])\<rparr>"

lemma ex_client_connects: "connects (ex_client rs sb addr) addr rs sb"
  by (auto simp: connects_def ex_client_def)

text \<open>C15: scheduling on another host is scheduling there.  When the manager of the host is reached
  over HTTP, \<open>ScheduleProcess\<close> returns the instance the other manager's \<open>Process\<close> returned for the
  same item and leaves the world it left; when that fails or panics, \<open>ScheduleProcess\<close> returns an error
  and the world is the one the failure left.\<close>

theorem ScheduleProcess_remote:
  assumes "H \<noteq> ops_GetCurrentHostID (sch_ops a)" and "ops_GetHost (sch_ops a) H w = (Ok (Some host), w1)" and "h_UUID host = H"
    and "connects (sch_http a) (h_Address host) (Handler ram ub (NewServer mb slb proxyb)) sb"
    and "\<And>d. sd_Data (it_Data item) = Some d \<Longrightarrow> ub (hc_base64 (sch_http a) d) = Some (Some d)"
    and "orc_Process (vm_orc mb) = Some (Process b)"
  shows "case Process b \<lparr>ss_HostID = H\<rparr> item w1 of
      (Ok inst, w2) \<Rightarrow> ScheduleProcess a \<lparr>ss_HostID = H\<rparr> item w = (Ok inst, w2)
    | (_, w2) \<Rightarrow> \<exists>e. ScheduleProcess a \<lparr>ss_HostID = H\<rparr> item w = (Err e, w2)"
proof -
  have p: "orc_Process (vm_orc (sv_man (NewServer mb slb proxyb))) = Some (Process b)" using assms(6) by simp
  have "i_ID inst \<noteq> []" if "Process b \<lparr>ss_HostID = H\<rparr> item w1 = (Ok inst, w2)" for inst w2
    using Process_keys [of b "\<lparr>ss_HostID = H\<rparr>" item w1] that by (auto simp: wp_def)
  then show ?thesis
    using assms(1-3) client_Schedule_there [where item = item and w = w1, OF assms(5) p assms(4)]
    by (auto simp: ScheduleProcess_def tryE_def ret_def split: prod.splits res.splits)
qed

theorem ScheduleProcess_remote_witness:
  "ScheduleProcess (ex_sched ''host1'' (ex_client (Handler (\<lambda>_. Inr 0) (\<lambda>_. Some None) (NewServer ex_far (ex_sl ''host2'') no_proxy))
      (Manager_New ()) ''host2:9500'')) \<lparr>ss_HostID = ''host2''\<rparr> (ex_item ''start'') () = (Ok ex_inst, ())"
proof -
  let ?rs = "Handler (\<lambda>_. Inr 0) (\<lambda>_. Some None) (NewServer ex_far (ex_sl ''host2'') no_proxy)"
  let ?a = "ex_sched ''host1'' (ex_client ?rs (Manager_New ()) ''host2:9500'')"
  have p: "Process (ex_sched ''host2'' ex_down) \<lparr>ss_HostID = ''host2''\<rparr> (ex_item ''start'') () = (Ok ex_inst, ())"
    by (simp add: Process_def ex_sched_def ret_def tryE_def ex_inst_def ex_instance_def)
  have c: "connects (sch_http ?a) ''host2:9500'' ?rs (Manager_New ())"
    using ex_client_connects by (simp add: ex_sched_def)
  have g: "ops_GetHost (sch_ops ?a) ''host2'' () = (Ok (Some \<lparr>h_UUID = ''host2'', h_Name = ''host2'', h_Address = ''host2:9500''\<rparr>), ())"
    "''host2'' \<noteq> ops_GetCurrentHostID (sch_ops ?a)"
    by (simp_all add: ex_sched_def ret_def)
  have "orc_Process (vm_orc ex_far) = Some (Process (ex_sched ''host2'' ex_down))" by (simp add: ex_far_def)
  then show ?thesis
    using ScheduleProcess_remote [OF g(2,1), of "\<lambda>_. Inr 0" "\<lambda>_. Some None" ex_far "ex_sl ''host2''" no_proxy "Manager_New ()"
        "ex_item ''start''" "ex_sched ''host2'' ex_down"] c p by (simp add: ex_item_def)
qed

text \<open>C14: a manager keeps the contract the others rely on.  The law \<open>remote\<close> of \<open>docker_cluster\<close> holds of
  a client that is connected to a manager that is itself a host over the same store: what it is
  sent is carried out there once, and after an error it was carried out once or not at all.\<close>

theorem remote_host_carries_out:
  assumes "docker_engine b view binv up pre ok d full_id" and "h_UUID host = GetCurrentHostID d"
    and "connects http (h_Address host) (Handler ram ub (process_server d p proxy)) sb"
    and "\<And>doc. sd_Data (it_Data item) = Some doc \<Longrightarrow> ub (hc_base64 http doc) = Some (Some doc)"
    and "binv w" and "kv_wf pre (view w)" and "sched_item ok item"
    and "deletes item \<longrightarrow> si_HostID (it_Instance item) = h_UUID host"
  shows "wp (client_Schedule http (newSchedulerClient host) item)
    (\<lambda>i w'. (binv w' \<and> kv_wf pre (view w')) \<and> carried ok (h_UUID host) item i (abs_of pre (view w)) (abs_of pre (view w')))
    (\<lambda>_ w'. (binv w' \<and> kv_wf pre (view w')) \<and> (abs_of pre (view w') = abs_of pre (view w) \<or>
       (\<exists>i. carried ok (h_UUID host) item i (abs_of pre (view w)) (abs_of pre (view w'))))) w"
proof -
  have p: "orc_Process (vm_orc (sv_man (process_server d p proxy))) = Some (Process (docker_sched d))"
    by (simp add: process_server_def process_manager_def docker_Orchestrator_def)
  have "wp (Process (docker_sched d) \<lparr>ss_HostID = h_UUID host\<rparr> item)
      (\<lambda>i w'. i_ID i \<noteq> [] \<and> (binv w' \<and> kv_wf pre (view w')) \<and> carried ok (h_UUID host) item i (abs_of pre (view w)) (abs_of pre (view w')))
      (\<lambda>_ w'. (binv w' \<and> kv_wf pre (view w')) \<and> (abs_of pre (view w') = abs_of pre (view w) \<or>
         (\<exists>i. carried ok (h_UUID host) item i (abs_of pre (view w)) (abs_of pre (view w'))))) w"
    using docker_engine.Process_carried [OF assms(1), of w item] assms(2,5-8) Process_keys [of "docker_sched d" "\<lparr>ss_HostID = h_UUID host\<rparr>" item w]
    by (auto simp: wp_def split: prod.splits res.splits)
  then show ?thesis
    by (auto simp: wp_def client_Schedule_there [where item = item and w = w, OF assms(4) p assms(3)] split: prod.splits res.splits if_splits)
qed

theorem remote_host_carries_out_witness:
  "\<exists>http :: man_ref HttpClient.
    wp (client_Schedule http (newSchedulerClient \<lparr>h_UUID = ''host1'', h_Name = ''one'', h_Address = ''10.0.0.1:9500''\<rparr>) (ex_item ScheduleActionDeleteInstance))
    (\<lambda>i w'. dr_inv w' \<and> carried etcd_name ''host1'' (ex_item ScheduleActionDeleteInstance) i (mr_abs mr_empty) (mr_abs w'))
    (\<lambda>_ w'. dr_inv w' \<and> (mr_abs w' = mr_abs mr_empty \<or> (\<exists>i. carried etcd_name ''host1'' (ex_item ScheduleActionDeleteInstance) i (mr_abs mr_empty) (mr_abs w'))))
    mr_empty"
proof -
  let ?rs = "Handler (\<lambda>_. Inr 0) (\<lambda>_. Some None) (process_server dr_orc mr_internals no_proxy)"
  let ?h = "\<lparr>h_UUID = ''host1'', h_Name = ''one'', h_Address = ''10.0.0.1:9500''\<rparr>"
  have i: "sched_item etcd_name (ex_item ScheduleActionDeleteInstance)"
    using ex_names by (simp add: sched_item_def ex_item_def creates_def etcd_name_def good_comp_def hidden_def HasPrefix_def)
  have "connects (ex_client ?rs mr_start ''10.0.0.1:9500'') (h_Address ?h) ?rs mr_start" using ex_client_connects by simp
  then show ?thesis
    by (intro exI [of _ "ex_client ?rs mr_start ''10.0.0.1:9500''"]
        wp_mono [OF remote_host_carries_out [OF drc.docker_engine_axioms, of ?h _ "\<lambda>_. Inr 0" "\<lambda>_. Some None" mr_internals no_proxy mr_start]])
      (use i mr_empty_wf in \<open>auto simp: dr_orc_def GetCurrentHostID_def ex_item_def\<close>)
qed

section \<open>The actions of a volume\<close>

lemma completeVolumeState_actions:
  assumes "completeVolumeState man vol s = (Ok v, s')"
  shows "v_State v = volumeState v"
proof -
  have "volumeState (vol\<lparr>v_State := x, v_Endpoint := e\<rparr>) = volumeState vol" for x e
    by (simp add: volumeState_def goodReplicaCount_def replicas_of_def)
  moreover obtain e where "v = vol\<lparr>v_State := volumeState vol, v_Endpoint := e\<rparr>"
    using assms by (auto simp: completeVolumeState_def Let_def tryE_Ok_iff st_def ret_def panic_def iost_def
        split: if_splits option.splits prod.splits)
  ultimately show ?thesis by simp
qed

lemma volumeSchema_simps [simp]: "sc_Id (volumeSchema x) = sc_Id x" "sc_ResourceActions (volumeSchema x) = volume_actions"
  by (simp_all add: volumeSchema_def set_field_def Let_def)

lemma NewSchema_volume: "\<exists>sc. sc \<in> set (NewSchema flds) \<and> sc_Id sc = ''volume'' \<and> sc_ResourceActions sc = volume_actions"
proof -
  let ?x = "\<lparr>sc_Id = ''volume'', sc_PluralName = guessPluralName ''volume'', sc_ResourceMethods = [''GET''],
    sc_ResourceFields = flds ''volume'', sc_ResourceActions = [], sc_CollectionMethods = [''GET'']\<rparr>"
  have "volumeSchema ?x \<in> set (NewSchema flds)" by (simp add: NewSchema_def AddType_def)
  then show ?thesis by (intro exI [of _ "volumeSchema ?x"]) simp
qed

text \<open>C21: the actions a volume offers follow its state and are served.  A volume as the manager returns it
  offers nothing when no replica is good, attaching when it has no controller and otherwise what
  needs a running controller; each action it offers is one the schema of volumes declares and the
  server has a handler for.\<close>

theorem offered_actions_served:
  assumes "Manager_Get man name s = (Ok (Some v), s')"
  shows "map fst (the (rs_Actions (av_Resource (toVolumeResource v ctx)))) =
      (if goodReplicaCount v = 0 then [] else if v_Controller v = None then [''attach'', ''recurringUpdate'', ''replicaRemove'']
       else running_actions) \<and>
    fst ` set (the (rs_Actions (av_Resource (toVolumeResource v ctx)))) \<subseteq> fst ` set (volumeActions srv) \<and>
    (\<exists>sc. sc \<in> set (NewSchema flds) \<and> sc_Id sc = ''volume'' \<and>
       fst ` set (the (rs_Actions (av_Resource (toVolumeResource v ctx)))) \<subseteq> fst ` set (sc_ResourceActions sc))"
proof -
  let ?as = "the (rs_Actions (av_Resource (toVolumeResource v ctx)))"
  have "v_State v = volumeState v"
    using assms completeVolumeState_actions by (auto simp: Manager_Get_def tryE_Ok_iff ret_def split: option.splits)
  then have as: "map fst ?as = (if goodReplicaCount v = 0 then [] else if v_Controller v = None then [''attach'', ''recurringUpdate'', ''replicaRemove'']
       else running_actions)"
    by (simp add: toVolumeResource_def Let_def o_def volumeState_def state_actions_def)
  then have set: "fst ` set ?as \<subseteq> insert ''attach'' (set running_actions)"
    unfolding set_map [symmetric] as by (simp add: running_actions_def)
  have "insert ''attach'' (set running_actions) \<subseteq> fst ` set (volumeActions srv)"
    by (simp add: running_actions_def volumeActions_def Let_def)
  moreover have "insert ''attach'' (set running_actions) \<subseteq> fst ` set volume_actions"
    by (simp add: running_actions_def volume_actions_def)
  ultimately have served: "fst ` set ?as \<subseteq> fst ` set (volumeActions srv)" and declared: "fst ` set ?as \<subseteq> fst ` set volume_actions"
    by (rule_tac [!] subset_trans [OF set])
  obtain sc where sc: "sc \<in> set (NewSchema flds)" "sc_Id sc = ''volume''" "sc_ResourceActions sc = volume_actions"
    using NewSchema_volume by blast
  have "fst ` set ?as \<subseteq> fst ` set (sc_ResourceActions sc)" unfolding sc(3) by (rule declared)
  with sc(1,2) have "\<exists>sc. sc \<in> set (NewSchema flds) \<and> sc_Id sc = ''volume'' \<and> fst ` set ?as \<subseteq> fst ` set (sc_ResourceActions sc)" by blast
  then show ?thesis by (intro conjI as served)
qed

theorem offered_actions_served_witness:
  "\<exists>v. Manager_Get ex_man ''vol1'' (Manager_New () :: (unit, nat) man) = (Ok (Some v), Manager_New ()) \<and>
    map fst (the (rs_Actions (av_Resource (toVolumeResource v ex_links)))) = running_actions \<and>
    fst ` set (the (rs_Actions (av_Resource (toVolumeResource v ex_links)))) \<subseteq>
      fst ` set (volumeActions (NewServer ex_man (ex_sl ''host1'') no_proxy :: (unit, nat) Server))"
proof -
  let ?v = "(ex_volume ''vol1'')\<lparr>v_State := ''degraded'', v_Endpoint := ''/dev/longhorn/vol1''\<rparr>"
  have g: "Manager_Get ex_man ''vol1'' (Manager_New () :: (unit, nat) man) = (Ok (Some ?v), Manager_New ())"
    by (simp add: Manager_Get_def completeVolumeState_def controller_running_def volumeState_def goodReplicaCount_def replicas_of_def
        Let_def ex_defs ex_volume_def ex_instance_def tryE_def ret_def io_def iost_def st_def Manager_New_def)
  have c: "goodReplicaCount ?v \<noteq> 0" "v_Controller ?v \<noteq> None" by (simp_all add: goodReplicaCount_def replicas_of_def ex_volume_def)
  note o = offered_actions_served [OF g, where ctx = ex_links and flds = "\<lambda>_. []" and srv = "NewServer ex_man (ex_sl ''host1'') no_proxy :: (unit, nat) Server"]
  show ?thesis
    by (rule exI [of _ ?v], rule conjI [OF g conjI [OF trans [OF conjunct1 [OF o]] conjunct1 [OF conjunct2 [OF o]]]]) (simp only: c if_False)
qed

section \<open>What is shown can be created\<close>

lemma FormatInt_not_empty: "FormatInt i \<noteq> []"
  by (simp add: FormatInt_def)

lemma quo64_Minute:
  assumes "- (2 ^ 63) \<le> m * Minute" and "m * Minute < 2 ^ 63"
  shows "sint (quo64 (word_of_int m * word_of_int Minute) (word_of_int Minute)) = m"
proof -
  have "sint (word_of_int m * word_of_int Minute :: int64) = m * Minute" unfolding wi_hom_mult by (rule sint64_of_int) (use assms in simp_all)
  moreover have "sint (word_of_int Minute :: int64) = Minute" by (rule sint64_of_int) simp_all
  moreover have "m * Minute sdiv Minute = m" by (simp add: signed_divide_int_def sgn_mult abs_mult sgn_mult_abs)
  moreover have "sint (word_of_int m :: int64) = m" by (rule sint64_of_int) (use assms in simp_all)
  ultimately show ?thesis unfolding quo64_def by simp
qed

text \<open>The parser of sizes reads a plain number of bytes; its floating-point numbers are exact up to
  \<open>2 ^ 53\<close>.\<close>

definition reads_bytes :: "(string \<Rightarrow> gerr + int64) \<Rightarrow> bool" where
  "reads_bytes RAMInBytes \<longleftrightarrow> (\<forall>n. 0 < n \<and> n \<le> 2 ^ 53 \<longrightarrow> RAMInBytes (FormatInt n) = Inr (word_of_int n))"

text \<open>C22: the resource a volume is shown as tells what the volume was asked for.  When a create
  request asked for \<open>vol\<close>, with a size of at most \<open>2 ^ 53\<close> bytes after rounding and a timeout
  whose minutes fit into a duration, then the resource that shows the volume, whatever its state,
  engine image, instances and jobs are by then, asks for the same \<open>vol\<close> when it is sent to
  create a volume: same name, size, base image, backup, number of replicas and timeout.\<close>

theorem shown_then_created:
  assumes "reads_bytes RAMInBytes" and "filterCreateVolumeInput RAMInBytes v = Inr vol"
    and "0 < sint (v_Size vol)" and "sint (v_Size vol) \<le> 2 ^ 53"
    and "- (2 ^ 63) \<le> av_StaleReplicaTimeout v * Minute" and "av_StaleReplicaTimeout v * Minute < 2 ^ 63"
  shows "filterCreateVolumeInput RAMInBytes (toVolumeResource (vol\<lparr>v_Controller := c, v_Replicas := rs, v_State := state,
    v_EngineImage := img, v_Endpoint := ep, v_Created := at, v_RecurringJobs := jobs\<rparr>) ctx) = Inr vol"
proof -
  obtain sz where sz: "ConvertSize RAMInBytes (SizeString (av_Size v)) = Inr sz" and vol: "vol = \<lparr>v_Name = av_Name v, v_Size = RoundUpSize sz,
      v_BaseImage = av_BaseImage v, v_FromBackup = av_FromBackup v, v_NumberOfReplicas = av_NumberOfReplicas v,
      v_StaleReplicaTimeout = word_of_int (av_StaleReplicaTimeout v) * word_of_int Minute, v_Controller = None, v_Replicas = None, v_State = [],
      v_EngineImage = [], v_Endpoint = [], v_Created = [], v_RecurringJobs = None\<rparr>"
    using assms(2) by (auto simp: filterCreateVolumeInput_def split: sum.splits)
  have "RAMInBytes (FormatInt (sint (RoundUpSize sz))) = Inr (RoundUpSize sz)"
    using assms(1,3,4) unfolding reads_bytes_def vol by simp
  moreover have "RoundUpSize (RoundUpSize sz) = RoundUpSize sz" by (rule RoundUpSize_again) (use assms(3) vol in simp)
  ultimately show ?thesis
    using quo64_Minute [OF assms(5,6)] FormatInt_not_empty
    by (simp add: vol filterCreateVolumeInput_def toVolumeResource_def Let_def ConvertSize_def)
qed

text \<open>A parser of sizes that reads numbers of bytes only.\<close>

definition bytes_only :: "string \<Rightarrow> gerr + int64" where
  "bytes_only s = (case ParseInt s of Inl e \<Rightarrow> Inl e | Inr n \<Rightarrow> Inr (word_of_int n))"

lemma reads_bytes_only: "reads_bytes bytes_only"
  unfolding reads_bytes_def
proof (intro allI impI)
  fix n :: int
  assume "0 < n \<and> n \<le> 2 ^ 53"
  then have "ParseInt (FormatInt n) = Inr n" by (intro ParseInt_FormatInt) simp_all
  then show "bytes_only (FormatInt n) = Inr (word_of_int n)" by (simp add: bytes_only_def)
qed

definition ex_create :: Volume where
  "ex_create = \<lparr>av_Resource = no_Resource, av_Name = ''vol1'', av_Size = ''5000'', av_BaseImage = ''base'', av_FromBackup = [],
     av_NumberOfReplicas = 2, av_StaleReplicaTimeout = 20, av_State = [], av_EngineImage = [], av_Endpoint = [], av_Created = [],
     av_RecurringJobs = None, av_Replicas = None, av_Controller = None\<rparr>"

theorem shown_then_created_witness:
  "\<exists>vol. filterCreateVolumeInput bytes_only ex_create = Inr vol \<and> v_Size vol = 8192 \<and>
    filterCreateVolumeInput bytes_only (toVolumeResource (vol\<lparr>v_Controller := v_Controller (ex_volume ''vol1''), v_Replicas := v_Replicas (ex_volume ''vol1''),
      v_State := ''healthy'', v_EngineImage := ''engine'', v_Endpoint := ''/dev/vol1'', v_Created := ''today'', v_RecurringJobs := None\<rparr>) ex_links) = Inr vol"
proof -
  let ?vol = "\<lparr>v_Name = ''vol1'', v_Size = 8192, v_BaseImage = ''base'', v_FromBackup = [], v_NumberOfReplicas = 2,
    v_StaleReplicaTimeout = word_of_int 20 * word_of_int Minute, v_Controller = None, v_Replicas = None, v_State = [],
    v_EngineImage = [], v_Endpoint = [], v_Created = [], v_RecurringJobs = None\<rparr>"
  have "bytes_only ''5000'' = Inr 5000" by (simp add: bytes_only_def ParseInt_def is_digit_def HasPrefix_def Let_def)
  then have f: "filterCreateVolumeInput bytes_only ex_create = Inr ?vol"
    by (simp add: filterCreateVolumeInput_def ConvertSize_def ex_create_def RoundUpSize_def rem64_def signed_modulo_int_def signed_divide_int_def)
  from shown_then_created [OF reads_bytes_only f] show ?thesis using f by (auto simp: ex_create_def)
qed

section \<open>Settings\<close>

text \<open>The settings in force: those stored, or the defaults of the orchestrator.\<close>

definition settings_in_force :: "'w dockerOrc \<Rightarrow> kv_abs \<Rightarrow> SettingsInfo" where
  "settings_in_force d a = (case a_settings a of
      None \<Rightarrow> \<lparr>s_BackupTarget = [], s_EngineImage = do_EngineImage d\<rparr>
    | Some x \<Rightarrow> x)"

text \<open>The value of a setting replaced; there are two settings.\<close>

definition set_named :: "string \<Rightarrow> string \<Rightarrow> SettingsInfo \<Rightarrow> SettingsInfo option" where
  "set_named name val x =
     (if name = ''backupTarget'' then Some (x\<lparr>s_BackupTarget := val\<rparr>)
      else if name = ''engineImage'' then Some (x\<lparr>s_EngineImage := val\<rparr>) else None)"

context docker_cluster
begin

lemma docker_GetSettings_wp:
  assumes "good w"
  shows "wp (docker_GetSettings d) (\<lambda>r w'. good w' \<and> (up w \<longrightarrow> up w') \<and> abst w' = abst w \<and> r = Some (settings_in_force d (abst w)))
    (\<lambda>_ w'. \<not> up w \<and> good w' \<and> abst w' = abst w) w"
  unfolding docker_GetSettings_def s_kv
  by (rule wp_step [OF GetSettings_wp [OF goodD(1) [OF assms]]])
    (use goodD(1) [OF assms] good_same [OF assms] in \<open>auto simp: stays_def wp_simps settings_in_force_def split: option.splits\<close>)

lemma docker_SetSettings_wp:
  assumes "good w"
  shows "wp (docker_SetSettings d x) (\<lambda>_ w'. good w' \<and> abst w' = (abst w)\<lparr>a_settings := Some x\<rparr>) (\<lambda>_ w'. \<not> up w \<and> wfs w') w"
  unfolding docker_SetSettings_def s_kv
  by (rule wp_mono [OF SetSettings_wp [OF goodD(1) [OF assms]]])
    (use goodI [OF assms] goodD(2) [OF assms] in \<open>auto simp: stays_def typed_def\<close>)

end

lemma process_settings [simp]:
  "sv_settings (process_server d p proxy) = \<lparr>se_GetSettings = docker_GetSettings d, se_SetSettings = docker_SetSettings d\<rparr>"
  by (simp add: process_server_def Manager_Settings_def process_manager_def docker_Orchestrator_def)

lemma wp_return_Wrap [wp_simps]:
  "wp (return_Wrap e m) Q E w = (case e of None \<Rightarrow> Q [] w | Some e \<Rightarrow> E (wrap m e) w)"
  by (cases e) (simp_all add: return_Wrap_def errors_Wrapf_def wp_simps)

text \<open>C20: setting one setting.  A request that names one of the two settings stores the settings in force
  with that one replaced, the other as it was, and is answered with the new value; a request that
  names another one changes nothing and is answered with nothing at all: the error that is
  made for it wraps nil and is nil.  It fails only when the store cannot be reached.\<close>

theorem settings_Set_exact:
  assumes "docker_cluster b view binv up pre ok d known full_id" and "docker_good view binv pre ok known d (ms_w s)"
    and "rq_Body req = Unread (Some j)" and "dec_Setting j = Some x"
  shows "wp (SettingsHandlers_Set (sv_settings (process_server d p proxy)) req)
    (\<lambda>acts s'. docker_good view binv pre ok known d (ms_w s') \<and>
       (case set_named (Vars req ''name'') (ag_Value x) (settings_in_force d (abs_of pre (view (ms_w s)))) of
          Some y \<Rightarrow> abs_of pre (view (ms_w s')) = (abs_of pre (view (ms_w s)))\<lparr>a_settings := Some y\<rparr> \<and>
            acts = [Write (SettingObj (toSettingResource (Vars req ''name'') (ag_Value x)))]
        | None \<Rightarrow> abs_of pre (view (ms_w s')) = abs_of pre (view (ms_w s)) \<and> acts = []))
    (\<lambda>_ s'. \<not> up (ms_w s)) s"
proof -
  let ?n = "Vars req ''name''" and ?a = "abs_of pre (view (ms_w s))"
  have set: "wp (io (docker_SetSettings d y)) (\<lambda>_ s'. docker_good view binv pre ok known d (ms_w s') \<and>
      abs_of pre (view (ms_w s')) = ?a\<lparr>a_settings := Some y\<rparr>) (\<lambda>_ _. \<not> up (ms_w s)) s1"
    if "docker_good view binv pre ok known d (ms_w s1)" "up (ms_w s) \<longrightarrow> up (ms_w s1)" "abs_of pre (view (ms_w s1)) = ?a" for y s1
    unfolding wp_io by (rule wp_mono [OF docker_cluster.docker_SetSettings_wp [OF assms(1)]]) (use that in auto)
  have get: "wp (io (docker_GetSettings d)) (\<lambda>r s1. docker_good view binv pre ok known d (ms_w s1) \<and> (up (ms_w s) \<longrightarrow> up (ms_w s1)) \<and>
      abs_of pre (view (ms_w s1)) = ?a \<and> r = Some (settings_in_force d ?a)) (\<lambda>_ _. \<not> up (ms_w s)) s"
    unfolding wp_io by (rule wp_mono [OF docker_cluster.docker_GetSettings_wp [OF assms(1,2)]]) auto
  show ?thesis
    unfolding SettingsHandlers_Set_def Decode_run [where dec = dec_Setting, OF assms(3,4)] wp_tryE wp_ret Let_def process_settings Settings.simps
  proof (rule wp_attempt_step [OF get], goal_cases)
    case (1 r s1)
    then show ?case
      by (auto simp: wp_tryE wp_ret wp_if wp_return_Wrap set_named_def intro!: wp_mono [OF set])
  qed (simp_all add: wp_simps)
qed

theorem settings_Set_exact_witness:
  "wp (SettingsHandlers_Set (sv_settings (process_server dr_orc mr_internals no_proxy))
      (json_request ex_links [] [] (JObj [(''value'', JStr ''s3://b'')])\<lparr>rq_Vars := [(''name'', ''backupTarget'')]\<rparr>))
    (\<lambda>acts s'. a_settings (mr_abs (ms_w s')) = Some \<lparr>s_BackupTarget = ''s3://b'', s_EngineImage = ''engine''\<rparr> \<and>
       acts = [Write (SettingObj (toSettingResource ''backupTarget'' ''s3://b''))])
    (\<lambda>_ _. False) mr_start"
proof -
  let ?j = "JObj [(''value'', JStr ''s3://b'')]"
  let ?r = "json_request ex_links [] [] ?j\<lparr>rq_Vars := [(''name'', ''backupTarget'')]\<rparr>"
  have d: "dec_Setting ?j = Some \<lparr>ag_Resource = no_Resource, ag_Name = [], ag_Value = ''s3://b''\<rparr>"
    by (simp add: dec_Setting_def members_def dec_Resource_def no_Resource_def json_simps get_ptr_def)
  have n: "Vars ?r ''name'' = ''backupTarget''" "rq_Body ?r = Unread (Some ?j)" by (simp_all add: Vars_def json_request_def)
  have s: "settings_in_force dr_orc (mr_abs mr_empty) = \<lparr>s_BackupTarget = [], s_EngineImage = ''engine''\<rparr>"
    by (simp add: settings_in_force_def mr_empty_abs dr_orc_def)
  show ?thesis
    by (rule wp_mono [OF settings_Set_exact [OF drc.docker_cluster_axioms _ n(2) d, of mr_start mr_internals no_proxy]])
      (use mr_empty_good mr_empty_wf in \<open>auto simp: Manager_New_def n s set_named_def\<close>)
qed

end
