(* ===== verification/Spec2Isabelle.thy ===== *)
theory Spec2Isabelle
  imports Store DockerStore Controller ManagerProps MonitorProps CronSpec ApiProps
begin

text \<open>
  A model of the Longhorn volume manager and the properties that make it correct.

  \<^bold>\<open>The program.\<close>  On every host of a cluster runs one manager process.  The managers share a
  key-value store (etcd) that holds the settings, the registered hosts and, for each volume, a
  base document and the records of its instances: a controller, when the volume is attached, and
  replicas.  The instances are containers.  A request of the HTTP API reaches the volume manager,
  which plans what has to be done and asks the orchestrator; the orchestrator has the scheduler
  choose a host, and the item is processed by the manager of that host, which runs docker and writes
  the record of the instance.  An attached volume has a monitor: a goroutine that asks the
  controller every few seconds for the state of its replicas, removes failed ones, has new
  ones added, and detaches the volume when it cannot go on; beside it run the clean-up of bad
  replicas and the recurring snapshots and backups of the volume.

  \<^bold>\<open>The theories\<close>, from the bottom up (paths are under \<open>src/\<close>):

  \<^item> \<open>Prelude\<close>: operations over a world with errors and panics, the weakest-precondition calculus
    \<open>wp\<close>, preserved predicates \<open>keeps\<close>, Go maps as association lists.
  \<^item> \<open>GoStd\<close>, \<open>Json\<close>: what is used of \<open>strings\<close>, \<open>strconv\<close>, \<open>path/filepath\<close> and \<open>encoding/json\<close>.
  \<^item> \<open>Types\<close>: the structs of \<open>types/types.go\<close> and \<open>types/schedule.go\<close> with their JSON forms.
  \<^item> \<open>Time\<close>, \<open>Util\<close>: \<open>util/time.go\<close>, \<open>util/util.go\<close>, \<open>util/cmd.go\<close>.
  \<^item> \<open>KVStore\<close>: \<open>kvstore/kvstore.go\<close> and \<open>kvstore/volume.go\<close>; \<open>Memory\<close> and \<open>Etcd\<close>: the backends
    \<open>kvstore/memory.go\<close> and \<open>kvstore/etcd.go\<close>.
  \<^item> \<open>KVSpec\<close>, \<open>KVClient\<close>, \<open>Store\<close>: the abstract store (\<open>kv_abs\<close>), the contract of a backend (locale
    \<open>kv_backend\<close>), every operation of the store against it, and the instances for the backends.
  \<^item> \<open>Scheduler\<close>: \<open>scheduler/scheduler.go\<close> and \<open>client.go\<close>.
  \<^item> \<open>Docker\<close>: \<open>orch/docker/docker.go\<close> and \<open>instance.go\<close>; \<open>DockerStore\<close>: the effect of an item on the
    abstract store (locale \<open>docker_host\<close>).
  \<^item> \<open>Queue\<close>, \<open>Controller\<close>: \<open>controller/queue.go\<close> and the rest of \<open>controller/\<close>.
  \<^item> \<open>Interfaces\<close>: the interfaces of \<open>types.go\<close> as records of operations; \<open>Backups\<close>:
    \<open>backups/backups.go\<close>.
  \<^item> \<open>Cron\<close>, \<open>Manager\<close>, \<open>Monitor\<close>: \<open>manager/cron.go\<close>; \<open>manager.go\<close> and \<open>errs.go\<close>; \<open>monitor.go\<close> and
    \<open>event.go\<close>.
  \<^item> \<open>ManagerSpec\<close>: the contract of an orchestrator and of what the manager needs beside it (locales
    \<open>orchestrator\<close>, \<open>volume_manager\<close>) and the manager's operations against it; \<open>DockerOrc\<close>: the docker
    orchestrator keeps that contract (\<open>docker_engine\<close>, \<open>docker_cluster\<close>); \<open>Wiring\<close>: \<open>main.go\<close>, the
    process as it is put together (\<open>manager_host\<close>).
  \<^item> \<open>ApiModel\<close>, \<open>Api\<close>: \<open>api/model.go\<close> and the handlers, the forwarder and the routes of \<open>api/\<close>, and
    \<open>util/http.go\<close>.
  \<^item> \<open>Tending\<close>: an operation followed to whatever end it comes to (\<open>ends\<close>), and the manager's operations, monitors and
    goroutines against the invariant of the volumes it monitors (locale \<open>manager_process\<close>).
  \<^item> \<open>Adding\<close>, \<open>ManagerProps\<close>, \<open>MonitorProps\<close>, \<open>CronSpec\<close>, \<open>ApiProps\<close>: the properties of these parts.

  \<^bold>\<open>How code becomes definitions.\<close>  A function that can fail or touches the outside is an operation
  \<open>('w, 'a) op\<close> that takes the world and returns \<open>Ok\<close>, \<open>Err\<close> or \<open>Panic\<close> with the world it leaves; a nil
  dereference, an index out of range and a second close of a channel are panics.  A pointer, slice or
  map that may be nil is an option.  \<open>int64\<close> values are 64-bit words; Go's \<open>int\<close> fields are integers,
  with the range where it matters (\<open>int_ok\<close>).  A map is an association list in the order in which it happens to
  be ranged over.  Goroutines that are waited for run in the order of their list; those that are not
  (the goroutine that adds a replica, monitors, tickers, the task queue) are states with steps of
  their own, and their properties hold for every interleaving of the steps.

  \<^bold>\<open>Code outside the repository\<close> is a parameter: the etcd client (\<open>KeysAPI\<close>, with the documented laws of
  etcd v2 in the locale \<open>etcd_api\<close>), the docker client, clock, random IDs, processes and files (\<open>Env\<close>,
  \<open>DockerClient\<close>, \<open>HostEnv\<close>), HTTP between managers (\<open>HttpClient\<close>, \<open>sv_proxy\<close>), the parser of cron
  schedules, \<open>mapstructure\<close>, the parser of sizes, base64, go-rancher's URL builder and reflection.  The laws the
  properties use are assumptions of the locales; each locale is interpreted on the model's own
  definitions over a reference world (\<open>er_api\<close>, \<open>dr_orc\<close>, \<open>mr_internals\<close>, \<open>sr_env\<close>), so that they hold together.  What
  \<open>docker_cluster\<close> assumes of the managers of other hosts is proved in \<open>ApiProps\<close> for a manager that is
  a \<open>docker_engine\<close> and is reached through its API.

  \<^bold>\<open>What is shown.\<close>
  \<^item> The store refines an abstract store over etcd: every call that succeeds changes exactly the entry it names
    (\<open>kvNuclear\<close> empties it), reads return
    exactly what is stored, every reachable state is well-formed, volumes read back as written; over
    the memory backend this holds as long as no name is a prefix of another.
  \<^item> An item of the scheduler changes one record; placement spreads replicas; an item for another host does there what
    it would do locally.
  \<^item> Creating, attaching, detaching and deleting a volume through the manager over docker and etcd leave the
    store and the monitors as they should, touch no other volume even when they fail, and do not panic (apart
    from the cases the error properties describe); a volume created, also from a backup, and deleted leaves no trace.
  \<^item> In every state the manager reaches, by requests, monitors and goroutines, failures and panics included, the volumes it
    monitors have a controller in the store; other managers may change the rest of the store in between.
  \<^item> The counter of replicas being added, the guard of a check, the retry rule of the monitor and its crash, the order
    and the closing of the task queue, one controller per volume.
  \<^item> Recurring snapshots, over the package's own controller and any longhorn tool that keeps the laws of \<open>longhorn_cli\<close>, keep
    exactly the newest ones, in whatever order they are listed, and the clean-up ends; recurring backups are never made.
  \<^item> The API forwards a request at most once and to the right host (over a network that connects to the host of
    the URL, \<open>deliver\<close>), offers the actions it serves, and shows
    a volume in a form that asks for the same volume again.
  \<^item> Time stamps read back as written; sizes, names and waiting loops keep their bounds.

  \<^bold>\<open>Fuel.\<close>  \<open>cleanup_loop\<close> takes a number of rounds; \<open>cleanup_loop_ends\<close> shows that three are enough when the number to
  keep is not negative, \<open>cleanup_loop_diverges\<close> that no number is enough when it is negative.  \<open>Backoff\<close> takes a number of rounds, and
  \<open>Backoff_polls\<close> gives one that is enough for every duration.  \<open>monitor_loop\<close> and \<open>RunJobs_loop\<close> run over the
  list of ticks and events they get, as the goroutines run over their channels.

  \<^bold>\<open>Not modelled.\<close>  \<open>util/server\<close> and \<open>util/daemon\<close> (sockets and signals), \<open>orch/constants.go\<close> (names of flags),
  the command line of \<open>main\<close>, log messages, the exact text of error messages beyond what tells them apart, \<open>go-rancher\<close>'s rendering of
  resources and its own routes, and the vendored packages.
\<close>

end
